theory Spec2Isabelle
  imports Complex_Main "HOL-Library.Sublist" "HOL-Library.Monad_Syntax"
begin

section \<open>Values of the language\<close>

text \<open>
  The template literals of \<^verbatim>\<open>Query.ts\<close> test optional strings and numbers for
  truthiness: \<^verbatim>\<open>undefined\<close>, the empty string, the number zero and \<^verbatim>\<open>NaN\<close> are falsy.
  An optional field is an \<open>option\<close>; \<open>None\<close> is \<^verbatim>\<open>undefined\<close>.
\<close>

text \<open>
  \<^verbatim>\<open>number\<close>: a finite double by its exact value, which is a rational, and the three
  doubles that are no such value. The two zeros are one value here: the code under study
  tells them apart nowhere (both are falsy, and \<^verbatim>\<open>ToString\<close> gives \<^verbatim>\<open>"0"\<close> for both).
  The code computes with no number; it tests a limit or an offset for truthiness and
  puts it in a template literal. The conversion of a number to a string there is the
  engine's \<^verbatim>\<open>ToString\<close>, an argument \<open>num\<close> of the rendering functions.
\<close>

datatype number = Finite rat | NaN | Infinity | MinusInfinity

definition truthy_string :: "string option \<Rightarrow> bool" where
  "truthy_string a = (case a of None \<Rightarrow> False | Some s \<Rightarrow> s \<noteq> [])"

fun falsy :: "number \<Rightarrow> bool" where
  "falsy (Finite r) = (r = 0)"
| "falsy NaN = True"
| "falsy Infinity = False"
| "falsy MinusInfinity = False"

definition truthy_number :: "number option \<Rightarrow> bool" where
  "truthy_number n = (case n of None \<Rightarrow> False | Some k \<Rightarrow> \<not> falsy k)"

text \<open>\<^verbatim>\<open>Array.prototype.join\<close> on an array of strings.\<close>

fun join :: "string \<Rightarrow> string list \<Rightarrow> string" where
  "join sep [] = []"
| "join sep [x] = x"
| "join sep (x # y # ys) = x @ sep @ join sep (y # ys)"

section \<open>Flavor\<close>

text \<open>
  \<^verbatim>\<open>ISQLFlavor\<close> is declared in \<^verbatim>\<open>./Flavor\<close>; the code under study uses its two
  escaping functions only. Every definition below takes the flavor as an argument.
\<close>

record ISQLFlavor =
  escapeColumn :: "string \<Rightarrow> string"
  escapeTable :: "string \<Rightarrow> string"

section \<open>The nodes of a query\<close>

datatype JoinType = INNER | LEFT | RIGHT | FULL

datatype Direction = ASC | DESC

datatype UnionType = UNION | UNION_ALL

datatype SelectField = SelectField (name: string) (field_alias: "string option")

datatype Order = Order (field: string) (direction: Direction)

text \<open>
  \<open>'c\<close> is the class \<^verbatim>\<open>Condition\<close> of \<^verbatim>\<open>./Condition\<close>, which the code treats as
  opaque: it calls \<^verbatim>\<open>toSQL\<close>, \<^verbatim>\<open>toJSON\<close> and \<^verbatim>\<open>Condition.fromJSON\<close> on it.

  A node below is the value of an object of the class: the fields of the object, with
  every array and every object it refers to read out. The classes \<^verbatim>\<open>QueryBase\<close>,
  \<^verbatim>\<open>SelectBaseQuery\<close> and \<^verbatim>\<open>SelectQuery\<close> form one chain of inheritance, and
  \<^verbatim>\<open>new (this.constructor as any)()\<close> always builds the most derived one: a
  \<open>SelectQuery\<close> value holds the fields of all three.
\<close>

datatype 'c TableSource = Name string | Sub "'c SelectQuery"
and 'c Table = Table (source: "'c TableSource") (alias_of: "string option")
and 'c Join = Join (join_table: "'c Table") (join_condition: "'c option") (join_type: JoinType)
and 'c UnionQuery = UnionQuery (query: "'c SelectQuery") (union_type: UnionType)
and 'c SelectQuery = SelectQuery
  (tables_of: "'c Table list")
  (joins_of: "'c Join list")
  (fields_of: "SelectField list")
  (where_of: "'c list")
  (having_of: "'c list")
  (limit_of: "number option")
  (offset_of: "number option")
  (orderBy_of: "Order list")
  (groupBy_of: "string list")
  (unionQueries_of: "'c UnionQuery list")

section \<open>Rendering\<close>

fun JoinType_text :: "JoinType \<Rightarrow> string" where
  "JoinType_text INNER = ''INNER''"
| "JoinType_text LEFT = ''LEFT''"
| "JoinType_text RIGHT = ''RIGHT''"
| "JoinType_text FULL = ''FULL''"

fun Direction_text :: "Direction \<Rightarrow> string" where
  "Direction_text ASC = ''ASC''"
| "Direction_text DESC = ''DESC''"

fun UnionType_text :: "UnionType \<Rightarrow> string" where
  "UnionType_text UNION = ''UNION''"
| "UnionType_text UNION_ALL = ''UNION ALL''"

definition isSelectQuery :: "'c TableSource \<Rightarrow> bool" where
  "isSelectQuery t = (case t of Name _ \<Rightarrow> False | Sub _ \<Rightarrow> True)"

definition field_toSQL :: "ISQLFlavor \<Rightarrow> SelectField \<Rightarrow> string" where
  "field_toSQL flavor f =
     escapeColumn flavor (name f) @
     (if truthy_string (field_alias f)
      then '' AS '' @ escapeColumn flavor (the (field_alias f)) else '''')"

definition order_toSQL :: "ISQLFlavor \<Rightarrow> Order \<Rightarrow> string" where
  "order_toSQL flavor ord = escapeColumn flavor (field ord) @ '' '' @ Direction_text (direction ord)"

lemma size_list_member: "x \<in> set xs \<Longrightarrow> f x \<le> size_list f xs"
  by (induction xs) auto

lemma size_query_member: "u \<in> set us \<Longrightarrow> size (query u) < size_list size us"
  using size_list_member[of u us size] by (cases u) simp

text \<open>
  \<open>toSQL\<close> of the three query classes, of \<open>Table\<close> and of \<open>Join\<close>, and the function
  \<^verbatim>\<open>escapeTable\<close> of the module (here \<open>escapeTableSource\<close>: the flavor has a field of
  that name). \<open>cond\<close> is \<^verbatim>\<open>Condition.toSQL\<close>, \<open>num\<close> the conversion of a number to a string
  in a template literal.
\<close>

function Table_toSQL ::
    "(number \<Rightarrow> string) \<Rightarrow> (ISQLFlavor \<Rightarrow> 'c \<Rightarrow> string) \<Rightarrow> ISQLFlavor \<Rightarrow> 'c Table \<Rightarrow> string"
and escapeTableSource ::
    "(number \<Rightarrow> string) \<Rightarrow> (ISQLFlavor \<Rightarrow> 'c \<Rightarrow> string) \<Rightarrow> ISQLFlavor \<Rightarrow> 'c TableSource \<Rightarrow> string"
and Join_toSQL ::
    "(number \<Rightarrow> string) \<Rightarrow> (ISQLFlavor \<Rightarrow> 'c \<Rightarrow> string) \<Rightarrow> ISQLFlavor \<Rightarrow> 'c Join \<Rightarrow> string"
and QueryBase_toSQL ::
    "(number \<Rightarrow> string) \<Rightarrow> (ISQLFlavor \<Rightarrow> 'c \<Rightarrow> string) \<Rightarrow> ISQLFlavor \<Rightarrow> 'c SelectQuery \<Rightarrow> string"
and SelectBaseQuery_toSQL ::
    "(number \<Rightarrow> string) \<Rightarrow> (ISQLFlavor \<Rightarrow> 'c \<Rightarrow> string) \<Rightarrow> ISQLFlavor \<Rightarrow> 'c SelectQuery \<Rightarrow> string"
and SelectQuery_toSQL ::
    "(number \<Rightarrow> string) \<Rightarrow> (ISQLFlavor \<Rightarrow> 'c \<Rightarrow> string) \<Rightarrow> ISQLFlavor \<Rightarrow> 'c SelectQuery \<Rightarrow> string"
where
  "Table_toSQL num cond flavor (Table src al) =
     (let isSelect = isSelectQuery src;
          tableName = escapeTableSource num cond flavor src;
          al' = (if isSelect \<and> \<not> truthy_string al then Some ''t'' else al)
      in tableName @ (if truthy_string al' then '' AS '' @ escapeColumn flavor (the al') else ''''))"
| "escapeTableSource num cond flavor (Sub q) = ''('' @ SelectQuery_toSQL num cond flavor q @ '')''"
| "escapeTableSource num cond flavor (Name n) = escapeTable flavor n"
| "Join_toSQL num cond flavor (Join t c ty) =
     JoinType_text ty @ '' JOIN '' @ Table_toSQL num cond flavor t @
     (case c of Some c' \<Rightarrow> '' ON '' @ cond flavor c' | None \<Rightarrow> '''')"
| "QueryBase_toSQL num cond flavor (SelectQuery ts js fs ws hs lmt off obs gbs us) =
     (if length ts > 0
      then ''FROM '' @ join '','' (map (Table_toSQL num cond flavor) ts)
      else '''')"
| "SelectBaseQuery_toSQL num cond flavor (SelectQuery ts js fs ws hs lmt off obs gbs us) =
     (let columns = (if length fs > 0 then join '', '' (map (field_toSQL flavor) fs) else ''*'')
      in ''SELECT '' @ columns @ '' '' @
         QueryBase_toSQL num cond flavor (SelectQuery ts js fs ws hs lmt off obs gbs us))"
| "SelectQuery_toSQL num cond flavor (SelectQuery ts js fs ws hs lmt off obs gbs us) =
     (let sql = SelectBaseQuery_toSQL num cond flavor (SelectQuery ts js fs ws hs lmt off obs gbs us);
          sql = (if length js > 0
                 then sql @ '' '' @ join '' '' (map (Join_toSQL num cond flavor) js) else sql);
          sql = (if length ws > 0
                 then sql @ '' WHERE '' @ join '' AND '' (map (cond flavor) ws) else sql);
          sql = (if length gbs > 0
                 then sql @ '' GROUP BY '' @ join '', '' (map (escapeColumn flavor) gbs) else sql);
          sql = (if length hs > 0
                 then sql @ '' HAVING '' @ join '' AND '' (map (cond flavor) hs) else sql);
          sql = (if length obs > 0
                 then sql @ '' ORDER BY '' @ join '', '' (map (order_toSQL flavor) obs) else sql);
          sql = (if truthy_number lmt then sql @ '' LIMIT '' @ num (the lmt) else sql);
          sql = (if truthy_number off then sql @ '' OFFSET '' @ num (the off) else sql)
      in foldl (\<lambda>sql unionQuery.
                  ''('' @ sql @ '') '' @ UnionType_text (union_type unionQuery) @
                  '' ('' @ SelectQuery_toSQL num cond flavor (query unionQuery) @ '')'')
           sql us)"
  by pat_completeness auto

termination
  apply (relation "measure (\<lambda>x. case x of
      Inl (Inl (n, c, f, t)) \<Rightarrow> 3 * size t
    | Inl (Inr (Inl (n, c, f, s))) \<Rightarrow> 3 * size s
    | Inl (Inr (Inr (n, c, f, j))) \<Rightarrow> 3 * size j
    | Inr (Inl (n, c, f, q)) \<Rightarrow> 3 * size q
    | Inr (Inr (Inl (n, c, f, q))) \<Rightarrow> 3 * size q + 1
    | Inr (Inr (Inr (n, c, f, q))) \<Rightarrow> 3 * size q + 2)")
     apply simp_all
    apply (frule size_list_member[where f = size], simp)
   apply (frule size_list_member[where f = size], simp)
  apply (frule size_query_member, simp)
  done

section \<open>JSON values\<close>

text \<open>
  The values that \<^verbatim>\<open>toJSON\<close> builds and \<^verbatim>\<open>fromJSON\<close> reads. \<^verbatim>\<open>Table.toJSON\<close> stores
  \<^verbatim>\<open>this.source\<close> as it is, so a value may hold a \<^verbatim>\<open>SelectQuery\<close> object:
  \<open>JSelectQuery\<close>.
\<close>

datatype 'c js =
    JUndefined
  | JNull
  | JBool bool
  | JNumber number
  | JString string
  | JArray "'c js list"
  | JObject "(string \<times> 'c js) list"
  | JSelectQuery "'c SelectQuery"

datatype type_error = CannotReadProperty string | NotAFunction string

datatype exn = Error string | TypeError type_error | SyntaxError string

text \<open>
  A call returns, throws, or leaves the embedding: \<^verbatim>\<open>fromJSON\<close> takes \<^verbatim>\<open>any\<close> and
  stores what it finds without a check, so on a value of the wrong shape the code goes on
  with a node outside its declared types. Such a run is \<open>Unmodelled\<close>: the embedding
  says nothing about it.
\<close>

datatype 'a outcome = Returns 'a | Throws exn | Unmodelled

definition obind :: "'a outcome \<Rightarrow> ('a \<Rightarrow> 'b outcome) \<Rightarrow> 'b outcome" where
  "obind m f = (case m of Returns x \<Rightarrow> f x | Throws e \<Rightarrow> Throws e | Unmodelled \<Rightarrow> Unmodelled)"

fun omap :: "('a \<Rightarrow> 'b outcome) \<Rightarrow> 'a list \<Rightarrow> 'b list outcome" where
  "omap f [] = Returns []"
| "omap f (x # xs) = obind (f x) (\<lambda>y. obind (omap f xs) (\<lambda>ys. Returns (y # ys)))"

text \<open>The property names that the code reads from a JSON value.\<close>

definition node_keys :: "string list" where
  "node_keys = [''type'', ''source'', ''alias'', ''table'', ''condition'', ''joinType'',
     ''tables'', ''unionQueries'', ''joins'', ''fields'', ''where'', ''having'', ''limit'',
     ''offset'', ''orderBy'', ''groupBy'', ''query'', ''name'', ''field'', ''direction'']"

text \<open>
  \<open>property j k\<close> is \<^verbatim>\<open>j.k\<close>. Reading a property of \<^verbatim>\<open>undefined\<close> or \<^verbatim>\<open>null\<close> throws a
  \<^verbatim>\<open>TypeError\<close>; a primitive, an array and a plain object without the key give
  \<^verbatim>\<open>undefined\<close> for each of \<open>node_keys\<close> (none of them is a member of a prototype).
  A \<^verbatim>\<open>SelectQuery\<close> object has no member \<^verbatim>\<open>type\<close>; its other members are not values
  of \<open>js\<close>.
\<close>

fun property :: "'c js \<Rightarrow> string \<Rightarrow> 'c js outcome" where
  "property JUndefined k = Throws (TypeError (CannotReadProperty k))"
| "property JNull k = Throws (TypeError (CannotReadProperty k))"
| "property (JObject kvs) k =
     (if k \<in> set node_keys
      then Returns (case map_of kvs k of Some v \<Rightarrow> v | None \<Rightarrow> JUndefined)
      else Unmodelled)"
| "property (JSelectQuery q) k = (if k = ''type'' then Returns JUndefined else Unmodelled)"
| "property j k = (if k \<in> set node_keys then Returns JUndefined else Unmodelled)"

text \<open>\<^verbatim>\<open>typeof j === "object"\<close>.\<close>

fun is_object :: "'c js \<Rightarrow> bool" where
  "is_object JNull = True"
| "is_object (JArray xs) = True"
| "is_object (JObject kvs) = True"
| "is_object (JSelectQuery q) = True"
| "is_object j = False"

fun truthy :: "'c js \<Rightarrow> bool" where
  "truthy JUndefined = False"
| "truthy JNull = False"
| "truthy (JBool b) = b"
| "truthy (JNumber k) = (\<not> falsy k)"
| "truthy (JString s) = (s \<noteq> [])"
| "truthy j = True"

text \<open>\<^verbatim>\<open>j ?? []\<close> and \<^verbatim>\<open>j || []\<close>.\<close>

fun nullish_default :: "'c js \<Rightarrow> 'c js" where
  "nullish_default JUndefined = JArray []"
| "nullish_default JNull = JArray []"
| "nullish_default j = j"

definition falsy_default :: "'c js \<Rightarrow> 'c js" where
  "falsy_default j = (if truthy j then j else JArray [])"

text \<open>\<^verbatim>\<open>j.map(f)\<close>: the callback runs on the elements in order and a throw ends the call.\<close>

fun call_map :: "('c js \<Rightarrow> 'b outcome) \<Rightarrow> 'c js \<Rightarrow> 'b list outcome" where
  "call_map f (JArray xs) = omap f xs"
| "call_map f JUndefined = Throws (TypeError (CannotReadProperty ''map''))"
| "call_map f JNull = Throws (TypeError (CannotReadProperty ''map''))"
| "call_map f j = Throws (TypeError (NotAFunction ''map''))"

text \<open>
  Storing a JSON value in a typed field: the value when it has the type of the field,
  \<open>Unmodelled\<close> otherwise.
\<close>

fun as_string :: "'c js \<Rightarrow> string outcome" where
  "as_string (JString s) = Returns s"
| "as_string j = Unmodelled"

fun as_optional_string :: "'c js \<Rightarrow> string option outcome" where
  "as_optional_string JUndefined = Returns None"
| "as_optional_string (JString s) = Returns (Some s)"
| "as_optional_string j = Unmodelled"

fun as_optional_number :: "'c js \<Rightarrow> number option outcome" where
  "as_optional_number JUndefined = Returns None"
| "as_optional_number (JNumber k) = Returns (Some k)"
| "as_optional_number j = Unmodelled"

fun as_TableSource :: "'c js \<Rightarrow> 'c TableSource outcome" where
  "as_TableSource (JString s) = Returns (Name s)"
| "as_TableSource (JSelectQuery q) = Returns (Sub q)"
| "as_TableSource j = Unmodelled"

text \<open>
  The third parameter of the constructor of \<^verbatim>\<open>Join\<close> has the default \<^verbatim>\<open>"INNER"\<close>, which
  stands in for \<^verbatim>\<open>undefined\<close>.
\<close>

definition as_JoinType :: "'c js \<Rightarrow> JoinType outcome" where
  "as_JoinType j =
     (if j = JUndefined \<or> j = JString ''INNER'' then Returns INNER
      else if j = JString ''LEFT'' then Returns LEFT
      else if j = JString ''RIGHT'' then Returns RIGHT
      else if j = JString ''FULL'' then Returns FULL
      else Unmodelled)"

definition as_UnionType :: "'c js \<Rightarrow> UnionType outcome" where
  "as_UnionType j =
     (if j = JString ''UNION'' then Returns UNION
      else if j = JString ''UNION ALL'' then Returns UNION_ALL
      else Unmodelled)"

definition as_Direction :: "'c js \<Rightarrow> Direction outcome" where
  "as_Direction j =
     (if j = JString ''ASC'' then Returns ASC
      else if j = JString ''DESC'' then Returns DESC
      else Unmodelled)"

fun as_SelectField :: "'c js \<Rightarrow> SelectField outcome" where
  "as_SelectField (JObject kvs) =
     (if set (map fst kvs) \<subseteq> {''name'', ''alias''}
      then obind (property (JObject kvs) ''name'') (\<lambda>n. obind (as_string n) (\<lambda>n'.
           obind (property (JObject kvs) ''alias'') (\<lambda>a. obind (as_optional_string a) (\<lambda>a'.
           Returns (SelectField n' a')))))
      else Unmodelled)"
| "as_SelectField j = Unmodelled"

fun as_Order :: "'c js \<Rightarrow> Order outcome" where
  "as_Order (JObject kvs) =
     (if set (map fst kvs) \<subseteq> {''field'', ''direction''}
      then obind (property (JObject kvs) ''field'') (\<lambda>f. obind (as_string f) (\<lambda>f'.
           obind (property (JObject kvs) ''direction'') (\<lambda>d. obind (as_Direction d) (\<lambda>d'.
           Returns (Order f' d')))))
      else Unmodelled)"
| "as_Order j = Unmodelled"

fun as_array :: "('c js \<Rightarrow> 'b outcome) \<Rightarrow> 'c js \<Rightarrow> 'b list outcome" where
  "as_array f (JArray xs) = omap f xs"
| "as_array f j = Unmodelled"

section \<open>Serialization\<close>

definition optional_string_js :: "string option \<Rightarrow> 'c js" where
  "optional_string_js a = (case a of None \<Rightarrow> JUndefined | Some s \<Rightarrow> JString s)"

definition optional_number_js :: "number option \<Rightarrow> 'c js" where
  "optional_number_js n = (case n of None \<Rightarrow> JUndefined | Some k \<Rightarrow> JNumber k)"

definition TableSource_js :: "'c TableSource \<Rightarrow> 'c js" where
  "TableSource_js s = (case s of Name n \<Rightarrow> JString n | Sub q \<Rightarrow> JSelectQuery q)"

definition SelectField_js :: "SelectField \<Rightarrow> 'c js" where
  "SelectField_js f =
     JObject [(''name'', JString (name f)), (''alias'', optional_string_js (field_alias f))]"

definition Order_js :: "Order \<Rightarrow> 'c js" where
  "Order_js ord =
     JObject [(''field'', JString (field ord)),
              (''direction'', JString (Direction_text (direction ord)))]"

text \<open>\<open>ctj\<close> is \<^verbatim>\<open>toJSON\<close> of \<^verbatim>\<open>Condition\<close>, \<open>cfj\<close> is \<^verbatim>\<open>Condition.fromJSON\<close>.\<close>

definition Table_toJSON :: "'c Table \<Rightarrow> 'c js" where
  "Table_toJSON t =
     JObject [(''type'', JString ''Table''),
              (''source'', TableSource_js (source t)),
              (''alias'', optional_string_js (alias_of t))]"

definition Join_toJSON :: "('c \<Rightarrow> 'c js) \<Rightarrow> 'c Join \<Rightarrow> 'c js" where
  "Join_toJSON ctj j =
     JObject [(''type'', JString ''Join''),
              (''table'', Table_toJSON (join_table j)),
              (''condition'', (case join_condition j of None \<Rightarrow> JUndefined | Some c \<Rightarrow> ctj c)),
              (''joinType'', JString (JoinType_text (join_type j)))]"

function SelectQuery_toJSON :: "('c \<Rightarrow> 'c js) \<Rightarrow> 'c SelectQuery \<Rightarrow> 'c js" where
  "SelectQuery_toJSON ctj (SelectQuery ts js fs ws hs lmt off obs gbs us) =
     JObject [(''type'', JString ''SelectQuery''),
              (''tables'', JArray (map Table_toJSON ts)),
              (''unionQueries'',
                 JArray (map (\<lambda>u. JObject [(''type'', JString (UnionType_text (union_type u))),
                                            (''query'', SelectQuery_toJSON ctj (query u))]) us)),
              (''joins'', JArray (map (Join_toJSON ctj) js)),
              (''fields'', JArray (map SelectField_js fs)),
              (''where'', JArray (map ctj ws)),
              (''having'', JArray (map ctj hs)),
              (''limit'', optional_number_js lmt),
              (''offset'', optional_number_js off),
              (''orderBy'', JArray (map Order_js obs)),
              (''groupBy'', JArray (map JString gbs))]"
  by pat_completeness auto

termination
  apply (relation "measure (\<lambda>(ctj, q). size q)")
   apply simp
  apply (frule size_query_member, simp)
  done

lemma obind_cong [fundef_cong]:
  "m = m' \<Longrightarrow> (\<And>x. m' = Returns x \<Longrightarrow> f x = f' x) \<Longrightarrow> obind m f = obind m' f'"
  by (simp add: obind_def split: outcome.splits)

lemma omap_cong [fundef_cong]:
  "xs = ys \<Longrightarrow> (\<And>x. x \<in> set ys \<Longrightarrow> f x = g x) \<Longrightarrow> omap f xs = omap g ys"
  by (induction ys arbitrary: xs) (auto cong: obind_cong)

lemma call_map_cong [fundef_cong]:
  "j = j' \<Longrightarrow> (\<And>xs x. j' = JArray xs \<Longrightarrow> x \<in> set xs \<Longrightarrow> f x = g x)
     \<Longrightarrow> call_map f j = call_map g j'"
  by (cases j') (auto cong: omap_cong)

lemma size_map_of: "map_of kvs k = Some v \<Longrightarrow> size v < Suc (size_list (size_prod (\<lambda>_. 0) size) kvs)"
  by (induction kvs) (auto split: if_splits)

lemma size_property_le: "property j k = Returns v \<Longrightarrow> size v \<le> size j"
  using size_map_of[of _ k v]
  by (cases j) (auto split: if_splits option.splits simp: less_imp_le)

lemma size_property_less:
  "property j k = Returns v \<Longrightarrow> v \<noteq> JUndefined \<Longrightarrow> size v < size j"
  using size_map_of[of _ k v]
  by (cases j) (auto split: if_splits option.splits)

lemma size_array_member:
  "property j k = Returns (JArray xs) \<Longrightarrow> x \<in> set xs \<Longrightarrow> size x < size j"
  using size_property_less[of j k "JArray xs"] size_list_member[of x xs size] by simp

lemma falsy_default_member:
  "falsy_default j = JArray xs \<Longrightarrow> x \<in> set xs \<Longrightarrow> j = JArray xs"
  by (auto simp: falsy_default_def split: if_splits)

lemma size_object_property:
  "property j k = Returns x \<Longrightarrow> is_object x \<Longrightarrow> size x < size j"
  using size_property_less[of j k x] by (cases x) auto

function Table_fromJSON :: "('c js \<Rightarrow> 'c outcome) \<Rightarrow> 'c js \<Rightarrow> 'c Table outcome"
and Join_fromJSON :: "('c js \<Rightarrow> 'c outcome) \<Rightarrow> 'c js \<Rightarrow> 'c Join outcome"
and SelectQuery_fromJSON :: "('c js \<Rightarrow> 'c outcome) \<Rightarrow> 'c js \<Rightarrow> 'c SelectQuery outcome"
where
  "Table_fromJSON cfj json =
     obind (property json ''source'') (\<lambda>src.
     obind (if is_object src
            then obind (property src ''type'') (\<lambda>ty. Returns (ty = JString ''SelectQuery''))
            else Returns False) (\<lambda>isQuery.
     if isQuery
     then obind (SelectQuery_fromJSON cfj src) (\<lambda>q.
          obind (property json ''alias'') (\<lambda>al.
          obind (as_optional_string al) (\<lambda>al'.
          Returns (Table (Sub q) al'))))
     else obind (property json ''alias'') (\<lambda>al.
          obind (as_TableSource src) (\<lambda>src'.
          obind (as_optional_string al) (\<lambda>al'.
          Returns (Table src' al'))))))"
| "Join_fromJSON cfj json =
     obind (property json ''table'') (\<lambda>t.
     obind (Table_fromJSON cfj t) (\<lambda>table.
     obind (property json ''condition'') (\<lambda>c.
     obind (if truthy c then obind (cfj c) (\<lambda>c'. Returns (Some c'))
            else if c = JUndefined then Returns None else Unmodelled) (\<lambda>condition.
     obind (property json ''joinType'') (\<lambda>jt.
     obind (as_JoinType jt) (\<lambda>ty.
     Returns (Join table condition ty)))))))"
| "SelectQuery_fromJSON cfj json =
     obind (property json ''tables'') (\<lambda>ts.
     obind (call_map (Table_fromJSON cfj) ts) (\<lambda>tables'.
     obind (property json ''unionQueries'') (\<lambda>us.
     obind (call_map (\<lambda>u.
              obind (property u ''type'') (\<lambda>ty.
              obind (property u ''query'') (\<lambda>q.
              obind (SelectQuery_fromJSON cfj q) (\<lambda>q'.
              obind (as_UnionType ty) (\<lambda>ty'.
              Returns (UnionQuery q' ty'))))))
            (falsy_default us)) (\<lambda>unionQueries'.
     obind (property json ''joins'') (\<lambda>js.
     obind (call_map (Join_fromJSON cfj) (falsy_default js)) (\<lambda>joins'.
     obind (property json ''fields'') (\<lambda>fs.
     obind (property json ''where'') (\<lambda>ws.
     obind (call_map cfj (falsy_default ws)) (\<lambda>where'.
     obind (property json ''having'') (\<lambda>hs.
     obind (call_map cfj (falsy_default hs)) (\<lambda>having'.
     obind (property json ''limit'') (\<lambda>lmt.
     obind (property json ''offset'') (\<lambda>off.
     obind (property json ''orderBy'') (\<lambda>obs.
     obind (property json ''groupBy'') (\<lambda>gbs.
     obind (as_array as_SelectField fs) (\<lambda>fields'.
     obind (as_optional_number lmt) (\<lambda>limit'.
     obind (as_optional_number off) (\<lambda>offset'.
     obind (as_array as_Order (nullish_default obs)) (\<lambda>orderBy'.
     obind (as_array as_string (nullish_default gbs)) (\<lambda>groupBy'.
     Returns (SelectQuery tables' joins' fields' where' having' limit' offset'
                orderBy' groupBy' unionQueries')))))))))))))))))))))"
  by pat_completeness auto

termination
proof (relation "measure (\<lambda>x. case x of
      Inl (cfj, j) \<Rightarrow> 2 * size j
    | Inr (Inl (cfj, j)) \<Rightarrow> 2 * size j + 1
    | Inr (Inr (cfj, j)) \<Rightarrow> 2 * size j + 1)", goal_cases)
  case 1
  then show ?case by simp
next
  case (2 cfj json x xa)
  then have "is_object x" by (auto split: if_splits)
  with 2 show ?case using size_object_property[of json "''source''" x] by simp
next
  case (3 cfj json x)
  then show ?case using size_property_le[of json "''table''" x] by simp
next
  case (4 cfj json x xs xa)
  then show ?case using size_array_member[of json "''tables''" xs xa] by simp
next
  case (5 cfj json x xa xb xs xc xd xe)
  then have "xb = JArray xs" using falsy_default_member by blast
  with 5 have "size xc < size json"
    using size_array_member[of json "''unionQueries''" xs xc] by simp
  moreover have "size xe \<le> size xc" using 5 size_property_le by blast
  ultimately show ?case by simp
next
  case (6 cfj json x xa xb xc xd xs xe)
  then have "xd = JArray xs" using falsy_default_member by blast
  with 6 show ?case
    using size_array_member[of json "''joins''" xs xe] by simp
qed

section \<open>The primary table\<close>

text \<open>The getter \<^verbatim>\<open>table\<close> of \<^verbatim>\<open>QueryBase\<close>.\<close>

definition QueryBase_table :: "'c SelectQuery \<Rightarrow> 'c Table outcome" where
  "QueryBase_table this =
     (if length (tables_of this) = 0 then Throws (Error ''No table defined'')
      else Returns (tables_of this ! 0))"

section \<open>The dispatcher\<close>

text \<open>
  \<^verbatim>\<open>DeleteMutation\<close>, \<^verbatim>\<open>InsertMutation\<close> and \<^verbatim>\<open>UpdateMutation\<close> are classes of
  \<^verbatim>\<open>./Mutation\<close>: \<open>'d\<close>, \<open>'i\<close> and \<open>'u\<close>, with their \<^verbatim>\<open>fromJSON\<close> as arguments.
\<close>

datatype ('c, 'd, 'i, 'u) statement =
    SelectStatement "'c SelectQuery"
  | DeleteStatement 'd
  | InsertStatement 'i
  | UpdateStatement 'u

text \<open>
  \<^verbatim>\<open>(e as Error).message\<close>. The message of a \<^verbatim>\<open>TypeError\<close> of the runtime is worded by
  the engine: \<open>engine\<close>.
\<close>

fun message :: "(type_error \<Rightarrow> string) \<Rightarrow> exn \<Rightarrow> string" where
  "message engine (Error m) = m"
| "message engine (TypeError t) = engine t"
| "message engine (SyntaxError m) = m"

text \<open>The \<^verbatim>\<open>switch\<close> of \<^verbatim>\<open>deserialize\<close> on \<^verbatim>\<open>parsed.type\<close>.\<close>

definition dispatch ::
  "('c js \<Rightarrow> 'c outcome) \<Rightarrow> ('c js \<Rightarrow> 'd outcome) \<Rightarrow> ('c js \<Rightarrow> 'i outcome) \<Rightarrow>
   ('c js \<Rightarrow> 'u outcome) \<Rightarrow> 'c js \<Rightarrow> ('c, 'd, 'i, 'u) statement outcome" where
  "dispatch cfj dfj ifj ufj parsed =
     obind (property parsed ''type'') (\<lambda>ty.
       if ty = JString ''SelectQuery''
       then obind (SelectQuery_fromJSON cfj parsed) (\<lambda>q. Returns (SelectStatement q))
       else if ty = JString ''DeleteMutation''
       then obind (dfj parsed) (\<lambda>m. Returns (DeleteStatement m))
       else if ty = JString ''InsertMutation''
       then obind (ifj parsed) (\<lambda>m. Returns (InsertStatement m))
       else if ty = JString ''UpdateMutation''
       then obind (ufj parsed) (\<lambda>m. Returns (UpdateStatement m))
       else Throws (Error ''Unknown mutation type''))"

text \<open>
  \<^verbatim>\<open>deserialize\<close>. Its text argument is used once, in \<^verbatim>\<open>JSON.parse(json)\<close>, a function
  of the language: the argument here is the outcome of that call, the decoded value or
  the \<^verbatim>\<open>SyntaxError\<close> with the reason.
\<close>

definition deserialize ::
  "(type_error \<Rightarrow> string) \<Rightarrow> ('c js \<Rightarrow> 'c outcome) \<Rightarrow> ('c js \<Rightarrow> 'd outcome) \<Rightarrow>
   ('c js \<Rightarrow> 'i outcome) \<Rightarrow> ('c js \<Rightarrow> 'u outcome) \<Rightarrow> 'c js outcome \<Rightarrow>
   ('c, 'd, 'i, 'u) statement outcome" where
  "deserialize engine cfj dfj ifj ufj JSON_parse_json =
     (case obind JSON_parse_json (dispatch cfj dfj ifj ufj) of
        Throws e \<Rightarrow> Throws (Error (''Error parsing query: '' @ message engine e))
      | r \<Rightarrow> r)"

section \<open>Objects and arrays\<close>

text \<open>
  The builder methods copy the receiver and change the copy, so what they do depends on
  which arrays and objects are shared. Here every \<^verbatim>\<open>Table\<close>, \<^verbatim>\<open>Join\<close> and
  \<^verbatim>\<open>SelectQuery\<close> object and every array is a cell of a store, and a field that holds
  one holds its address. A \<^verbatim>\<open>Condition\<close>, a \<^verbatim>\<open>SelectField\<close>, an \<^verbatim>\<open>Order\<close> and the
  pair of a union are held as values: no code of \<^verbatim>\<open>Query.ts\<close> writes to them.
  The store is a list of cells, an address is an index, and a new cell goes to the end.
\<close>

type_synonym addr = nat

record QueryObject =
  tables_ref :: addr
  joins_ref :: addr
  fields_ref :: addr
  where_ref :: addr
  having_ref :: addr
  limit_field :: "number option"
  offset_field :: "number option"
  orderBy_ref :: addr
  groupBy_ref :: addr
  unionQueries_ref :: addr

datatype 'c cell =
    TableObject "string + addr" "string option"
  | JoinObject addr "'c option" JoinType
  | SelectQueryObject QueryObject
  | TableArray "addr list"
  | JoinArray "addr list"
  | FieldArray "SelectField list"
  | ConditionArray "'c list"
  | OrderArray "Order list"
  | StringArray "string list"
  | UnionArray "(addr \<times> UnionType) list"

type_synonym 'c heap = "'c cell list"

definition alloc :: "'c cell \<Rightarrow> 'c heap \<Rightarrow> addr \<times> 'c heap" where
  "alloc c h = (length h, h @ [c])"

definition lookup :: "'c heap \<Rightarrow> addr \<Rightarrow> 'c cell option" where
  "lookup h a = (if a < length h then Some (h ! a) else None)"

text \<open>
  Reading a cell as an object or an array of one class. \<open>None\<close> is a cell of another
  class or no cell at all, which the types of the code exclude.
\<close>

definition getTable :: "'c heap \<Rightarrow> addr \<Rightarrow> ((string + addr) \<times> string option) option" where
  "getTable h a = (case lookup h a of Some (TableObject s al) \<Rightarrow> Some (s, al) | _ \<Rightarrow> None)"

definition getJoin :: "'c heap \<Rightarrow> addr \<Rightarrow> (addr \<times> 'c option \<times> JoinType) option" where
  "getJoin h a = (case lookup h a of Some (JoinObject t c ty) \<Rightarrow> Some (t, c, ty) | _ \<Rightarrow> None)"

definition getQuery :: "'c heap \<Rightarrow> addr \<Rightarrow> QueryObject option" where
  "getQuery h a = (case lookup h a of Some (SelectQueryObject obj) \<Rightarrow> Some obj | _ \<Rightarrow> None)"

definition getTableArray :: "'c heap \<Rightarrow> addr \<Rightarrow> addr list option" where
  "getTableArray h a = (case lookup h a of Some (TableArray xs) \<Rightarrow> Some xs | _ \<Rightarrow> None)"

definition getJoinArray :: "'c heap \<Rightarrow> addr \<Rightarrow> addr list option" where
  "getJoinArray h a = (case lookup h a of Some (JoinArray xs) \<Rightarrow> Some xs | _ \<Rightarrow> None)"

definition getFieldArray :: "'c heap \<Rightarrow> addr \<Rightarrow> SelectField list option" where
  "getFieldArray h a = (case lookup h a of Some (FieldArray xs) \<Rightarrow> Some xs | _ \<Rightarrow> None)"

definition getConditionArray :: "'c heap \<Rightarrow> addr \<Rightarrow> 'c list option" where
  "getConditionArray h a = (case lookup h a of Some (ConditionArray xs) \<Rightarrow> Some xs | _ \<Rightarrow> None)"

definition getOrderArray :: "'c heap \<Rightarrow> addr \<Rightarrow> Order list option" where
  "getOrderArray h a = (case lookup h a of Some (OrderArray xs) \<Rightarrow> Some xs | _ \<Rightarrow> None)"

definition getStringArray :: "'c heap \<Rightarrow> addr \<Rightarrow> string list option" where
  "getStringArray h a = (case lookup h a of Some (StringArray xs) \<Rightarrow> Some xs | _ \<Rightarrow> None)"

definition getUnionArray :: "'c heap \<Rightarrow> addr \<Rightarrow> (addr \<times> UnionType) list option" where
  "getUnionArray h a = (case lookup h a of Some (UnionArray xs) \<Rightarrow> Some xs | _ \<Rightarrow> None)"

text \<open>The field reads \<^verbatim>\<open>this._tables\<close>, \<^verbatim>\<open>this._joins\<close>, ... of a query object.\<close>

definition get_tables :: "'c heap \<Rightarrow> addr \<Rightarrow> addr list option" where
  "get_tables h this = do { obj \<leftarrow> getQuery h this; getTableArray h (tables_ref obj) }"

definition get_joins :: "'c heap \<Rightarrow> addr \<Rightarrow> addr list option" where
  "get_joins h this = do { obj \<leftarrow> getQuery h this; getJoinArray h (joins_ref obj) }"

definition get_fields :: "'c heap \<Rightarrow> addr \<Rightarrow> SelectField list option" where
  "get_fields h this = do { obj \<leftarrow> getQuery h this; getFieldArray h (fields_ref obj) }"

definition get_where :: "'c heap \<Rightarrow> addr \<Rightarrow> 'c list option" where
  "get_where h this = do { obj \<leftarrow> getQuery h this; getConditionArray h (where_ref obj) }"

definition get_having :: "'c heap \<Rightarrow> addr \<Rightarrow> 'c list option" where
  "get_having h this = do { obj \<leftarrow> getQuery h this; getConditionArray h (having_ref obj) }"

definition get_limit :: "'c heap \<Rightarrow> addr \<Rightarrow> number option option" where
  "get_limit h this = do { obj \<leftarrow> getQuery h this; Some (limit_field obj) }"

definition get_offset :: "'c heap \<Rightarrow> addr \<Rightarrow> number option option" where
  "get_offset h this = do { obj \<leftarrow> getQuery h this; Some (offset_field obj) }"

definition get_orderBy :: "'c heap \<Rightarrow> addr \<Rightarrow> Order list option" where
  "get_orderBy h this = do { obj \<leftarrow> getQuery h this; getOrderArray h (orderBy_ref obj) }"

definition get_groupBy :: "'c heap \<Rightarrow> addr \<Rightarrow> string list option" where
  "get_groupBy h this = do { obj \<leftarrow> getQuery h this; getStringArray h (groupBy_ref obj) }"

definition get_unionQueries :: "'c heap \<Rightarrow> addr \<Rightarrow> (addr \<times> UnionType) list option" where
  "get_unionQueries h this = do { obj \<leftarrow> getQuery h this; getUnionArray h (unionQueries_ref obj) }"

text \<open>An assignment to a field of a query object: \<^verbatim>\<open>clone._tables = ...\<close>.\<close>

definition update_query :: "addr \<Rightarrow> (QueryObject \<Rightarrow> QueryObject) \<Rightarrow> 'c heap \<Rightarrow> 'c heap option" where
  "update_query a f h = do { obj \<leftarrow> getQuery h a; Some (h[a := SelectQueryObject (f obj)]) }"

text \<open>\<^verbatim>\<open>clone._joins.push(x)\<close>, \<^verbatim>\<open>clone._fields.push(...xs)\<close>, ...: the array cell changes in place.\<close>

definition push_joins :: "addr \<Rightarrow> addr list \<Rightarrow> 'c heap \<Rightarrow> 'c heap option" where
  "push_joins this xs h = do {
     obj \<leftarrow> getQuery h this;
     old \<leftarrow> getJoinArray h (joins_ref obj);
     Some (h[joins_ref obj := JoinArray (old @ xs)]) }"

definition push_fields :: "addr \<Rightarrow> SelectField list \<Rightarrow> 'c heap \<Rightarrow> 'c heap option" where
  "push_fields this xs h = do {
     obj \<leftarrow> getQuery h this;
     old \<leftarrow> getFieldArray h (fields_ref obj);
     Some (h[fields_ref obj := FieldArray (old @ xs)]) }"

definition push_where :: "addr \<Rightarrow> 'c list \<Rightarrow> 'c heap \<Rightarrow> 'c heap option" where
  "push_where this xs h = do {
     obj \<leftarrow> getQuery h this;
     old \<leftarrow> getConditionArray h (where_ref obj);
     Some (h[where_ref obj := ConditionArray (old @ xs)]) }"

definition push_having :: "addr \<Rightarrow> 'c list \<Rightarrow> 'c heap \<Rightarrow> 'c heap option" where
  "push_having this xs h = do {
     obj \<leftarrow> getQuery h this;
     old \<leftarrow> getConditionArray h (having_ref obj);
     Some (h[having_ref obj := ConditionArray (old @ xs)]) }"

definition push_orderBy :: "addr \<Rightarrow> Order list \<Rightarrow> 'c heap \<Rightarrow> 'c heap option" where
  "push_orderBy this xs h = do {
     obj \<leftarrow> getQuery h this;
     old \<leftarrow> getOrderArray h (orderBy_ref obj);
     Some (h[orderBy_ref obj := OrderArray (old @ xs)]) }"

definition push_groupBy :: "addr \<Rightarrow> string list \<Rightarrow> 'c heap \<Rightarrow> 'c heap option" where
  "push_groupBy this xs h = do {
     obj \<leftarrow> getQuery h this;
     old \<leftarrow> getStringArray h (groupBy_ref obj);
     Some (h[groupBy_ref obj := StringArray (old @ xs)]) }"

definition push_unionQueries :: "addr \<Rightarrow> (addr \<times> UnionType) list \<Rightarrow> 'c heap \<Rightarrow> 'c heap option" where
  "push_unionQueries this xs h = do {
     obj \<leftarrow> getQuery h this;
     old \<leftarrow> getUnionArray h (unionQueries_ref obj);
     Some (h[unionQueries_ref obj := UnionArray (old @ xs)]) }"

text \<open>\<^verbatim>\<open>xs.map(f)\<close> with a callback that allocates.\<close>

fun mapH :: "('c heap \<Rightarrow> 'a \<Rightarrow> ('b \<times> 'c heap) option) \<Rightarrow> 'c heap \<Rightarrow> 'a list \<Rightarrow> ('b list \<times> 'c heap) option" where
  "mapH f h [] = Some ([], h)"
| "mapH f h (x # xs) = do {
     (y, h) \<leftarrow> f h x;
     (ys, h) \<leftarrow> mapH f h xs;
     Some (y # ys, h) }"

section \<open>Constructors and \<open>clone\<close>\<close>

definition new_Table :: "string + addr \<Rightarrow> string option \<Rightarrow> 'c heap \<Rightarrow> addr \<times> 'c heap" where
  "new_Table source' alias' h = alloc (TableObject source' alias') h"

definition Table_clone :: "'c heap \<Rightarrow> addr \<Rightarrow> (addr \<times> 'c heap) option" where
  "Table_clone h this = do { (src, al) \<leftarrow> getTable h this; Some (new_Table src al h) }"

text \<open>The third parameter of the constructor is optional, with the default \<^verbatim>\<open>"INNER"\<close>.\<close>

definition new_Join :: "addr \<Rightarrow> 'c option \<Rightarrow> JoinType option \<Rightarrow> 'c heap \<Rightarrow> addr \<times> 'c heap" where
  "new_Join table condition type' h =
     alloc (JoinObject table condition (case type' of None \<Rightarrow> INNER | Some ty \<Rightarrow> ty)) h"

definition Join_clone :: "'c heap \<Rightarrow> addr \<Rightarrow> (addr \<times> 'c heap) option" where
  "Join_clone h this = do { (t, c, ty) \<leftarrow> getJoin h this; Some (new_Join t c (Some ty) h) }"

text \<open>
  \<^verbatim>\<open>new SelectQuery()\<close>: the field initialisers of the three classes, base class first,
  each with an array of its own.
\<close>

definition new_SelectQuery :: "'c heap \<Rightarrow> addr \<times> 'c heap" where
  "new_SelectQuery h =
     (let (ts, h) = alloc (TableArray []) h;
          (js, h) = alloc (JoinArray []) h;
          (fs, h) = alloc (FieldArray []) h;
          (ws, h) = alloc (ConditionArray []) h;
          (hs, h) = alloc (ConditionArray []) h;
          (obs, h) = alloc (OrderArray []) h;
          (gbs, h) = alloc (StringArray []) h;
          (us, h) = alloc (UnionArray []) h
      in alloc (SelectQueryObject \<lparr>tables_ref = ts, joins_ref = js, fields_ref = fs,
                  where_ref = ws, having_ref = hs, limit_field = None, offset_field = None,
                  orderBy_ref = obs, groupBy_ref = gbs, unionQueries_ref = us\<rparr>) h)"

text \<open>
  \<^verbatim>\<open>clone\<close> of the three classes. Every query object is a \<^verbatim>\<open>SelectQuery\<close>, so
  \<^verbatim>\<open>new (this.constructor as any)()\<close> is \<open>new_SelectQuery\<close> and \<^verbatim>\<open>this.clone()\<close> is
  \<open>SelectQuery_clone\<close>. The array that \<^verbatim>\<open>map\<close> returns and the copy that the spread
  makes of it are one cell. \<^verbatim>\<open>SelectQuery.clone\<close> calls itself on the queries of the
  unions; the first argument bounds the depth of these calls.
\<close>

definition QueryBase_clone :: "'c heap \<Rightarrow> addr \<Rightarrow> (addr \<times> 'c heap) option" where
  "QueryBase_clone h this = do {
     let (clone, h) = new_SelectQuery h;
     ts \<leftarrow> get_tables h this;
     (ts', h) \<leftarrow> mapH Table_clone h ts;
     let (a, h) = alloc (TableArray ts') h;
     h \<leftarrow> update_query clone (\<lambda>obj. obj\<lparr>tables_ref := a\<rparr>) h;
     js \<leftarrow> get_joins h this;
     (js', h) \<leftarrow> mapH Join_clone h js;
     let (a, h) = alloc (JoinArray js') h;
     h \<leftarrow> update_query clone (\<lambda>obj. obj\<lparr>joins_ref := a\<rparr>) h;
     Some (clone, h) }"

definition SelectBaseQuery_clone :: "'c heap \<Rightarrow> addr \<Rightarrow> (addr \<times> 'c heap) option" where
  "SelectBaseQuery_clone h this = do {
     (clone, h) \<leftarrow> QueryBase_clone h this;
     fs \<leftarrow> get_fields h this;
     let (a, h) = alloc (FieldArray fs) h;
     h \<leftarrow> update_query clone (\<lambda>obj. obj\<lparr>fields_ref := a\<rparr>) h;
     Some (clone, h) }"

fun SelectQuery_clone :: "nat \<Rightarrow> 'c heap \<Rightarrow> addr \<Rightarrow> (addr \<times> 'c heap) option" where
  "SelectQuery_clone 0 h this = None"
| "SelectQuery_clone (Suc n) h this = do {
     (clone, h) \<leftarrow> SelectBaseQuery_clone h this;
     ws \<leftarrow> get_where h this;
     let (a, h) = alloc (ConditionArray ws) h;
     h \<leftarrow> update_query clone (\<lambda>obj. obj\<lparr>where_ref := a\<rparr>) h;
     hs \<leftarrow> get_having h this;
     let (a, h) = alloc (ConditionArray hs) h;
     h \<leftarrow> update_query clone (\<lambda>obj. obj\<lparr>having_ref := a\<rparr>) h;
     lmt \<leftarrow> get_limit h this;
     h \<leftarrow> update_query clone (\<lambda>obj. obj\<lparr>limit_field := lmt\<rparr>) h;
     off \<leftarrow> get_offset h this;
     h \<leftarrow> update_query clone (\<lambda>obj. obj\<lparr>offset_field := off\<rparr>) h;
     obs \<leftarrow> get_orderBy h this;
     let (a, h) = alloc (OrderArray obs) h;
     h \<leftarrow> update_query clone (\<lambda>obj. obj\<lparr>orderBy_ref := a\<rparr>) h;
     gbs \<leftarrow> get_groupBy h this;
     let (a, h) = alloc (StringArray gbs) h;
     h \<leftarrow> update_query clone (\<lambda>obj. obj\<lparr>groupBy_ref := a\<rparr>) h;
     us \<leftarrow> get_unionQueries h this;
     (us', h) \<leftarrow> mapH (\<lambda>h u. do {
                    (c, h) \<leftarrow> SelectQuery_clone n h (fst u);
                    Some ((c, snd u), h) }) h us;
     let (a, h) = alloc (UnionArray us') h;
     h \<leftarrow> update_query clone (\<lambda>obj. obj\<lparr>unionQueries_ref := a\<rparr>) h;
     Some (clone, h) }"

section \<open>The builder methods\<close>

text \<open>
  Each method takes the bound on the depth of \<open>clone\<close>, the store and the receiver,
  and returns the address of the new query and the new store. An optional parameter
  with a default is an \<open>option\<close>.
\<close>

definition QueryBase_from ::
  "nat \<Rightarrow> 'c heap \<Rightarrow> addr \<Rightarrow> string + addr \<Rightarrow> string option \<Rightarrow> (addr \<times> 'c heap) option" where
  "QueryBase_from n h this table alias' = do {
     (clone, h) \<leftarrow> SelectQuery_clone n h this;
     (case table of
        Inr query' \<Rightarrow> do {
          (q, h) \<leftarrow> SelectQuery_clone n h query';
          let (t, h) = new_Table (Inr q) alias' h;
          let (a, h) = alloc (TableArray [t]) h;
          h \<leftarrow> update_query clone (\<lambda>obj. obj\<lparr>tables_ref := a\<rparr>) h;
          Some (clone, h) }
      | Inl name' \<Rightarrow> do {
          let (t, h) = new_Table (Inl name') alias' h;
          let (a, h) = alloc (TableArray [t]) h;
          h \<leftarrow> update_query clone (\<lambda>obj. obj\<lparr>tables_ref := a\<rparr>) h;
          Some (clone, h) }) }"

definition QueryBase_join ::
  "nat \<Rightarrow> 'c heap \<Rightarrow> addr \<Rightarrow> addr \<Rightarrow> 'c option \<Rightarrow> JoinType option \<Rightarrow> (addr \<times> 'c heap) option" where
  "QueryBase_join n h this table condition type' = do {
     (clone, h) \<leftarrow> SelectQuery_clone n h this;
     let (j, h) = new_Join table condition (Some (case type' of None \<Rightarrow> INNER | Some ty \<Rightarrow> ty)) h;
     h \<leftarrow> push_joins clone [j] h;
     Some (clone, h) }"

definition QueryBase_innerJoin :: "nat \<Rightarrow> 'c heap \<Rightarrow> addr \<Rightarrow> addr \<Rightarrow> 'c \<Rightarrow> (addr \<times> 'c heap) option" where
  "QueryBase_innerJoin n h this table condition = QueryBase_join n h this table (Some condition) (Some INNER)"

definition QueryBase_leftJoin :: "nat \<Rightarrow> 'c heap \<Rightarrow> addr \<Rightarrow> addr \<Rightarrow> 'c \<Rightarrow> (addr \<times> 'c heap) option" where
  "QueryBase_leftJoin n h this table condition = QueryBase_join n h this table (Some condition) (Some LEFT)"

definition QueryBase_rightJoin :: "nat \<Rightarrow> 'c heap \<Rightarrow> addr \<Rightarrow> addr \<Rightarrow> 'c \<Rightarrow> (addr \<times> 'c heap) option" where
  "QueryBase_rightJoin n h this table condition = QueryBase_join n h this table (Some condition) (Some RIGHT)"

definition QueryBase_fullJoin :: "nat \<Rightarrow> 'c heap \<Rightarrow> addr \<Rightarrow> addr \<Rightarrow> 'c \<Rightarrow> (addr \<times> 'c heap) option" where
  "QueryBase_fullJoin n h this table condition = QueryBase_join n h this table (Some condition) (Some FULL)"

definition SelectBaseQuery_addFields ::
  "nat \<Rightarrow> 'c heap \<Rightarrow> addr \<Rightarrow> SelectField list \<Rightarrow> (addr \<times> 'c heap) option" where
  "SelectBaseQuery_addFields n h this fields' = do {
     (clone, h) \<leftarrow> SelectQuery_clone n h this;
     h \<leftarrow> push_fields clone fields' h;
     Some (clone, h) }"

definition SelectBaseQuery_field ::
  "nat \<Rightarrow> 'c heap \<Rightarrow> addr \<Rightarrow> string \<Rightarrow> string option \<Rightarrow> (addr \<times> 'c heap) option" where
  "SelectBaseQuery_field n h this name' alias' =
     SelectBaseQuery_addFields n h this [SelectField name' alias']"

definition SelectBaseQuery_addField ::
  "nat \<Rightarrow> 'c heap \<Rightarrow> addr \<Rightarrow> string \<Rightarrow> string option \<Rightarrow> (addr \<times> 'c heap) option" where
  "SelectBaseQuery_addField n h this name' alias' =
     SelectBaseQuery_addFields n h this [SelectField name' alias']"

definition SelectBaseQuery_fields ::
  "nat \<Rightarrow> 'c heap \<Rightarrow> addr \<Rightarrow> SelectField list \<Rightarrow> (addr \<times> 'c heap) option" where
  "SelectBaseQuery_fields n h this fields' = do {
     (clone, h) \<leftarrow> SelectQuery_clone n h this;
     let (a, h) = alloc (FieldArray fields') h;
     h \<leftarrow> update_query clone (\<lambda>obj. obj\<lparr>fields_ref := a\<rparr>) h;
     Some (clone, h) }"

definition SelectBaseQuery_removeFields :: "nat \<Rightarrow> 'c heap \<Rightarrow> addr \<Rightarrow> (addr \<times> 'c heap) option" where
  "SelectBaseQuery_removeFields n h this = SelectBaseQuery_fields n h this []"

definition SelectQuery_where :: "nat \<Rightarrow> 'c heap \<Rightarrow> addr \<Rightarrow> 'c \<Rightarrow> (addr \<times> 'c heap) option" where
  "SelectQuery_where n h this condition = do {
     (clone, h) \<leftarrow> SelectQuery_clone n h this;
     h \<leftarrow> push_where clone [condition] h;
     Some (clone, h) }"

definition SelectQuery_having :: "nat \<Rightarrow> 'c heap \<Rightarrow> addr \<Rightarrow> 'c \<Rightarrow> (addr \<times> 'c heap) option" where
  "SelectQuery_having n h this condition = do {
     (clone, h) \<leftarrow> SelectQuery_clone n h this;
     h \<leftarrow> push_having clone [condition] h;
     Some (clone, h) }"

definition SelectQuery_clearLimit :: "nat \<Rightarrow> 'c heap \<Rightarrow> addr \<Rightarrow> (addr \<times> 'c heap) option" where
  "SelectQuery_clearLimit n h this = do {
     (clone, h) \<leftarrow> SelectQuery_clone n h this;
     h \<leftarrow> update_query clone (\<lambda>obj. obj\<lparr>limit_field := None\<rparr>) h;
     Some (clone, h) }"

definition SelectQuery_limit :: "nat \<Rightarrow> 'c heap \<Rightarrow> addr \<Rightarrow> number \<Rightarrow> (addr \<times> 'c heap) option" where
  "SelectQuery_limit n h this limit' = do {
     (clone, h) \<leftarrow> SelectQuery_clone n h this;
     h \<leftarrow> update_query clone (\<lambda>obj. obj\<lparr>limit_field := Some limit'\<rparr>) h;
     Some (clone, h) }"

definition SelectQuery_clearOffset :: "nat \<Rightarrow> 'c heap \<Rightarrow> addr \<Rightarrow> (addr \<times> 'c heap) option" where
  "SelectQuery_clearOffset n h this = do {
     (clone, h) \<leftarrow> SelectQuery_clone n h this;
     h \<leftarrow> update_query clone (\<lambda>obj. obj\<lparr>offset_field := None\<rparr>) h;
     Some (clone, h) }"

definition SelectQuery_offset :: "nat \<Rightarrow> 'c heap \<Rightarrow> addr \<Rightarrow> number \<Rightarrow> (addr \<times> 'c heap) option" where
  "SelectQuery_offset n h this offset' = do {
     (clone, h) \<leftarrow> SelectQuery_clone n h this;
     h \<leftarrow> update_query clone (\<lambda>obj. obj\<lparr>offset_field := Some offset'\<rparr>) h;
     Some (clone, h) }"

definition SelectQuery_orderBy ::
  "nat \<Rightarrow> 'c heap \<Rightarrow> addr \<Rightarrow> string \<Rightarrow> Direction option \<Rightarrow> (addr \<times> 'c heap) option" where
  "SelectQuery_orderBy n h this field' direction' = do {
     (clone, h) \<leftarrow> SelectQuery_clone n h this;
     h \<leftarrow> push_orderBy clone [Order field' (case direction' of None \<Rightarrow> ASC | Some d \<Rightarrow> d)] h;
     Some (clone, h) }"

definition SelectQuery_removeOrderBy :: "nat \<Rightarrow> 'c heap \<Rightarrow> addr \<Rightarrow> (addr \<times> 'c heap) option" where
  "SelectQuery_removeOrderBy n h this = do {
     (clone, h) \<leftarrow> SelectQuery_clone n h this;
     let (a, h) = alloc (OrderArray []) h;
     h \<leftarrow> update_query clone (\<lambda>obj. obj\<lparr>orderBy_ref := a\<rparr>) h;
     Some (clone, h) }"

definition SelectQuery_groupBy :: "nat \<Rightarrow> 'c heap \<Rightarrow> addr \<Rightarrow> string list \<Rightarrow> (addr \<times> 'c heap) option" where
  "SelectQuery_groupBy n h this field' = do {
     (clone, h) \<leftarrow> SelectQuery_clone n h this;
     h \<leftarrow> push_groupBy clone field' h;
     Some (clone, h) }"

definition SelectQuery_removeGroupBy :: "nat \<Rightarrow> 'c heap \<Rightarrow> addr \<Rightarrow> (addr \<times> 'c heap) option" where
  "SelectQuery_removeGroupBy n h this = do {
     (clone, h) \<leftarrow> SelectQuery_clone n h this;
     let (a, h) = alloc (StringArray []) h;
     h \<leftarrow> update_query clone (\<lambda>obj. obj\<lparr>groupBy_ref := a\<rparr>) h;
     Some (clone, h) }"

definition SelectQuery_union ::
  "nat \<Rightarrow> 'c heap \<Rightarrow> addr \<Rightarrow> addr \<Rightarrow> UnionType option \<Rightarrow> (addr \<times> 'c heap) option" where
  "SelectQuery_union n h this query' type' = do {
     (clone, h) \<leftarrow> SelectQuery_clone n h this;
     h \<leftarrow> push_unionQueries clone [(query', case type' of None \<Rightarrow> UNION | Some ty \<Rightarrow> ty)] h;
     Some (clone, h) }"

text \<open>The factory: \<^verbatim>\<open>Query.table\<close> and \<^verbatim>\<open>Query.select\<close>.\<close>

definition Query_table :: "string \<Rightarrow> string option \<Rightarrow> 'c heap \<Rightarrow> addr \<times> 'c heap" where
  "Query_table name' alias' h = new_Table (Inl name') alias' h"

definition Query_select :: "'c heap \<Rightarrow> addr \<times> 'c heap" where
  "Query_select h = new_SelectQuery h"

section \<open>The value of an object\<close>

text \<open>
  The node that a query object stands for: its fields with every array and object read
  out of the store. The methods that only read (\<^verbatim>\<open>toSQL\<close>, \<^verbatim>\<open>toJSON\<close>, the getter
  \<^verbatim>\<open>table\<close>) are functions of this value. The first argument bounds the depth of the
  nesting; \<open>None\<close> is a deeper nesting or a store that does not fit the types.
\<close>

definition read_Table :: "(addr \<Rightarrow> 'c SelectQuery option) \<Rightarrow> 'c heap \<Rightarrow> addr \<Rightarrow> 'c Table option" where
  "read_Table rq h a = do {
     (src, al) \<leftarrow> getTable h a;
     (case src of
        Inl n \<Rightarrow> Some (Table (Name n) al)
      | Inr q \<Rightarrow> do { v \<leftarrow> rq q; Some (Table (Sub v) al) }) }"

definition read_Join :: "(addr \<Rightarrow> 'c SelectQuery option) \<Rightarrow> 'c heap \<Rightarrow> addr \<Rightarrow> 'c Join option" where
  "read_Join rq h a = do {
     (t, c, ty) \<leftarrow> getJoin h a;
     tv \<leftarrow> read_Table rq h t;
     Some (Join tv c ty) }"

definition read_Union :: "(addr \<Rightarrow> 'c SelectQuery option) \<Rightarrow> addr \<times> UnionType \<Rightarrow> 'c UnionQuery option" where
  "read_Union rq u = do { v \<leftarrow> rq (fst u); Some (UnionQuery v (snd u)) }"

fun read_SelectQuery :: "nat \<Rightarrow> 'c heap \<Rightarrow> addr \<Rightarrow> 'c SelectQuery option" where
  "read_SelectQuery 0 h a = None"
| "read_SelectQuery (Suc n) h a = do {
     obj \<leftarrow> getQuery h a;
     ts \<leftarrow> getTableArray h (tables_ref obj);
     tvs \<leftarrow> those (map (read_Table (read_SelectQuery n h) h) ts);
     js \<leftarrow> getJoinArray h (joins_ref obj);
     jvs \<leftarrow> those (map (read_Join (read_SelectQuery n h) h) js);
     fs \<leftarrow> getFieldArray h (fields_ref obj);
     ws \<leftarrow> getConditionArray h (where_ref obj);
     hs \<leftarrow> getConditionArray h (having_ref obj);
     obs \<leftarrow> getOrderArray h (orderBy_ref obj);
     gbs \<leftarrow> getStringArray h (groupBy_ref obj);
     us \<leftarrow> getUnionArray h (unionQueries_ref obj);
     uvs \<leftarrow> those (map (read_Union (read_SelectQuery n h)) us);
     Some (SelectQuery tvs jvs fs ws hs (limit_field obj) (offset_field obj) obs gbs uvs) }"

text \<open>\<^verbatim>\<open>q.toSQL(flavor)\<close> for the query object at \<open>a\<close>.\<close>

definition toSQL_at ::
  "nat \<Rightarrow> (number \<Rightarrow> string) \<Rightarrow> (ISQLFlavor \<Rightarrow> 'c \<Rightarrow> string) \<Rightarrow> ISQLFlavor \<Rightarrow> 'c heap \<Rightarrow> addr \<Rightarrow> string option" where
  "toSQL_at n num cond flavor h a = map_option (SelectQuery_toSQL num cond flavor) (read_SelectQuery n h a)"

section \<open>The statement of the specification\<close>

text \<open>
  The specification gives the text of a statement as
  \<^verbatim>\<open>SELECT <fields|*> FROM <tables> [<joins>] [WHERE <and-joined conditions>] [GROUP BY ...]\<close>
  \<^verbatim>\<open>[HAVING <and-joined conditions>] [ORDER BY ...] [LIMIT n] [OFFSET n]\<close>, wrapped once for
  every union pair. The definitions of this section follow these words and not the code:
  a clause over a list is there when the list is not empty, and the clause of a limit
  or of an offset is there when the value is present, whatever the value.
  \<open>separated\<close> writes the elements of a list with a separator between two neighbours.
\<close>

fun separated :: "string \<Rightarrow> string list \<Rightarrow> string" where
  "separated sep [] = []"
| "separated sep (x # xs) = x @ concat (map (\<lambda>y. sep @ y) xs)"

definition spec_select_clause :: "ISQLFlavor \<Rightarrow> 'c SelectQuery \<Rightarrow> string" where
  "spec_select_clause flavor q =
     ''SELECT '' @
     (if fields_of q = [] then ''*'' else separated '', '' (map (field_toSQL flavor) (fields_of q))) @
     '' ''"

definition spec_from_clause ::
  "(number \<Rightarrow> string) \<Rightarrow> (ISQLFlavor \<Rightarrow> 'c \<Rightarrow> string) \<Rightarrow> ISQLFlavor \<Rightarrow> 'c SelectQuery \<Rightarrow> string" where
  "spec_from_clause num cond flavor q =
     (if tables_of q = [] then ''''
      else ''FROM '' @ separated '','' (map (Table_toSQL num cond flavor) (tables_of q)))"

definition spec_join_clause ::
  "(number \<Rightarrow> string) \<Rightarrow> (ISQLFlavor \<Rightarrow> 'c \<Rightarrow> string) \<Rightarrow> ISQLFlavor \<Rightarrow> 'c SelectQuery \<Rightarrow> string" where
  "spec_join_clause num cond flavor q =
     (if joins_of q = [] then ''''
      else '' '' @ separated '' '' (map (Join_toSQL num cond flavor) (joins_of q)))"

definition spec_where_clause :: "(ISQLFlavor \<Rightarrow> 'c \<Rightarrow> string) \<Rightarrow> ISQLFlavor \<Rightarrow> 'c SelectQuery \<Rightarrow> string" where
  "spec_where_clause cond flavor q =
     (if where_of q = [] then ''''
      else '' WHERE '' @ separated '' AND '' (map (cond flavor) (where_of q)))"

definition spec_group_by_clause :: "ISQLFlavor \<Rightarrow> 'c SelectQuery \<Rightarrow> string" where
  "spec_group_by_clause flavor q =
     (if groupBy_of q = [] then ''''
      else '' GROUP BY '' @ separated '', '' (map (escapeColumn flavor) (groupBy_of q)))"

definition spec_having_clause :: "(ISQLFlavor \<Rightarrow> 'c \<Rightarrow> string) \<Rightarrow> ISQLFlavor \<Rightarrow> 'c SelectQuery \<Rightarrow> string" where
  "spec_having_clause cond flavor q =
     (if having_of q = [] then ''''
      else '' HAVING '' @ separated '' AND '' (map (cond flavor) (having_of q)))"

definition spec_order_by_clause :: "ISQLFlavor \<Rightarrow> 'c SelectQuery \<Rightarrow> string" where
  "spec_order_by_clause flavor q =
     (if orderBy_of q = [] then ''''
      else '' ORDER BY '' @ separated '', '' (map (order_toSQL flavor) (orderBy_of q)))"

definition spec_limit_clause :: "(number \<Rightarrow> string) \<Rightarrow> 'c SelectQuery \<Rightarrow> string" where
  "spec_limit_clause num q =
     (case limit_of q of None \<Rightarrow> '''' | Some k \<Rightarrow> '' LIMIT '' @ num k)"

definition spec_offset_clause :: "(number \<Rightarrow> string) \<Rightarrow> 'c SelectQuery \<Rightarrow> string" where
  "spec_offset_clause num q =
     (case offset_of q of None \<Rightarrow> '''' | Some k \<Rightarrow> '' OFFSET '' @ num k)"

definition spec_statement ::
  "(number \<Rightarrow> string) \<Rightarrow> (ISQLFlavor \<Rightarrow> 'c \<Rightarrow> string) \<Rightarrow> ISQLFlavor \<Rightarrow> 'c SelectQuery \<Rightarrow> string" where
  "spec_statement num cond flavor q =
     spec_select_clause flavor q @ spec_from_clause num cond flavor q @
     spec_join_clause num cond flavor q @ spec_where_clause cond flavor q @
     spec_group_by_clause flavor q @ spec_having_clause cond flavor q @
     spec_order_by_clause flavor q @ spec_limit_clause num q @ spec_offset_clause num q"

text \<open>
  One union pair: the statement built so far in parentheses, the word of the union and
  the text of the other query in parentheses.
\<close>

definition spec_union_wrap ::
  "(number \<Rightarrow> string) \<Rightarrow> (ISQLFlavor \<Rightarrow> 'c \<Rightarrow> string) \<Rightarrow> ISQLFlavor \<Rightarrow> string \<Rightarrow> 'c UnionQuery \<Rightarrow> string" where
  "spec_union_wrap num cond flavor sql u =
     ''('' @ sql @ '') '' @ UnionType_text (union_type u) @
     '' ('' @ SelectQuery_toSQL num cond flavor (query u) @ '')''"

section \<open>The cells of a clone\<close>

text \<open>
  The addresses \<open>a, a + 1, ..., a + k - 1\<close>: what \<open>mapH\<close> returns when every callback
  allocates one cell.
\<close>

definition addrs :: "nat \<Rightarrow> nat \<Rightarrow> nat list" where
  "addrs a k = [a ..< a + k]"

text \<open>
  The cells \<open>X\<close> lie in the store \<open>H\<close> from address \<open>L\<close> on.
\<close>

definition region_at :: "nat \<Rightarrow> 'a list \<Rightarrow> 'a list \<Rightarrow> bool" where
  "region_at L X H \<longleftrightarrow> take (length X) (drop L H) = X"

text \<open>
  The cell of a table, or of a join, whose value in the store \<open>B\<close> is \<open>tv\<close>, or \<open>jv\<close>: a nested
  query is read with the fuel \<open>n\<close>.
\<close>

definition cell_reads_Table :: "'c heap \<Rightarrow> nat \<Rightarrow> 'c cell \<Rightarrow> 'c Table \<Rightarrow> bool" where
  "cell_reads_Table B n c tv \<longleftrightarrow>
     ((\<exists>nm al. c = TableObject (Inl nm) al \<and> tv = Table (Name nm) al) \<or>
      (\<exists>p al pv. c = TableObject (Inr p) al \<and> read_SelectQuery n B p = Some pv \<and>
          tv = Table (Sub pv) al))"

definition cell_reads_Join :: "'c heap \<Rightarrow> nat \<Rightarrow> 'c cell \<Rightarrow> 'c Join \<Rightarrow> bool" where
  "cell_reads_Join B n c jv \<longleftrightarrow>
     (\<exists>t cnd ty tv. c = JoinObject t cnd ty \<and>
        read_Table (read_SelectQuery n B) B t = Some tv \<and> jv = Join tv cnd ty)"

text \<open>
  The query at \<open>c\<close> has the value \<open>v\<close> in every store that extends \<open>B\<close> and holds the cells
  \<open>X\<close> from \<open>L\<close> on; the same for the pairs of a union array.
\<close>

definition reads_as :: "'c heap \<Rightarrow> nat \<Rightarrow> 'c cell list \<Rightarrow> nat \<Rightarrow> addr \<Rightarrow> 'c SelectQuery \<Rightarrow> bool" where
  "reads_as B L X n c v \<longleftrightarrow>
     (\<forall>H. prefix B H \<longrightarrow> region_at L X H \<longrightarrow> read_SelectQuery n H c = Some v)"

definition unions_read_as ::
  "'c heap \<Rightarrow> nat \<Rightarrow> 'c cell list \<Rightarrow> nat \<Rightarrow> (addr \<times> UnionType) list \<Rightarrow> 'c UnionQuery list \<Rightarrow> bool" where
  "unions_read_as B L U n us uvs \<longleftrightarrow>
     (\<forall>H. prefix B H \<longrightarrow> region_at L U H \<longrightarrow>
        those (map (read_Union (read_SelectQuery n H)) us) = Some uvs)"

text \<open>
  The cells that \<open>SelectQuery_clone\<close> appends at the address \<open>L\<close> for a query of value \<open>v\<close>:
  the eight arrays and the object of the constructor, the cloned tables \<open>Tc\<close> and their
  array, the cloned joins \<open>Jc\<close> and their array, the five copied arrays, the cells \<open>U\<close> of
  the cloned union queries and the array \<open>us'\<close> of the pairs. The new object is at
  \<open>L + 8\<close>.
\<close>

definition clone_cells ::
  "nat \<Rightarrow> 'c cell list \<Rightarrow> 'c cell list \<Rightarrow> 'c SelectQuery \<Rightarrow> 'c cell list \<Rightarrow> (addr \<times> UnionType) list \<Rightarrow> 'c cell list" where
  "clone_cells L Tc Jc v U us' =
     [TableArray [], JoinArray [], FieldArray [], ConditionArray [], ConditionArray [],
      OrderArray [], StringArray [], UnionArray [],
      SelectQueryObject \<lparr>tables_ref = L + 9 + length Tc,
        joins_ref = L + 10 + length Tc + length Jc,
        fields_ref = L + 11 + length Tc + length Jc,
        where_ref = L + 12 + length Tc + length Jc,
        having_ref = L + 13 + length Tc + length Jc,
        limit_field = limit_of v, offset_field = offset_of v,
        orderBy_ref = L + 14 + length Tc + length Jc,
        groupBy_ref = L + 15 + length Tc + length Jc,
        unionQueries_ref = L + 16 + length Tc + length Jc + length U\<rparr>]
     @ Tc @ [TableArray (addrs (L + 9) (length Tc))]
     @ Jc @ [JoinArray (addrs (L + 10 + length Tc) (length Jc))]
     @ [FieldArray (fields_of v), ConditionArray (where_of v), ConditionArray (having_of v),
        OrderArray (orderBy_of v), StringArray (groupBy_of v)]
     @ U @ [UnionArray us']"

definition cloned :: "'c heap \<Rightarrow> nat \<Rightarrow> nat \<Rightarrow> 'c SelectQuery \<Rightarrow> 'c cell list \<Rightarrow> bool" where
  "cloned B L n v X \<longleftrightarrow>
     (\<exists>Tc Jc U us'. X = clone_cells L Tc Jc v U us' \<and>
        list_all2 (cell_reads_Table B n) Tc (tables_of v) \<and>
        list_all2 (cell_reads_Join B n) Jc (joins_of v) \<and>
        unions_read_as B (L + 16 + length Tc + length Jc) U n us' (unionQueries_of v))"

text \<open>
  The value of a query with one field replaced.
\<close>

definition with_tables :: "'c Table list \<Rightarrow> 'c SelectQuery \<Rightarrow> 'c SelectQuery" where
  "with_tables x v = SelectQuery x (joins_of v) (fields_of v) (where_of v) (having_of v)
     (limit_of v) (offset_of v) (orderBy_of v) (groupBy_of v) (unionQueries_of v)"

definition with_joins :: "'c Join list \<Rightarrow> 'c SelectQuery \<Rightarrow> 'c SelectQuery" where
  "with_joins x v = SelectQuery (tables_of v) x (fields_of v) (where_of v) (having_of v)
     (limit_of v) (offset_of v) (orderBy_of v) (groupBy_of v) (unionQueries_of v)"

definition with_fields :: "SelectField list \<Rightarrow> 'c SelectQuery \<Rightarrow> 'c SelectQuery" where
  "with_fields x v = SelectQuery (tables_of v) (joins_of v) x (where_of v) (having_of v)
     (limit_of v) (offset_of v) (orderBy_of v) (groupBy_of v) (unionQueries_of v)"

definition with_where :: "'c list \<Rightarrow> 'c SelectQuery \<Rightarrow> 'c SelectQuery" where
  "with_where x v = SelectQuery (tables_of v) (joins_of v) (fields_of v) x (having_of v)
     (limit_of v) (offset_of v) (orderBy_of v) (groupBy_of v) (unionQueries_of v)"

definition with_having :: "'c list \<Rightarrow> 'c SelectQuery \<Rightarrow> 'c SelectQuery" where
  "with_having x v = SelectQuery (tables_of v) (joins_of v) (fields_of v) (where_of v) x
     (limit_of v) (offset_of v) (orderBy_of v) (groupBy_of v) (unionQueries_of v)"

definition with_limit :: "number option \<Rightarrow> 'c SelectQuery \<Rightarrow> 'c SelectQuery" where
  "with_limit x v = SelectQuery (tables_of v) (joins_of v) (fields_of v) (where_of v) (having_of v)
     x (offset_of v) (orderBy_of v) (groupBy_of v) (unionQueries_of v)"

definition with_offset :: "number option \<Rightarrow> 'c SelectQuery \<Rightarrow> 'c SelectQuery" where
  "with_offset x v = SelectQuery (tables_of v) (joins_of v) (fields_of v) (where_of v) (having_of v)
     (limit_of v) x (orderBy_of v) (groupBy_of v) (unionQueries_of v)"

definition with_orderBy :: "Order list \<Rightarrow> 'c SelectQuery \<Rightarrow> 'c SelectQuery" where
  "with_orderBy x v = SelectQuery (tables_of v) (joins_of v) (fields_of v) (where_of v) (having_of v)
     (limit_of v) (offset_of v) x (groupBy_of v) (unionQueries_of v)"

definition with_groupBy :: "string list \<Rightarrow> 'c SelectQuery \<Rightarrow> 'c SelectQuery" where
  "with_groupBy x v = SelectQuery (tables_of v) (joins_of v) (fields_of v) (where_of v) (having_of v)
     (limit_of v) (offset_of v) (orderBy_of v) x (unionQueries_of v)"

definition with_unionQueries :: "'c UnionQuery list \<Rightarrow> 'c SelectQuery \<Rightarrow> 'c SelectQuery" where
  "with_unionQueries x v = SelectQuery (tables_of v) (joins_of v) (fields_of v) (where_of v) (having_of v)
     (limit_of v) (offset_of v) (orderBy_of v) (groupBy_of v) x"

text \<open>
  The object of a clone at \<open>L\<close> with \<open>t\<close> table cells, \<open>j\<close> join cells and \<open>u\<close> union cells.
\<close>

definition clone_object :: "nat \<Rightarrow> nat \<Rightarrow> nat \<Rightarrow> nat \<Rightarrow> 'c SelectQuery \<Rightarrow> QueryObject" where
  "clone_object L t j u v = \<lparr>tables_ref = L + 9 + t,
        joins_ref = L + 10 + t + j,
        fields_ref = L + 11 + t + j,
        where_ref = L + 12 + t + j,
        having_ref = L + 13 + t + j,
        limit_field = limit_of v, offset_field = offset_of v,
        orderBy_ref = L + 14 + t + j,
        groupBy_ref = L + 15 + t + j,
        unionQueries_ref = L + 16 + t + j + u\<rparr>"

text \<open>
  What a serialization round trip makes of a value, when the round trip of the
  conditions maps a condition \<open>c\<close> to \<open>g c\<close>.
\<close>

fun roundtrip_Join :: "('c \<Rightarrow> 'c) \<Rightarrow> 'c Join \<Rightarrow> 'c Join" where
  "roundtrip_Join g (Join t c ty) = Join t (map_option g c) ty"

function roundtrip_SelectQuery :: "('c \<Rightarrow> 'c) \<Rightarrow> 'c SelectQuery \<Rightarrow> 'c SelectQuery" where
  "roundtrip_SelectQuery g (SelectQuery ts js fs ws hs lmt off obs gbs us) =
     SelectQuery ts (map (roundtrip_Join g) js) fs (map g ws) (map g hs) lmt off obs gbs
       (map (\<lambda>u. UnionQuery (roundtrip_SelectQuery g (query u)) (union_type u)) us)"
  by pat_completeness auto

termination
  apply (relation "measure (\<lambda>(g, q). size q)")
   apply simp
  apply (frule size_query_member, simp)
  done

section \<open>Builder calls\<close>

text \<open>A builder call: the method and its arguments.\<close>

datatype 'c call =
    CallFrom "string + addr" "string option"
  | CallJoin addr "'c option" "JoinType option"
  | CallInnerJoin addr 'c
  | CallLeftJoin addr 'c
  | CallRightJoin addr 'c
  | CallFullJoin addr 'c
  | CallField string "string option"
  | CallAddField string "string option"
  | CallAddFields "SelectField list"
  | CallRemoveFields
  | CallFields "SelectField list"
  | CallWhere 'c
  | CallHaving 'c
  | CallClearLimit
  | CallLimit number
  | CallClearOffset
  | CallOffset number
  | CallOrderBy string "Direction option"
  | CallRemoveOrderBy
  | CallGroupBy "string list"
  | CallRemoveGroupBy
  | CallUnion addr "UnionType option"

text \<open>\<open>invoke n h this m\<close> is the call \<open>m\<close> on the receiver \<open>this\<close>.\<close>

fun invoke :: "nat \<Rightarrow> 'c heap \<Rightarrow> addr \<Rightarrow> 'c call \<Rightarrow> (addr \<times> 'c heap) option" where
  "invoke n h this (CallFrom table al) = QueryBase_from n h this table al"
| "invoke n h this (CallJoin table condition ty) = QueryBase_join n h this table condition ty"
| "invoke n h this (CallInnerJoin table condition) = QueryBase_innerJoin n h this table condition"
| "invoke n h this (CallLeftJoin table condition) = QueryBase_leftJoin n h this table condition"
| "invoke n h this (CallRightJoin table condition) = QueryBase_rightJoin n h this table condition"
| "invoke n h this (CallFullJoin table condition) = QueryBase_fullJoin n h this table condition"
| "invoke n h this (CallField nm al) = SelectBaseQuery_field n h this nm al"
| "invoke n h this (CallAddField nm al) = SelectBaseQuery_addField n h this nm al"
| "invoke n h this (CallAddFields fs) = SelectBaseQuery_addFields n h this fs"
| "invoke n h this CallRemoveFields = SelectBaseQuery_removeFields n h this"
| "invoke n h this (CallFields fs) = SelectBaseQuery_fields n h this fs"
| "invoke n h this (CallWhere condition) = SelectQuery_where n h this condition"
| "invoke n h this (CallHaving condition) = SelectQuery_having n h this condition"
| "invoke n h this CallClearLimit = SelectQuery_clearLimit n h this"
| "invoke n h this (CallLimit k) = SelectQuery_limit n h this k"
| "invoke n h this CallClearOffset = SelectQuery_clearOffset n h this"
| "invoke n h this (CallOffset k) = SelectQuery_offset n h this k"
| "invoke n h this (CallOrderBy f d) = SelectQuery_orderBy n h this f d"
| "invoke n h this CallRemoveOrderBy = SelectQuery_removeOrderBy n h this"
| "invoke n h this (CallGroupBy fs) = SelectQuery_groupBy n h this fs"
| "invoke n h this CallRemoveGroupBy = SelectQuery_removeGroupBy n h this"
| "invoke n h this (CallUnion query' ty) = SelectQuery_union n h this query' ty"

text \<open>
  The arguments of a call are objects of their types: the nested query of \<open>from\<close>, the
  table of a join and the query of \<open>union\<close> can be read in the store of the call.
\<close>

fun call_ready :: "nat \<Rightarrow> 'c heap \<Rightarrow> 'c call \<Rightarrow> bool" where
  "call_ready n h (CallFrom (Inr query') al) = (read_SelectQuery n h query' \<noteq> None)"
| "call_ready n h (CallJoin table condition ty) =
     (read_Table (read_SelectQuery (n - 1) h) h table \<noteq> None)"
| "call_ready n h (CallInnerJoin table condition) =
     (read_Table (read_SelectQuery (n - 1) h) h table \<noteq> None)"
| "call_ready n h (CallLeftJoin table condition) =
     (read_Table (read_SelectQuery (n - 1) h) h table \<noteq> None)"
| "call_ready n h (CallRightJoin table condition) =
     (read_Table (read_SelectQuery (n - 1) h) h table \<noteq> None)"
| "call_ready n h (CallFullJoin table condition) =
     (read_Table (read_SelectQuery (n - 1) h) h table \<noteq> None)"
| "call_ready n h (CallUnion query' ty) = (read_SelectQuery (n - 1) h query' \<noteq> None)"
| "call_ready n h m = True"

text \<open>
  \<open>run\<close> makes the calls of a list one after the other, each with its bound and on a
  receiver of its own, which is any address: the query that an earlier call returned, or
  an older one. It returns the queries that the calls returned. \<open>admissible\<close> says that
  every call of the list is made on a query that can be read, with arguments that are
  ready, in the store in which it is made.
\<close>

fun run :: "'c heap \<Rightarrow> (nat \<times> addr \<times> 'c call) list \<Rightarrow> (addr list \<times> 'c heap) option" where
  "run h [] = Some ([], h)"
| "run h ((n, this, m) # calls) = do {
     (q, h) \<leftarrow> invoke n h this m;
     (qs, h) \<leftarrow> run h calls;
     Some (q # qs, h) }"

fun admissible :: "'c heap \<Rightarrow> (nat \<times> addr \<times> 'c call) list \<Rightarrow> bool" where
  "admissible h [] = True"
| "admissible h ((n, this, m) # calls) =
     (read_SelectQuery n h this \<noteq> None \<and> call_ready n h m \<and>
      (case invoke n h this m of None \<Rightarrow> True | Some (q, h') \<Rightarrow> admissible h' calls))"

section \<open>A store and a list of calls\<close>

text \<open>
  The store after \<^verbatim>\<open>Query.select().from("users")\<close>, with conditions that are strings:
  the query of \<^verbatim>\<open>select()\<close> is at the address 8 and the one that \<open>from\<close> returned at 17.
  The calls branch twice from the query at 17, go on from one branch, nest the query
  at 17 in the one at 8 and unite it with a branch.
\<close>

definition example_store :: "string heap" where
  "example_store =
     (case QueryBase_from 1 (snd (Query_select [])) 8 (Inl ''users'') None of
        Some (q, h) \<Rightarrow> h | None \<Rightarrow> [])"

definition example_calls :: "(nat \<times> addr \<times> string call) list" where
  "example_calls =
     [(1, 17, CallWhere ''age > 1''),
      (1, 17, CallLimit (Finite 10)),
      (1, 36, CallOrderBy ''name'' None),
      (2, 8, CallFrom (Inr 17) (Some ''u'')),
      (2, 17, CallUnion 36 None)]"

section \<open>Reading a store that grew\<close>

lemma those_map_conv:
  "those (map f xs) = Some vs \<longleftrightarrow> list_all2 (\<lambda>x v. f x = Some v) xs vs"
proof (induction xs arbitrary: vs)
  case Nil
  then show ?case by auto
next
  case (Cons x xs)
  then show ?case
    by (cases vs) (auto split: option.splits)
qed

lemma lookup_prefix: "prefix h H \<Longrightarrow> lookup h a = Some c \<Longrightarrow> lookup H a = Some c"
  by (auto simp: prefix_def lookup_def nth_append split: if_splits)

lemmas getter_defs = getTable_def getJoin_def getQuery_def getTableArray_def getJoinArray_def
  getFieldArray_def getConditionArray_def getOrderArray_def getStringArray_def getUnionArray_def

lemma getter_prefix:
  assumes "prefix h H"
  shows "getTable h a = Some r1 \<Longrightarrow> getTable H a = Some r1"
    and "getJoin h a = Some r2 \<Longrightarrow> getJoin H a = Some r2"
    and "getQuery h a = Some r3 \<Longrightarrow> getQuery H a = Some r3"
    and "getTableArray h a = Some r4 \<Longrightarrow> getTableArray H a = Some r4"
    and "getJoinArray h a = Some r4 \<Longrightarrow> getJoinArray H a = Some r4"
    and "getFieldArray h a = Some r5 \<Longrightarrow> getFieldArray H a = Some r5"
    and "getConditionArray h a = Some r6 \<Longrightarrow> getConditionArray H a = Some r6"
    and "getOrderArray h a = Some r7 \<Longrightarrow> getOrderArray H a = Some r7"
    and "getStringArray h a = Some r8 \<Longrightarrow> getStringArray H a = Some r8"
    and "getUnionArray h a = Some r9 \<Longrightarrow> getUnionArray H a = Some r9"
  using lookup_prefix[OF assms, of a]
  by (auto simp: getter_defs split: option.splits cell.splits)

lemma read_Table_mono:
  assumes "prefix h H" and "\<And>p v. rq p = Some v \<Longrightarrow> rq' p = Some v"
    and "read_Table rq h a = Some tv"
  shows "read_Table rq' H a = Some tv"
  using assms(3) getter_prefix(1)[OF assms(1), of a] assms(2)
  by (auto simp: read_Table_def split: bind_splits sum.splits)

lemma read_Join_mono:
  assumes "prefix h H" and "\<And>p v. rq p = Some v \<Longrightarrow> rq' p = Some v"
    and "read_Join rq h a = Some jv"
  shows "read_Join rq' H a = Some jv"
  using assms(3) getter_prefix(2)[OF assms(1), of a] read_Table_mono[OF assms(1,2)]
  by (auto simp: read_Join_def split: bind_splits)

lemma read_Union_mono:
  assumes "\<And>p v. rq p = Some v \<Longrightarrow> rq' p = Some v"
    and "read_Union rq u = Some uv"
  shows "read_Union rq' u = Some uv"
  using assms by (auto simp: read_Union_def split: bind_splits)

lemma read_SelectQuery_mono:
  "prefix h H \<Longrightarrow> n \<le> m \<Longrightarrow> read_SelectQuery n h a = Some v \<Longrightarrow> read_SelectQuery m H a = Some v"
proof (induction n arbitrary: m a v)
  case 0
  then show ?case by simp
next
  case (Suc n)
  then obtain m' where m: "m = Suc m'" "n \<le> m'" by (cases m) auto
  have mono: "\<And>p w. read_SelectQuery n h p = Some w \<Longrightarrow> read_SelectQuery m' H p = Some w"
    using Suc.IH Suc.prems(1) m(2) by blast
  from Suc.prems(3) obtain obj ts tvs js jvs fs ws hs obs gbs us uvs where
    r: "getQuery h a = Some obj" "getTableArray h (tables_ref obj) = Some ts"
      "those (map (read_Table (read_SelectQuery n h) h) ts) = Some tvs"
      "getJoinArray h (joins_ref obj) = Some js"
      "those (map (read_Join (read_SelectQuery n h) h) js) = Some jvs"
      "getFieldArray h (fields_ref obj) = Some fs"
      "getConditionArray h (where_ref obj) = Some ws"
      "getConditionArray h (having_ref obj) = Some hs"
      "getOrderArray h (orderBy_ref obj) = Some obs"
      "getStringArray h (groupBy_ref obj) = Some gbs"
      "getUnionArray h (unionQueries_ref obj) = Some us"
      "those (map (read_Union (read_SelectQuery n h)) us) = Some uvs"
      "v = SelectQuery tvs jvs fs ws hs (limit_field obj) (offset_field obj) obs gbs uvs"
    by (auto split: bind_splits)
  have t: "those (map (read_Table (read_SelectQuery m' H) H) ts) = Some tvs"
    using r(3) read_Table_mono[OF Suc.prems(1) mono]
    unfolding those_map_conv by (rule list_all2_mono) auto
  have j: "those (map (read_Join (read_SelectQuery m' H) H) js) = Some jvs"
    using r(5) read_Join_mono[OF Suc.prems(1) mono]
    unfolding those_map_conv by (rule list_all2_mono) auto
  have u: "those (map (read_Union (read_SelectQuery m' H)) us) = Some uvs"
    using r(12) read_Union_mono[OF mono]
    unfolding those_map_conv by (rule list_all2_mono) auto
  show ?case
    unfolding m(1) using getter_prefix[OF Suc.prems(1)] r t j u by simp
qed

lemma lookup_append:
  "lookup (h @ xs) a = (if a < length h then Some (h ! a) else lookup xs (a - length h))"
  by (auto simp: lookup_def nth_append)

lemma lookup_Cons:
  "lookup (x # xs) a = (if a = 0 then Some x else lookup xs (a - 1))"
  by (auto simp: lookup_def nth_Cons')

lemma lookup_Nil: "lookup [] a = None"
  by (simp add: lookup_def)

lemma new_SelectQuery_eq:
  "new_SelectQuery h = (length h + 8,
     h @ [TableArray [], JoinArray [], FieldArray [], ConditionArray [], ConditionArray [],
          OrderArray [], StringArray [], UnionArray [],
          SelectQueryObject \<lparr>tables_ref = length h, joins_ref = length h + 1,
            fields_ref = length h + 2, where_ref = length h + 3, having_ref = length h + 4,
            limit_field = None, offset_field = None, orderBy_ref = length h + 5,
            groupBy_ref = length h + 6, unionQueries_ref = length h + 7\<rparr>])"
  by (simp add: new_SelectQuery_def alloc_def)

lemma read_select:
  "read_SelectQuery (Suc n) (snd (Query_select h)) (fst (Query_select h)) =
     Some (SelectQuery [] [] [] [] [] None None [] [] [])"
  by (simp add: Query_select_def new_SelectQuery_eq getter_defs lookup_append lookup_Cons lookup_Nil)

lemma prefix_lookup_nth: "prefix B h \<Longrightarrow> a < length B \<Longrightarrow> h ! a = B ! a"
  by (auto simp: prefix_def nth_append)

lemma addrs_0: "addrs a 0 = []"
  by (simp add: addrs_def)

lemma addrs_Suc: "addrs a (Suc k) = a # addrs (Suc a) k"
  by (simp add: addrs_def upt_conv_Cons del: upt_Suc)

lemma length_addrs: "length (addrs a k) = k"
  by (simp add: addrs_def)

lemma nth_addrs: "i < k \<Longrightarrow> addrs a k ! i = a + i"
  by (simp add: addrs_def)

lemma set_addrs: "set (addrs a k) = {a ..< a + k}"
  by (simp add: addrs_def)

lemma Table_clone_eq:
  assumes "prefix B h" "getTable B t = Some r"
  shows "Table_clone h t = Some (length h, h @ [B ! t])"
proof -
  obtain src al where r: "r = (src, al)" by (cases r)
  have b: "B ! t = TableObject src al"
    using assms(2) r by (auto simp: getTable_def lookup_def split: if_splits cell.splits)
  show ?thesis
    using getter_prefix(1)[OF assms] b r
    by (simp add: Table_clone_def new_Table_def alloc_def)
qed

lemma Join_clone_eq:
  assumes "prefix B h" "getJoin B t = Some r"
  shows "Join_clone h t = Some (length h, h @ [B ! t])"
proof -
  obtain tb c ty where r: "r = (tb, c, ty)" by (cases r)
  have b: "B ! t = JoinObject tb c ty"
    using assms(2) r by (auto simp: getJoin_def lookup_def split: if_splits cell.splits)
  show ?thesis
    using getter_prefix(2)[OF assms] b r
    by (simp add: Join_clone_def new_Join_def alloc_def)
qed

lemma mapH_copy:
  assumes "\<And>h t. prefix B h \<Longrightarrow> t \<in> set ts \<Longrightarrow> f h t = Some (length h, h @ [B ! t])"
    and "prefix B h"
  shows "mapH f h ts = Some (addrs (length h) (length ts), h @ map (\<lambda>t. B ! t) ts)"
  using assms
proof (induction ts arbitrary: h)
  case Nil
  then show ?case by (simp add: addrs_0)
next
  case (Cons t ts)
  have p: "prefix B (h @ [B ! t])"
    using Cons.prems(2) by (simp add: prefix_def) auto
  have ih: "mapH f (h @ [B ! t]) ts =
    Some (addrs (Suc (length h)) (length ts), h @ [B ! t] @ map (\<lambda>t. B ! t) ts)"
    using Cons.IH[OF _ p] Cons.prems(1) by simp
  have st: "f h t = Some (length h, h @ [B ! t])"
    using Cons.prems by simp
  show ?case
    unfolding mapH.simps st using ih by (simp add: addrs_Suc)
qed

lemma mapH_Table_clone:
  assumes "prefix B h" "\<forall>t \<in> set ts. \<exists>r. getTable B t = Some r"
  shows "mapH Table_clone h ts = Some (addrs (length h) (length ts), h @ map (\<lambda>t. B ! t) ts)"
proof (rule mapH_copy[OF _ assms(1)])
  fix h t assume "prefix B h" "t \<in> set ts"
  then show "Table_clone h t = Some (length h, h @ [B ! t])"
    using assms(2) Table_clone_eq by blast
qed

lemma mapH_Join_clone:
  assumes "prefix B h" "\<forall>t \<in> set js. \<exists>r. getJoin B t = Some r"
  shows "mapH Join_clone h js = Some (addrs (length h) (length js), h @ map (\<lambda>t. B ! t) js)"
proof (rule mapH_copy[OF _ assms(1)])
  fix h t assume "prefix B h" "t \<in> set js"
  then show "Join_clone h t = Some (length h, h @ [B ! t])"
    using assms(2) Join_clone_eq by blast
qed

lemmas get_defs = get_tables_def get_joins_def get_fields_def get_where_def get_having_def
  get_limit_def get_offset_def get_orderBy_def get_groupBy_def get_unionQueries_def

lemma get_prefix:
  assumes "prefix B H"
  shows "get_tables B q = Some r1 \<Longrightarrow> get_tables H q = Some r1"
    and "get_joins B q = Some r1 \<Longrightarrow> get_joins H q = Some r1"
    and "get_fields B q = Some r2 \<Longrightarrow> get_fields H q = Some r2"
    and "get_where B q = Some r3 \<Longrightarrow> get_where H q = Some r3"
    and "get_having B q = Some r3 \<Longrightarrow> get_having H q = Some r3"
    and "get_limit B q = Some r4 \<Longrightarrow> get_limit H q = Some r4"
    and "get_offset B q = Some r4 \<Longrightarrow> get_offset H q = Some r4"
    and "get_orderBy B q = Some r5 \<Longrightarrow> get_orderBy H q = Some r5"
    and "get_groupBy B q = Some r6 \<Longrightarrow> get_groupBy H q = Some r6"
    and "get_unionQueries B q = Some r7 \<Longrightarrow> get_unionQueries H q = Some r7"
  using getter_prefix[OF assms]
  by (auto simp: get_defs split: bind_splits)

lemma prefix_append_right: "prefix B h \<Longrightarrow> prefix B (h @ X)"
  by (auto simp: prefix_def)

lemma update_query_append:
  "lookup X k = Some (SelectQueryObject obj) \<Longrightarrow>
   update_query (length h + k) f (h @ X) = Some (h @ X[k := SelectQueryObject (f obj)])"
  by (auto simp: update_query_def getQuery_def lookup_append list_update_append)

lemma QueryBase_clone_eq:
  assumes "prefix B h" "get_tables B q = Some ts" "\<forall>t\<in>set ts. \<exists>r. getTable B t = Some r"
    "get_joins B q = Some js" "\<forall>j\<in>set js. \<exists>r. getJoin B j = Some r"
  shows "QueryBase_clone h q = Some (length h + 8,
     h @ [TableArray [], JoinArray [], FieldArray [], ConditionArray [], ConditionArray [],
          OrderArray [], StringArray [], UnionArray [],
          SelectQueryObject \<lparr>tables_ref = length h + 9 + length ts,
            joins_ref = length h + 10 + length ts + length js,
            fields_ref = length h + 2, where_ref = length h + 3, having_ref = length h + 4,
            limit_field = None, offset_field = None, orderBy_ref = length h + 5,
            groupBy_ref = length h + 6, unionQueries_ref = length h + 7\<rparr>]
       @ map (\<lambda>t. B ! t) ts @ [TableArray (addrs (length h + 9) (length ts))]
       @ map (\<lambda>t. B ! t) js
       @ [JoinArray (addrs (length h + 10 + length ts) (length js))])"
proof -
  have gt: "\<And>X. get_tables (h @ X) q = Some ts"
    using get_prefix(1)[OF prefix_append_right[OF assms(1)] assms(2)] .
  have gj: "\<And>X. get_joins (h @ X) q = Some js"
    using get_prefix(2)[OF prefix_append_right[OF assms(1)] assms(4)] .
  have mt: "\<And>X. mapH Table_clone (h @ X) ts =
      Some (addrs (length (h @ X)) (length ts), (h @ X) @ map (\<lambda>t. B ! t) ts)"
    using mapH_Table_clone[OF prefix_append_right[OF assms(1)] assms(3)] .
  have mj: "\<And>X. mapH Join_clone (h @ X) js =
      Some (addrs (length (h @ X)) (length js), (h @ X) @ map (\<lambda>t. B ! t) js)"
    using mapH_Join_clone[OF prefix_append_right[OF assms(1)] assms(5)] .
  show ?thesis
    unfolding QueryBase_clone_def new_SelectQuery_eq
    apply (simp add: gt gj mt mj alloc_def update_query_append lookup_Cons add.assoc)
    apply (intro conjI arg_cong2[where f = addrs]; simp)
    done
qed

lemma region_at_Nil: "region_at L [] H"
  by (simp add: region_at_def)

lemma region_at_append:
  "region_at L (X @ Y) H \<longleftrightarrow> region_at L X H \<and> region_at (L + length X) Y H"
  unfolding region_at_def
  by (simp add: append_eq_conv_conj take_add drop_take drop_drop add.commute) (auto simp: min_def)

lemma region_at_Cons:
  "region_at L (x # X) H \<longleftrightarrow> lookup H L = Some x \<and> region_at (Suc L) X H"
proof -
  have "region_at L ([x] @ X) H \<longleftrightarrow> region_at L [x] H \<and> region_at (L + 1) X H"
    by (simp only: region_at_append) simp
  moreover have "region_at L [x] H \<longleftrightarrow> lookup H L = Some x"
    by (cases "drop L H") (auto simp: region_at_def lookup_def nth_via_drop dest: arg_cong[where f = length])
  ultimately show ?thesis by simp
qed

lemma region_at_skip_append:
  "region_at (length Z + k) X (Z @ Y) = region_at k X Y"
  by (simp add: region_at_def)

lemma region_at_skip_Cons:
  "region_at (Suc k) X (y # Y) = region_at k X Y"
  by (simp add: region_at_def)

lemma region_at_here: "region_at 0 X (X @ Y)"
  by (simp add: region_at_def)

lemma region_at_nth:
  "region_at L X H \<Longrightarrow> i < length X \<Longrightarrow> lookup H (L + i) = Some (X ! i)"
proof -
  assume a: "region_at L X H" "i < length X"
  then have l: "length X \<le> length (drop L H)"
    unfolding region_at_def by (auto dest!: arg_cong[where f = length])
  have "X ! i = take (length X) (drop L H) ! i" using a by (simp add: region_at_def)
  also have "\<dots> = H ! (L + i)" using a(2) l by simp
  finally show ?thesis using a(2) l by (simp add: lookup_def)
qed

lemma cell_reads_Table_of_read:
  assumes "read_Table (read_SelectQuery n B) B t = Some tv"
  shows "cell_reads_Table B n (B ! t) tv" and "\<exists>r. getTable B t = Some r"
  using assms
  by (auto simp: read_Table_def cell_reads_Table_def getTable_def lookup_def
      split: bind_splits sum.splits if_splits option.splits cell.splits)

lemma cell_reads_Table_read:
  assumes "cell_reads_Table B n c tv" "prefix B H" "lookup H a = Some c"
  shows "read_Table (read_SelectQuery n H) H a = Some tv"
  using assms read_SelectQuery_mono[OF assms(2) order_refl]
  by (auto simp: read_Table_def cell_reads_Table_def getTable_def split: sum.splits)

lemma cell_reads_Join_of_read:
  assumes "read_Join (read_SelectQuery n B) B j = Some jv"
  shows "cell_reads_Join B n (B ! j) jv" and "\<exists>r. getJoin B j = Some r"
  using assms
  by (auto simp: read_Join_def cell_reads_Join_def getJoin_def lookup_def
      split: bind_splits sum.splits if_splits option.splits cell.splits)

lemma cell_reads_Join_read:
  assumes "cell_reads_Join B n c jv" "prefix B H" "lookup H a = Some c"
  shows "read_Join (read_SelectQuery n H) H a = Some jv"
proof -
  from assms(1) obtain t cnd ty tv where
    c: "c = JoinObject t cnd ty" "read_Table (read_SelectQuery n B) B t = Some tv" "jv = Join tv cnd ty"
    by (auto simp: cell_reads_Join_def)
  have "read_Table (read_SelectQuery n H) H t = Some tv"
    using read_Table_mono[OF assms(2) _ c(2)] read_SelectQuery_mono[OF assms(2) order_refl] by blast
  then show ?thesis using c assms(3) by (simp add: read_Join_def getJoin_def)
qed

lemma read_Tables_region:
  assumes "list_all2 (cell_reads_Table B n) Tc tvs" "prefix B H" "region_at L Tc H"
  shows "those (map (read_Table (read_SelectQuery n H) H) (addrs L (length Tc))) = Some tvs"
  unfolding those_map_conv list_all2_conv_all_nth
proof (intro conjI allI impI)
  show "length (addrs L (length Tc)) = length tvs"
    using assms(1) by (simp add: length_addrs list_all2_lengthD)
next
  fix i assume "i < length (addrs L (length Tc))"
  then have i: "i < length Tc" by (simp add: length_addrs)
  have "cell_reads_Table B n (Tc ! i) (tvs ! i)"
    using assms(1) i by (simp add: list_all2_conv_all_nth)
  then show "read_Table (read_SelectQuery n H) H (addrs L (length Tc) ! i) = Some (tvs ! i)"
    using cell_reads_Table_read[OF _ assms(2)] region_at_nth[OF assms(3) i] i
    by (simp add: nth_addrs)
qed

lemma read_Joins_region:
  assumes "list_all2 (cell_reads_Join B n) Jc jvs" "prefix B H" "region_at L Jc H"
  shows "those (map (read_Join (read_SelectQuery n H) H) (addrs L (length Jc))) = Some jvs"
  unfolding those_map_conv list_all2_conv_all_nth
proof (intro conjI allI impI)
  show "length (addrs L (length Jc)) = length jvs"
    using assms(1) by (simp add: length_addrs list_all2_lengthD)
next
  fix i assume "i < length (addrs L (length Jc))"
  then have i: "i < length Jc" by (simp add: length_addrs)
  have "cell_reads_Join B n (Jc ! i) (jvs ! i)"
    using assms(1) i by (simp add: list_all2_conv_all_nth)
  then show "read_Join (read_SelectQuery n H) H (addrs L (length Jc) ! i) = Some (jvs ! i)"
    using cell_reads_Join_read[OF _ assms(2)] region_at_nth[OF assms(3) i] i
    by (simp add: nth_addrs)
qed

lemma mapH_union_clone:
  assumes Q: "\<And>h q v. prefix B h \<Longrightarrow> read_SelectQuery n B q = Some v \<Longrightarrow>
      \<exists>c X. SelectQuery_clone n h q = Some (c, h @ X) \<and> reads_as B (length h) X n c v"
    and "prefix B h"
    and "those (map (read_Union (read_SelectQuery n B)) us) = Some uvs"
  shows "\<exists>us' U. mapH (\<lambda>h u. do { (c, h) \<leftarrow> SelectQuery_clone n h (fst u); Some ((c, snd u), h) }) h us
            = Some (us', h @ U) \<and> unions_read_as B (length h) U n us' uvs"
  using assms(2,3)
proof (induction us arbitrary: h uvs)
  case Nil
  then show ?case by (auto simp: unions_read_as_def intro!: exI[of _ "[]"])
next
  case (Cons u us)
  from Cons.prems(2) obtain uv uvs' where
    u: "read_Union (read_SelectQuery n B) u = Some uv"
      "those (map (read_Union (read_SelectQuery n B)) us) = Some uvs'" "uvs = uv # uvs'"
    by (auto split: option.splits)
  from u(1) obtain qv where qv: "read_SelectQuery n B (fst u) = Some qv" "uv = UnionQuery qv (snd u)"
    by (auto simp: read_Union_def split: bind_splits)
  from Q[OF Cons.prems(1) qv(1)] obtain c X where
    c: "SelectQuery_clone n h (fst u) = Some (c, h @ X)" "reads_as B (length h) X n c qv" by blast
  have p: "prefix B (h @ X)" using Cons.prems(1) by (rule prefix_append_right)
  from Cons.IH[OF p u(2)] obtain us' U where
    ih: "mapH (\<lambda>h u. do { (c, h) \<leftarrow> SelectQuery_clone n h (fst u); Some ((c, snd u), h) }) (h @ X) us
            = Some (us', (h @ X) @ U)" "unions_read_as B (length (h @ X)) U n us' uvs'" by blast
  have "unions_read_as B (length h) (X @ U) n ((c, snd u) # us') uvs"
    unfolding unions_read_as_def
  proof (intro allI impI)
    fix H assume H: "prefix B H" "region_at (length h) (X @ U) H"
    then have "read_SelectQuery n H c = Some qv"
      using c(2) by (simp add: reads_as_def region_at_append)
    moreover have "those (map (read_Union (read_SelectQuery n H)) us') = Some uvs'"
      using ih(2) H by (simp add: unions_read_as_def region_at_append)
    ultimately show "those (map (read_Union (read_SelectQuery n H)) ((c, snd u) # us')) = Some uvs"
      using qv(2) u(3) by (simp add: read_Union_def)
  qed
  then show ?case
    using c(1) ih(1) by (intro exI[of _ "(c, snd u) # us'"] exI[of _ "X @ U"]) simp
qed

lemma read_SelectQuery_SucE:
  assumes "read_SelectQuery (Suc n) h a = Some v"
  obtains obj ts js us where
    "getQuery h a = Some obj"
    "getTableArray h (tables_ref obj) = Some ts"
    "those (map (read_Table (read_SelectQuery n h) h) ts) = Some (tables_of v)"
    "getJoinArray h (joins_ref obj) = Some js"
    "those (map (read_Join (read_SelectQuery n h) h) js) = Some (joins_of v)"
    "getFieldArray h (fields_ref obj) = Some (fields_of v)"
    "getConditionArray h (where_ref obj) = Some (where_of v)"
    "getConditionArray h (having_ref obj) = Some (having_of v)"
    "getOrderArray h (orderBy_ref obj) = Some (orderBy_of v)"
    "getStringArray h (groupBy_ref obj) = Some (groupBy_of v)"
    "getUnionArray h (unionQueries_ref obj) = Some us"
    "those (map (read_Union (read_SelectQuery n h)) us) = Some (unionQueries_of v)"
    "limit_field obj = limit_of v" "offset_field obj = offset_of v"
  using assms by (auto split: bind_splits)

lemma SelectQuery_clone_step:
  assumes Q: "\<And>h q v. prefix B h \<Longrightarrow> read_SelectQuery n B q = Some v \<Longrightarrow>
      \<exists>c X. SelectQuery_clone n h q = Some (c, h @ X) \<and> reads_as B (length h) X n c v"
    and p: "prefix B h"
    and r: "read_SelectQuery (Suc n) B q = Some v"
  shows "\<exists>X. SelectQuery_clone (Suc n) h q = Some (length h + 8, h @ X) \<and> cloned B (length h) n v X"
proof -
  from r obtain obj ts js us where
    o: "getQuery B q = Some obj"
      "getTableArray B (tables_ref obj) = Some ts"
      "those (map (read_Table (read_SelectQuery n B) B) ts) = Some (tables_of v)"
      "getJoinArray B (joins_ref obj) = Some js"
      "those (map (read_Join (read_SelectQuery n B) B) js) = Some (joins_of v)"
      "getFieldArray B (fields_ref obj) = Some (fields_of v)"
      "getConditionArray B (where_ref obj) = Some (where_of v)"
      "getConditionArray B (having_ref obj) = Some (having_of v)"
      "getOrderArray B (orderBy_ref obj) = Some (orderBy_of v)"
      "getStringArray B (groupBy_ref obj) = Some (groupBy_of v)"
      "getUnionArray B (unionQueries_ref obj) = Some us"
      "those (map (read_Union (read_SelectQuery n B)) us) = Some (unionQueries_of v)"
      "limit_field obj = limit_of v" "offset_field obj = offset_of v"
    by (rule read_SelectQuery_SucE)
  define Tc where "Tc = map (\<lambda>t. B ! t) ts"
  define Jc where "Jc = map (\<lambda>t. B ! t) js"
  have tc: "list_all2 (cell_reads_Table B n) Tc (tables_of v)"
    using o(3) cell_reads_Table_of_read(1)[of n B]
    unfolding Tc_def those_map_conv list_all2_map1 by (rule list_all2_mono) auto
  have jc: "list_all2 (cell_reads_Join B n) Jc (joins_of v)"
    using o(5) cell_reads_Join_of_read(1)[of n B]
    unfolding Jc_def those_map_conv list_all2_map1 by (rule list_all2_mono) auto
  have tr: "\<forall>t\<in>set ts. \<exists>r. getTable B t = Some r"
    using o(3) cell_reads_Table_of_read(2)[of n B]
    unfolding those_map_conv by (auto simp: list_all2_conv_all_nth in_set_conv_nth)
  have jr: "\<forall>t\<in>set js. \<exists>r. getJoin B t = Some r"
    using o(5) cell_reads_Join_of_read(2)[of n B]
    unfolding those_map_conv by (auto simp: list_all2_conv_all_nth in_set_conv_nth)
  have g: "get_tables B q = Some ts" "get_joins B q = Some js" "get_fields B q = Some (fields_of v)"
    "get_where B q = Some (where_of v)" "get_having B q = Some (having_of v)"
    "get_limit B q = Some (limit_of v)" "get_offset B q = Some (offset_of v)"
    "get_orderBy B q = Some (orderBy_of v)" "get_groupBy B q = Some (groupBy_of v)"
    "get_unionQueries B q = Some us"
    using o by (simp_all add: get_defs)
  note gX = get_prefix[OF prefix_append_right[OF p]]
  have qb: "QueryBase_clone h q = Some (length h + 8,
     h @ [TableArray [], JoinArray [], FieldArray [], ConditionArray [], ConditionArray [],
          OrderArray [], StringArray [], UnionArray [],
          SelectQueryObject \<lparr>tables_ref = length h + 9 + length ts,
            joins_ref = length h + 10 + length ts + length js,
            fields_ref = length h + 2, where_ref = length h + 3, having_ref = length h + 4,
            limit_field = None, offset_field = None, orderBy_ref = length h + 5,
            groupBy_ref = length h + 6, unionQueries_ref = length h + 7\<rparr>]
       @ Tc @ [TableArray (addrs (length h + 9) (length ts))]
       @ Jc @ [JoinArray (addrs (length h + 10 + length ts) (length js))])"
    unfolding Tc_def Jc_def using QueryBase_clone_eq[OF p g(1) tr g(2) jr] .
  have sb: "SelectBaseQuery_clone h q = Some (length h + 8,
     h @ [TableArray [], JoinArray [], FieldArray [], ConditionArray [], ConditionArray [],
          OrderArray [], StringArray [], UnionArray [],
          SelectQueryObject \<lparr>tables_ref = length h + 9 + length ts,
            joins_ref = length h + 10 + length ts + length js,
            fields_ref = length h + 11 + length ts + length js,
            where_ref = length h + 3, having_ref = length h + 4,
            limit_field = None, offset_field = None, orderBy_ref = length h + 5,
            groupBy_ref = length h + 6, unionQueries_ref = length h + 7\<rparr>]
       @ Tc @ [TableArray (addrs (length h + 9) (length ts))]
       @ Jc @ [JoinArray (addrs (length h + 10 + length ts) (length js))]
       @ [FieldArray (fields_of v)])"
    unfolding SelectBaseQuery_clone_def qb
    by (simp add: gX(3)[OF g(3)] alloc_def update_query_append lookup_Cons Tc_def Jc_def)
  define Zc where "Zc =
     [TableArray [], JoinArray [], FieldArray [], ConditionArray [], ConditionArray [],
      OrderArray [], StringArray [], UnionArray [],
      SelectQueryObject \<lparr>tables_ref = length h + 9 + length Tc,
        joins_ref = length h + 10 + length Tc + length Jc,
        fields_ref = length h + 11 + length Tc + length Jc,
        where_ref = length h + 12 + length Tc + length Jc,
        having_ref = length h + 13 + length Tc + length Jc,
        limit_field = limit_of v, offset_field = offset_of v,
        orderBy_ref = length h + 14 + length Tc + length Jc,
        groupBy_ref = length h + 15 + length Tc + length Jc,
        unionQueries_ref = length h + 7\<rparr>]
     @ Tc @ [TableArray (addrs (length h + 9) (length Tc))]
     @ Jc @ [JoinArray (addrs (length h + 10 + length Tc) (length Jc))]
     @ [FieldArray (fields_of v), ConditionArray (where_of v), ConditionArray (having_of v),
        OrderArray (orderBy_of v), StringArray (groupBy_of v)]"
  have split: "SelectQuery_clone (Suc n) h q = do {
     (clone, h) \<leftarrow> do {
       (clone, h) \<leftarrow> SelectBaseQuery_clone h q;
       ws \<leftarrow> get_where h q;
       let (a, h) = alloc (ConditionArray ws) h;
       h \<leftarrow> update_query clone (\<lambda>obj. obj\<lparr>where_ref := a\<rparr>) h;
       hs \<leftarrow> get_having h q;
       let (a, h) = alloc (ConditionArray hs) h;
       h \<leftarrow> update_query clone (\<lambda>obj. obj\<lparr>having_ref := a\<rparr>) h;
       lmt \<leftarrow> get_limit h q;
       h \<leftarrow> update_query clone (\<lambda>obj. obj\<lparr>limit_field := lmt\<rparr>) h;
       off \<leftarrow> get_offset h q;
       h \<leftarrow> update_query clone (\<lambda>obj. obj\<lparr>offset_field := off\<rparr>) h;
       obs \<leftarrow> get_orderBy h q;
       let (a, h) = alloc (OrderArray obs) h;
       h \<leftarrow> update_query clone (\<lambda>obj. obj\<lparr>orderBy_ref := a\<rparr>) h;
       gbs \<leftarrow> get_groupBy h q;
       let (a, h) = alloc (StringArray gbs) h;
       h \<leftarrow> update_query clone (\<lambda>obj. obj\<lparr>groupBy_ref := a\<rparr>) h;
       Some (clone, h) };
     us \<leftarrow> get_unionQueries h q;
     (us', h) \<leftarrow> mapH (\<lambda>h u. do {
                    (c, h) \<leftarrow> SelectQuery_clone n h (fst u);
                    Some ((c, snd u), h) }) h us;
     let (a, h) = alloc (UnionArray us') h;
     h \<leftarrow> update_query clone (\<lambda>obj. obj\<lparr>unionQueries_ref := a\<rparr>) h;
     Some (clone, h) }"
    by (simp add: split_def Let_def)
  have head: "do {
       (clone, h) \<leftarrow> SelectBaseQuery_clone h q;
       ws \<leftarrow> get_where h q;
       let (a, h) = alloc (ConditionArray ws) h;
       h \<leftarrow> update_query clone (\<lambda>obj. obj\<lparr>where_ref := a\<rparr>) h;
       hs \<leftarrow> get_having h q;
       let (a, h) = alloc (ConditionArray hs) h;
       h \<leftarrow> update_query clone (\<lambda>obj. obj\<lparr>having_ref := a\<rparr>) h;
       lmt \<leftarrow> get_limit h q;
       h \<leftarrow> update_query clone (\<lambda>obj. obj\<lparr>limit_field := lmt\<rparr>) h;
       off \<leftarrow> get_offset h q;
       h \<leftarrow> update_query clone (\<lambda>obj. obj\<lparr>offset_field := off\<rparr>) h;
       obs \<leftarrow> get_orderBy h q;
       let (a, h) = alloc (OrderArray obs) h;
       h \<leftarrow> update_query clone (\<lambda>obj. obj\<lparr>orderBy_ref := a\<rparr>) h;
       gbs \<leftarrow> get_groupBy h q;
       let (a, h) = alloc (StringArray gbs) h;
       h \<leftarrow> update_query clone (\<lambda>obj. obj\<lparr>groupBy_ref := a\<rparr>) h;
       Some (clone, h) } = Some (length h + 8, h @ Zc)"
    unfolding sb Zc_def
    apply (simp add: gX(4)[OF g(4)] gX(5)[OF g(5)] gX(6)[OF g(6)] gX(7)[OF g(7)] gX(8)[OF g(8)]
       gX(9)[OF g(9)] alloc_def update_query_append lookup_Cons)
    apply (simp add: Tc_def Jc_def)
    done
  from mapH_union_clone[OF Q prefix_append_right[OF p] o(12)] obtain us' U where
    m: "mapH (\<lambda>h u. do { (c, h) \<leftarrow> SelectQuery_clone n h (fst u); Some ((c, snd u), h) }) (h @ Zc) us
            = Some (us', (h @ Zc) @ U)"
    and ur: "unions_read_as B (length (h @ Zc)) U n us' (unionQueries_of v)"
    by blast
  have lz: "length Zc = 16 + length Tc + length Jc"
    by (simp add: Zc_def)
  have z8: "lookup (Zc @ U @ [UnionArray us']) 8 = Some (Zc ! 8)"
    by (simp add: lookup_append lz)
  have z8': "Zc ! 8 = SelectQueryObject \<lparr>tables_ref = length h + 9 + length Tc,
        joins_ref = length h + 10 + length Tc + length Jc,
        fields_ref = length h + 11 + length Tc + length Jc,
        where_ref = length h + 12 + length Tc + length Jc,
        having_ref = length h + 13 + length Tc + length Jc,
        limit_field = limit_of v, offset_field = offset_of v,
        orderBy_ref = length h + 14 + length Tc + length Jc,
        groupBy_ref = length h + 15 + length Tc + length Jc,
        unionQueries_ref = length h + 7\<rparr>"
    by (simp add: Zc_def)
  have sq: "SelectQuery_clone (Suc n) h q = Some (length h + 8,
      h @ (Zc @ U @ [UnionArray us'])[8 := SelectQueryObject \<lparr>tables_ref = length h + 9 + length Tc,
        joins_ref = length h + 10 + length Tc + length Jc,
        fields_ref = length h + 11 + length Tc + length Jc,
        where_ref = length h + 12 + length Tc + length Jc,
        having_ref = length h + 13 + length Tc + length Jc,
        limit_field = limit_of v, offset_field = offset_of v,
        orderBy_ref = length h + 14 + length Tc + length Jc,
        groupBy_ref = length h + 15 + length Tc + length Jc,
        unionQueries_ref = length h + 16 + length Tc + length Jc + length U\<rparr>])"
    unfolding split head
    using update_query_append[OF z8[unfolded z8'], of h "\<lambda>obj. obj\<lparr>unionQueries_ref := length h + 16 + length Tc + length Jc + length U\<rparr>"]
    by (simp add: gX(10)[OF g(10)] m alloc_def lz add.assoc)
  have X: "(Zc @ U @ [UnionArray us'])[8 := SelectQueryObject \<lparr>tables_ref = length h + 9 + length Tc,
        joins_ref = length h + 10 + length Tc + length Jc,
        fields_ref = length h + 11 + length Tc + length Jc,
        where_ref = length h + 12 + length Tc + length Jc,
        having_ref = length h + 13 + length Tc + length Jc,
        limit_field = limit_of v, offset_field = offset_of v,
        orderBy_ref = length h + 14 + length Tc + length Jc,
        groupBy_ref = length h + 15 + length Tc + length Jc,
        unionQueries_ref = length h + 16 + length Tc + length Jc + length U\<rparr>]
      = clone_cells (length h) Tc Jc v U us'"
    by (simp add: Zc_def clone_cells_def)
  have "length (h @ Zc) = length h + 16 + length Tc + length Jc"
    by (simp add: lz)
  with ur have ur': "unions_read_as B (length h + 16 + length Tc + length Jc) U n us' (unionQueries_of v)"
    by (simp only:)
  have "cloned B (length h) n v (clone_cells (length h) Tc Jc v U us')"
    unfolding cloned_def
    by (intro exI[of _ Tc] exI[of _ Jc] exI[of _ U] exI[of _ us'] conjI refl tc jc ur')
  then show ?thesis using sq X by simp
qed

lemma length_clone_cells:
  "length (clone_cells L Tc Jc v U us') = 17 + length Tc + length Jc + length U"
  by (simp add: clone_cells_def)

lemma nth_clone_cells:
  "clone_cells L Tc Jc v U us' ! 8 = SelectQueryObject \<lparr>tables_ref = L + 9 + length Tc,
        joins_ref = L + 10 + length Tc + length Jc,
        fields_ref = L + 11 + length Tc + length Jc,
        where_ref = L + 12 + length Tc + length Jc,
        having_ref = L + 13 + length Tc + length Jc,
        limit_field = limit_of v, offset_field = offset_of v,
        orderBy_ref = L + 14 + length Tc + length Jc,
        groupBy_ref = L + 15 + length Tc + length Jc,
        unionQueries_ref = L + 16 + length Tc + length Jc + length U\<rparr>"
  "clone_cells L Tc Jc v U us' ! (9 + length Tc) = TableArray (addrs (L + 9) (length Tc))"
  "clone_cells L Tc Jc v U us' ! (10 + length Tc + length Jc) = JoinArray (addrs (L + 10 + length Tc) (length Jc))"
  "clone_cells L Tc Jc v U us' ! (11 + length Tc + length Jc) = FieldArray (fields_of v)"
  "clone_cells L Tc Jc v U us' ! (12 + length Tc + length Jc) = ConditionArray (where_of v)"
  "clone_cells L Tc Jc v U us' ! (13 + length Tc + length Jc) = ConditionArray (having_of v)"
  "clone_cells L Tc Jc v U us' ! (14 + length Tc + length Jc) = OrderArray (orderBy_of v)"
  "clone_cells L Tc Jc v U us' ! (15 + length Tc + length Jc) = StringArray (groupBy_of v)"
  "clone_cells L Tc Jc v U us' ! (16 + length Tc + length Jc + length U) = UnionArray us'"
  by (simp_all add: clone_cells_def nth_append)

lemma region_at_Cons_pos: "0 < k \<Longrightarrow> region_at k X (y # Y) = region_at (k - 1) X Y"
  by (cases k) (simp_all add: region_at_def)

lemma region_at_append_ge: "length Z \<le> k \<Longrightarrow> region_at k X (Z @ Y) = region_at (k - length Z) X Y"
  by (simp add: region_at_def)

lemma region_clone_cells:
  "region_at 9 Tc (clone_cells L Tc Jc v U us')"
  "region_at (10 + length Tc) Jc (clone_cells L Tc Jc v U us')"
  "region_at (16 + length Tc + length Jc) U (clone_cells L Tc Jc v U us')"
  by (simp_all add: clone_cells_def region_at_Cons_pos region_at_append_ge region_at_here)

lemma region_at_trans:
  "region_at k Y X \<Longrightarrow> region_at L X H \<Longrightarrow> region_at (L + k) Y H"
  unfolding region_at_def
  by (metis add.commute drop_drop drop_take take_take min.absorb1 length_take min.cobounded1
      le_add_diff_inverse2 take_all_iff length_drop diff_le_self)

lemma lookup_clone_cells:
  assumes "region_at L (clone_cells L Tc Jc v U us') H"
  shows "lookup H (L + 8) = Some (SelectQueryObject \<lparr>tables_ref = L + 9 + length Tc,
        joins_ref = L + 10 + length Tc + length Jc,
        fields_ref = L + 11 + length Tc + length Jc,
        where_ref = L + 12 + length Tc + length Jc,
        having_ref = L + 13 + length Tc + length Jc,
        limit_field = limit_of v, offset_field = offset_of v,
        orderBy_ref = L + 14 + length Tc + length Jc,
        groupBy_ref = L + 15 + length Tc + length Jc,
        unionQueries_ref = L + 16 + length Tc + length Jc + length U\<rparr>)"
    and "lookup H (L + 9 + length Tc) = Some (TableArray (addrs (L + 9) (length Tc)))"
    and "lookup H (L + 10 + length Tc + length Jc) = Some (JoinArray (addrs (L + 10 + length Tc) (length Jc)))"
    and "lookup H (L + 11 + length Tc + length Jc) = Some (FieldArray (fields_of v))"
    and "lookup H (L + 12 + length Tc + length Jc) = Some (ConditionArray (where_of v))"
    and "lookup H (L + 13 + length Tc + length Jc) = Some (ConditionArray (having_of v))"
    and "lookup H (L + 14 + length Tc + length Jc) = Some (OrderArray (orderBy_of v))"
    and "lookup H (L + 15 + length Tc + length Jc) = Some (StringArray (groupBy_of v))"
    and "lookup H (L + 16 + length Tc + length Jc + length U) = Some (UnionArray us')"
proof -
  note l = region_at_nth[OF assms]
  show "lookup H (L + 8) = Some (SelectQueryObject \<lparr>tables_ref = L + 9 + length Tc,
        joins_ref = L + 10 + length Tc + length Jc,
        fields_ref = L + 11 + length Tc + length Jc,
        where_ref = L + 12 + length Tc + length Jc,
        having_ref = L + 13 + length Tc + length Jc,
        limit_field = limit_of v, offset_field = offset_of v,
        orderBy_ref = L + 14 + length Tc + length Jc,
        groupBy_ref = L + 15 + length Tc + length Jc,
        unionQueries_ref = L + 16 + length Tc + length Jc + length U\<rparr>)"
    using l[of 8] by (simp only: nth_clone_cells) (simp add: length_clone_cells)
  show "lookup H (L + 9 + length Tc) = Some (TableArray (addrs (L + 9) (length Tc)))"
    using l[of "9 + length Tc"]
    by (simp only: nth_clone_cells add.assoc[symmetric]) (simp add: length_clone_cells)
  show "lookup H (L + 10 + length Tc + length Jc) = Some (JoinArray (addrs (L + 10 + length Tc) (length Jc)))"
    using l[of "10 + length Tc + length Jc"]
    by (simp only: nth_clone_cells add.assoc[symmetric]) (simp add: length_clone_cells)
  show "lookup H (L + 11 + length Tc + length Jc) = Some (FieldArray (fields_of v))"
    using l[of "11 + length Tc + length Jc"]
    by (simp only: nth_clone_cells add.assoc[symmetric]) (simp add: length_clone_cells)
  show "lookup H (L + 12 + length Tc + length Jc) = Some (ConditionArray (where_of v))"
    using l[of "12 + length Tc + length Jc"]
    by (simp only: nth_clone_cells add.assoc[symmetric]) (simp add: length_clone_cells)
  show "lookup H (L + 13 + length Tc + length Jc) = Some (ConditionArray (having_of v))"
    using l[of "13 + length Tc + length Jc"]
    by (simp only: nth_clone_cells add.assoc[symmetric]) (simp add: length_clone_cells)
  show "lookup H (L + 14 + length Tc + length Jc) = Some (OrderArray (orderBy_of v))"
    using l[of "14 + length Tc + length Jc"]
    by (simp only: nth_clone_cells add.assoc[symmetric]) (simp add: length_clone_cells)
  show "lookup H (L + 15 + length Tc + length Jc) = Some (StringArray (groupBy_of v))"
    using l[of "15 + length Tc + length Jc"]
    by (simp only: nth_clone_cells add.assoc[symmetric]) (simp add: length_clone_cells)
  show "lookup H (L + 16 + length Tc + length Jc + length U) = Some (UnionArray us')"
    using l[of "16 + length Tc + length Jc + length U"]
    by (simp only: nth_clone_cells add.assoc[symmetric]) (simp add: length_clone_cells)
qed

lemma regions_clone_cells:
  assumes "region_at L (clone_cells L Tc Jc v U us') H"
  shows "region_at (L + 9) Tc H" "region_at (L + 10 + length Tc) Jc H"
    "region_at (L + 16 + length Tc + length Jc) U H"
  using region_at_trans[OF region_clone_cells(1) assms]
    region_at_trans[OF region_clone_cells(2) assms]
    region_at_trans[OF region_clone_cells(3) assms]
  by (simp_all only: add.assoc[symmetric])

lemma read_SelectQuery_SucI:
  assumes "lookup H c = Some (SelectQueryObject obj)"
    "lookup H (tables_ref obj) = Some (TableArray ts)"
    "those (map (read_Table (read_SelectQuery n H) H) ts) = Some tvs"
    "lookup H (joins_ref obj) = Some (JoinArray js)"
    "those (map (read_Join (read_SelectQuery n H) H) js) = Some jvs"
    "lookup H (fields_ref obj) = Some (FieldArray fs)"
    "lookup H (where_ref obj) = Some (ConditionArray ws)"
    "lookup H (having_ref obj) = Some (ConditionArray hs)"
    "lookup H (orderBy_ref obj) = Some (OrderArray obs)"
    "lookup H (groupBy_ref obj) = Some (StringArray gbs)"
    "lookup H (unionQueries_ref obj) = Some (UnionArray us)"
    "those (map (read_Union (read_SelectQuery n H)) us) = Some uvs"
  shows "read_SelectQuery (Suc n) H c =
    Some (SelectQuery tvs jvs fs ws hs (limit_field obj) (offset_field obj) obs gbs uvs)"
  by (simp add: getter_defs assms)

lemma cloned_reads_as:
  assumes "cloned B L n v X"
  shows "reads_as B L X (Suc n) (L + 8) v"
  unfolding reads_as_def
proof (intro allI impI)
  fix H assume H: "prefix B H" "region_at L X H"
  from assms obtain Tc Jc U us' where
    X: "X = clone_cells L Tc Jc v U us'"
    and tc: "list_all2 (cell_reads_Table B n) Tc (tables_of v)"
    and jc: "list_all2 (cell_reads_Join B n) Jc (joins_of v)"
    and ur: "unions_read_as B (L + 16 + length Tc + length Jc) U n us' (unionQueries_of v)"
    by (auto simp: cloned_def)
  note lk = lookup_clone_cells[OF H(2)[unfolded X]]
  note rg = regions_clone_cells[OF H(2)[unfolded X]]
  have "read_SelectQuery (Suc n) H (L + 8) =
    Some (SelectQuery (tables_of v) (joins_of v) (fields_of v) (where_of v) (having_of v)
      (limit_of v) (offset_of v) (orderBy_of v) (groupBy_of v) (unionQueries_of v))"
    using read_SelectQuery_SucI[OF lk(1), of "addrs (L + 9) (length Tc)" n "tables_of v"
        "addrs (L + 10 + length Tc) (length Jc)" "joins_of v" "fields_of v" "where_of v"
        "having_of v" "orderBy_of v" "groupBy_of v" us' "unionQueries_of v"]
      lk(2-9) read_Tables_region[OF tc H(1) rg(1)] read_Joins_region[OF jc H(1) rg(2)]
      ur[unfolded unions_read_as_def, rule_format, OF H(1) rg(3)]
    by simp
  then show "read_SelectQuery (Suc n) H (L + 8) = Some v" by simp
qed

lemma SelectQuery_clone_reads:
  "prefix B h \<Longrightarrow> read_SelectQuery n B q = Some v \<Longrightarrow>
     \<exists>c X. SelectQuery_clone n h q = Some (c, h @ X) \<and> reads_as B (length h) X n c v"
proof (induction n arbitrary: h q v)
  case 0
  then show ?case by simp
next
  case (Suc n)
  from SelectQuery_clone_step[OF Suc.IH Suc.prems] obtain X where
    "SelectQuery_clone (Suc n) h q = Some (length h + 8, h @ X)" "cloned B (length h) n v X"
    by blast
  then show ?case using cloned_reads_as by blast
qed

lemma SelectQuery_clone_cloned:
  assumes "prefix B h" "read_SelectQuery (Suc n) B q = Some v"
  shows "\<exists>X. SelectQuery_clone (Suc n) h q = Some (length h + 8, h @ X) \<and> cloned B (length h) n v X"
  using SelectQuery_clone_step[OF SelectQuery_clone_reads assms] .

lemmas with_defs = with_tables_def with_joins_def with_fields_def with_where_def with_having_def
  with_limit_def with_offset_def with_orderBy_def with_groupBy_def with_unionQueries_def

lemma list_update_Cons_pos: "0 < i \<Longrightarrow> (x # xs)[i := y] = x # xs[i - 1 := y]"
  by (cases i) simp_all

lemma region_at_self: "region_at (length h) X (h @ X)"
  by (simp add: region_at_def)

lemmas lookup_self = lookup_clone_cells[OF region_at_self]

lemma push_clone_cells:
  "push_fields (length h + 8) xs (h @ clone_cells (length h) Tc Jc v U us') =
     Some (h @ clone_cells (length h) Tc Jc (with_fields (fields_of v @ xs) v) U us')"
  "push_where (length h + 8) ys (h @ clone_cells (length h) Tc Jc v U us') =
     Some (h @ clone_cells (length h) Tc Jc (with_where (where_of v @ ys) v) U us')"
  "push_having (length h + 8) ys (h @ clone_cells (length h) Tc Jc v U us') =
     Some (h @ clone_cells (length h) Tc Jc (with_having (having_of v @ ys) v) U us')"
  "push_orderBy (length h + 8) zs (h @ clone_cells (length h) Tc Jc v U us') =
     Some (h @ clone_cells (length h) Tc Jc (with_orderBy (orderBy_of v @ zs) v) U us')"
  "push_groupBy (length h + 8) gs (h @ clone_cells (length h) Tc Jc v U us') =
     Some (h @ clone_cells (length h) Tc Jc (with_groupBy (groupBy_of v @ gs) v) U us')"
  "push_unionQueries (length h + 8) us (h @ clone_cells (length h) Tc Jc v U us') =
     Some (h @ clone_cells (length h) Tc Jc v U (us' @ us))"
  unfolding push_fields_def push_where_def push_having_def push_orderBy_def push_groupBy_def
    push_unionQueries_def getQuery_def getFieldArray_def getConditionArray_def getOrderArray_def
    getStringArray_def getUnionArray_def
  by (simp_all add: lookup_self)
     (simp_all add: clone_cells_def list_update_append list_update_Cons_pos with_defs)

lemma update_clone_cells:
  "update_query (length h + 8) (\<lambda>obj. obj\<lparr>limit_field := l\<rparr>) (h @ clone_cells (length h) Tc Jc v U us') =
     Some (h @ clone_cells (length h) Tc Jc (with_limit l v) U us')"
  "update_query (length h + 8) (\<lambda>obj. obj\<lparr>offset_field := l\<rparr>) (h @ clone_cells (length h) Tc Jc v U us') =
     Some (h @ clone_cells (length h) Tc Jc (with_offset l v) U us')"
  unfolding update_query_def getQuery_def
  by (simp_all add: lookup_self)
     (simp_all add: clone_cells_def list_update_append list_update_Cons_pos with_defs)

lemma clonedI:
  assumes "list_all2 (cell_reads_Table B n) Tc (tables_of v)"
    "list_all2 (cell_reads_Join B n) Jc (joins_of v)"
    "unions_read_as B (L + 16 + length Tc + length Jc) U n us' (unionQueries_of v)"
  shows "cloned B L n v (clone_cells L Tc Jc v U us')"
  unfolding cloned_def
  by (intro exI[of _ Tc] exI[of _ Jc] exI[of _ U] exI[of _ us'] conjI refl assms)

lemma cloned_with:
  assumes "list_all2 (cell_reads_Table B n) Tc (tables_of v)"
    "list_all2 (cell_reads_Join B n) Jc (joins_of v)"
    "unions_read_as B (L + 16 + length Tc + length Jc) U n us' (unionQueries_of v)"
  shows "cloned B L n (with_fields a v) (clone_cells L Tc Jc (with_fields a v) U us')"
    "cloned B L n (with_where b v) (clone_cells L Tc Jc (with_where b v) U us')"
    "cloned B L n (with_having b v) (clone_cells L Tc Jc (with_having b v) U us')"
    "cloned B L n (with_limit c v) (clone_cells L Tc Jc (with_limit c v) U us')"
    "cloned B L n (with_offset c v) (clone_cells L Tc Jc (with_offset c v) U us')"
    "cloned B L n (with_orderBy d v) (clone_cells L Tc Jc (with_orderBy d v) U us')"
    "cloned B L n (with_groupBy e v) (clone_cells L Tc Jc (with_groupBy e v) U us')"
  using assms by (auto intro!: clonedI simp: with_defs)

lemma SelectQuery_cloneE:
  assumes "read_SelectQuery (Suc n) h q = Some v"
  obtains Tc Jc U us' where
    "SelectQuery_clone (Suc n) h q = Some (length h + 8, h @ clone_cells (length h) Tc Jc v U us')"
    "list_all2 (cell_reads_Table h n) Tc (tables_of v)"
    "list_all2 (cell_reads_Join h n) Jc (joins_of v)"
    "unions_read_as h (length h + 16 + length Tc + length Jc) U n us' (unionQueries_of v)"
  using SelectQuery_clone_cloned[OF prefix_order.refl assms] unfolding cloned_def by blast

lemma cloned_read_self:
  assumes "cloned h (length h) n v X"
  shows "read_SelectQuery (Suc n) (h @ X) (length h + 8) = Some v"
  using cloned_reads_as[OF assms] region_at_self[of h X]
  by (simp add: reads_as_def prefix_def)

lemma SelectBaseQuery_addFields_cloned:
  assumes "read_SelectQuery (Suc n) h q = Some v"
  shows "\<exists>X. SelectBaseQuery_addFields (Suc n) h q fs = Some (length h + 8, h @ X) \<and>
    cloned h (length h) n (with_fields (fields_of v @ fs) v) X"
proof -
  from assms obtain Tc Jc U us' where
    c: "SelectQuery_clone (Suc n) h q = Some (length h + 8, h @ clone_cells (length h) Tc Jc v U us')"
    and f: "list_all2 (cell_reads_Table h n) Tc (tables_of v)"
      "list_all2 (cell_reads_Join h n) Jc (joins_of v)"
      "unions_read_as h (length h + 16 + length Tc + length Jc) U n us' (unionQueries_of v)"
    by (rule SelectQuery_cloneE)
  show ?thesis
    unfolding SelectBaseQuery_addFields_def c
    using cloned_with(1)[OF f] by (simp add: push_clone_cells)
qed

lemma SelectQuery_where_cloned:
  assumes "read_SelectQuery (Suc n) h q = Some v"
  shows "\<exists>X. SelectQuery_where (Suc n) h q x = Some (length h + 8, h @ X) \<and>
    cloned h (length h) n (with_where (where_of v @ [x]) v) X"
proof -
  from assms obtain Tc Jc U us' where
    c: "SelectQuery_clone (Suc n) h q = Some (length h + 8, h @ clone_cells (length h) Tc Jc v U us')"
    and f: "list_all2 (cell_reads_Table h n) Tc (tables_of v)"
      "list_all2 (cell_reads_Join h n) Jc (joins_of v)"
      "unions_read_as h (length h + 16 + length Tc + length Jc) U n us' (unionQueries_of v)"
    by (rule SelectQuery_cloneE)
  show ?thesis
    unfolding SelectQuery_where_def c
    using cloned_with(2)[OF f] by (simp add: push_clone_cells)
qed

lemma SelectQuery_having_cloned:
  assumes "read_SelectQuery (Suc n) h q = Some v"
  shows "\<exists>X. SelectQuery_having (Suc n) h q x = Some (length h + 8, h @ X) \<and>
    cloned h (length h) n (with_having (having_of v @ [x]) v) X"
proof -
  from assms obtain Tc Jc U us' where
    c: "SelectQuery_clone (Suc n) h q = Some (length h + 8, h @ clone_cells (length h) Tc Jc v U us')"
    and f: "list_all2 (cell_reads_Table h n) Tc (tables_of v)"
      "list_all2 (cell_reads_Join h n) Jc (joins_of v)"
      "unions_read_as h (length h + 16 + length Tc + length Jc) U n us' (unionQueries_of v)"
    by (rule SelectQuery_cloneE)
  show ?thesis
    unfolding SelectQuery_having_def c
    using cloned_with(3)[OF f] by (simp add: push_clone_cells)
qed

lemma SelectQuery_clearLimit_cloned:
  assumes "read_SelectQuery (Suc n) h q = Some v"
  shows "\<exists>X. SelectQuery_clearLimit (Suc n) h q  = Some (length h + 8, h @ X) \<and>
    cloned h (length h) n (with_limit None v) X"
proof -
  from assms obtain Tc Jc U us' where
    c: "SelectQuery_clone (Suc n) h q = Some (length h + 8, h @ clone_cells (length h) Tc Jc v U us')"
    and f: "list_all2 (cell_reads_Table h n) Tc (tables_of v)"
      "list_all2 (cell_reads_Join h n) Jc (joins_of v)"
      "unions_read_as h (length h + 16 + length Tc + length Jc) U n us' (unionQueries_of v)"
    by (rule SelectQuery_cloneE)
  show ?thesis
    unfolding SelectQuery_clearLimit_def c
    using cloned_with(4)[OF f] by (simp add: update_clone_cells)
qed

lemma SelectQuery_limit_cloned:
  assumes "read_SelectQuery (Suc n) h q = Some v"
  shows "\<exists>X. SelectQuery_limit (Suc n) h q k = Some (length h + 8, h @ X) \<and>
    cloned h (length h) n (with_limit (Some k) v) X"
proof -
  from assms obtain Tc Jc U us' where
    c: "SelectQuery_clone (Suc n) h q = Some (length h + 8, h @ clone_cells (length h) Tc Jc v U us')"
    and f: "list_all2 (cell_reads_Table h n) Tc (tables_of v)"
      "list_all2 (cell_reads_Join h n) Jc (joins_of v)"
      "unions_read_as h (length h + 16 + length Tc + length Jc) U n us' (unionQueries_of v)"
    by (rule SelectQuery_cloneE)
  show ?thesis
    unfolding SelectQuery_limit_def c
    using cloned_with(4)[OF f] by (simp add: update_clone_cells)
qed

lemma SelectQuery_clearOffset_cloned:
  assumes "read_SelectQuery (Suc n) h q = Some v"
  shows "\<exists>X. SelectQuery_clearOffset (Suc n) h q  = Some (length h + 8, h @ X) \<and>
    cloned h (length h) n (with_offset None v) X"
proof -
  from assms obtain Tc Jc U us' where
    c: "SelectQuery_clone (Suc n) h q = Some (length h + 8, h @ clone_cells (length h) Tc Jc v U us')"
    and f: "list_all2 (cell_reads_Table h n) Tc (tables_of v)"
      "list_all2 (cell_reads_Join h n) Jc (joins_of v)"
      "unions_read_as h (length h + 16 + length Tc + length Jc) U n us' (unionQueries_of v)"
    by (rule SelectQuery_cloneE)
  show ?thesis
    unfolding SelectQuery_clearOffset_def c
    using cloned_with(5)[OF f] by (simp add: update_clone_cells)
qed

lemma SelectQuery_offset_cloned:
  assumes "read_SelectQuery (Suc n) h q = Some v"
  shows "\<exists>X. SelectQuery_offset (Suc n) h q k = Some (length h + 8, h @ X) \<and>
    cloned h (length h) n (with_offset (Some k) v) X"
proof -
  from assms obtain Tc Jc U us' where
    c: "SelectQuery_clone (Suc n) h q = Some (length h + 8, h @ clone_cells (length h) Tc Jc v U us')"
    and f: "list_all2 (cell_reads_Table h n) Tc (tables_of v)"
      "list_all2 (cell_reads_Join h n) Jc (joins_of v)"
      "unions_read_as h (length h + 16 + length Tc + length Jc) U n us' (unionQueries_of v)"
    by (rule SelectQuery_cloneE)
  show ?thesis
    unfolding SelectQuery_offset_def c
    using cloned_with(5)[OF f] by (simp add: update_clone_cells)
qed

lemma SelectQuery_orderBy_cloned:
  assumes "read_SelectQuery (Suc n) h q = Some v"
  shows "\<exists>X. SelectQuery_orderBy (Suc n) h q f d = Some (length h + 8, h @ X) \<and>
    cloned h (length h) n (with_orderBy (orderBy_of v @ [Order f (case d of None \<Rightarrow> ASC | Some d' \<Rightarrow> d')]) v) X"
proof -
  from assms obtain Tc Jc U us' where
    c: "SelectQuery_clone (Suc n) h q = Some (length h + 8, h @ clone_cells (length h) Tc Jc v U us')"
    and f: "list_all2 (cell_reads_Table h n) Tc (tables_of v)"
      "list_all2 (cell_reads_Join h n) Jc (joins_of v)"
      "unions_read_as h (length h + 16 + length Tc + length Jc) U n us' (unionQueries_of v)"
    by (rule SelectQuery_cloneE)
  show ?thesis
    unfolding SelectQuery_orderBy_def c
    using cloned_with(6)[OF f] by (simp add: push_clone_cells)
qed

lemma SelectQuery_groupBy_cloned:
  assumes "read_SelectQuery (Suc n) h q = Some v"
  shows "\<exists>X. SelectQuery_groupBy (Suc n) h q gs = Some (length h + 8, h @ X) \<and>
    cloned h (length h) n (with_groupBy (groupBy_of v @ gs) v) X"
proof -
  from assms obtain Tc Jc U us' where
    c: "SelectQuery_clone (Suc n) h q = Some (length h + 8, h @ clone_cells (length h) Tc Jc v U us')"
    and f: "list_all2 (cell_reads_Table h n) Tc (tables_of v)"
      "list_all2 (cell_reads_Join h n) Jc (joins_of v)"
      "unions_read_as h (length h + 16 + length Tc + length Jc) U n us' (unionQueries_of v)"
    by (rule SelectQuery_cloneE)
  show ?thesis
    unfolding SelectQuery_groupBy_def c
    using cloned_with(7)[OF f] by (simp add: push_clone_cells)
qed

lemma clone_cells_unions_irrelevant:
  "clone_cells L Tc Jc (with_unionQueries x v) U us' = clone_cells L Tc Jc v U us'"
  by (simp add: clone_cells_def with_defs)

lemma those_map_append:
  "those (map f xs) = Some vs \<Longrightarrow> those (map f ys) = Some ws \<Longrightarrow>
   those (map f (xs @ ys)) = Some (vs @ ws)"
  unfolding those_map_conv by (rule list_all2_appendI)

lemma SelectQuery_union_cloned:
  assumes "read_SelectQuery (Suc n) h q = Some v" "read_SelectQuery n h b = Some bv"
  shows "\<exists>X. SelectQuery_union (Suc n) h q b ty = Some (length h + 8, h @ X) \<and>
    cloned h (length h) n
      (with_unionQueries (unionQueries_of v @
         [UnionQuery bv (case ty of None \<Rightarrow> UNION | Some t \<Rightarrow> t)]) v) X"
proof -
  from assms(1) obtain Tc Jc U us' where
    c: "SelectQuery_clone (Suc n) h q = Some (length h + 8, h @ clone_cells (length h) Tc Jc v U us')"
    and f: "list_all2 (cell_reads_Table h n) Tc (tables_of v)"
      "list_all2 (cell_reads_Join h n) Jc (joins_of v)"
      "unions_read_as h (length h + 16 + length Tc + length Jc) U n us' (unionQueries_of v)"
    by (rule SelectQuery_cloneE)
  let ?t = "case ty of None \<Rightarrow> UNION | Some t \<Rightarrow> t"
  let ?v = "with_unionQueries (unionQueries_of v @ [UnionQuery bv ?t]) v"
  have u: "unions_read_as h (length h + 16 + length Tc + length Jc) U n (us' @ [(b, ?t)])
      (unionQueries_of v @ [UnionQuery bv ?t])"
    unfolding unions_read_as_def
  proof (intro allI impI)
    fix H assume H: "prefix h H" "region_at (length h + 16 + length Tc + length Jc) U H"
    have "those (map (read_Union (read_SelectQuery n H)) us') = Some (unionQueries_of v)"
      using f(3) H by (simp add: unions_read_as_def)
    moreover have "read_SelectQuery n H b = Some bv"
      using read_SelectQuery_mono[OF H(1) order_refl assms(2)] .
    then have "those (map (read_Union (read_SelectQuery n H)) [(b, ?t)]) = Some [UnionQuery bv ?t]"
      by (simp add: read_Union_def)
    ultimately show "those (map (read_Union (read_SelectQuery n H)) (us' @ [(b, ?t)])) =
        Some (unionQueries_of v @ [UnionQuery bv ?t])"
      by (rule those_map_append)
  qed
  have "cloned h (length h) n ?v (clone_cells (length h) Tc Jc ?v U (us' @ [(b, ?t)]))"
    using f(1,2) u by (intro clonedI) (simp_all add: with_defs)
  then show ?thesis
    unfolding SelectQuery_union_def c
    by (simp add: push_clone_cells clone_cells_unions_irrelevant)
qed

lemma lookup_update_append:
  "k < length X \<Longrightarrow> lookup (X[i := z] @ W) k = Some (if k = i then z else X ! k)"
  by (simp add: lookup_def nth_append)

lemma lookup_past:
  "lookup (X @ W) (length X + k) = lookup W k"
  by (simp add: lookup_append)

lemma lookup_append_base:
  "lookup (h @ Y) (length h + a) = lookup Y a"
  "lookup (h @ Y) (length h + a + b) = lookup Y (a + b)"
  "lookup (h @ Y) (length h + a + b + c) = lookup Y (a + b + c)"
  "lookup (h @ Y) (length h + a + b + c + d) = lookup Y (a + b + c + d)"
  by (simp_all add: lookup_append add.assoc)

lemma region_at_update_append:
  assumes "region_at k R X" "i < k \<or> k + length R \<le> i"
  shows "region_at k R (X[i := z] @ W)"
proof -
  from assms(1) have l: "k + length R \<le> length X \<or> R = []"
  proof (cases "R = []")
    case True
    then show ?thesis by simp
  next
    case False
    from assms(1) have "min (length X - k) (length R) = length R"
      unfolding region_at_def by (auto dest!: arg_cong[where f = length])
    with False have "0 < length R" "length R \<le> length X - k" by auto
    then show ?thesis by linarith
  qed
  show ?thesis
  proof (cases "R = []")
    case True
    then show ?thesis by (simp add: region_at_def)
  next
    case False
    with l have le: "k + length R \<le> length X" by simp
    have "take (length R) (drop k (X[i := z] @ W)) = take (length R) (drop k (X[i := z]))"
      using le by simp
    also have "\<dots> = take (length R) (drop k X)"
      using assms(2) by (auto simp: drop_update_swap take_update_cancel)
    finally show ?thesis using assms(1) by (simp add: region_at_def)
  qed
qed

lemma region_at_base:
  "region_at (length h + a) R (h @ Y) = region_at a R Y"
  "region_at (length h + a + b) R (h @ Y) = region_at (a + b) R Y"
  "region_at (length h + a + b + c) R (h @ Y) = region_at (a + b + c) R Y"
  by (simp_all add: region_at_def add.assoc)

text \<open>The element regions of a clone survive a write outside them and an append.\<close>

lemma regions_modified:
  assumes "i < 9 \<or> i = 9 + length Tc \<or>
      (10 + length Tc + length Jc \<le> i \<and> i < 16 + length Tc + length Jc) \<or>
      16 + length Tc + length Jc + length U \<le> i"
  shows "region_at (length h + 9) Tc (h @ (clone_cells L Tc Jc v U us')[i := z] @ W)"
    "region_at (length h + 10 + length Tc) Jc (h @ (clone_cells L Tc Jc v U us')[i := z] @ W)"
    "region_at (length h + 16 + length Tc + length Jc) U (h @ (clone_cells L Tc Jc v U us')[i := z] @ W)"
  unfolding region_at_base
  using assms
  by (auto intro!: region_at_update_append region_clone_cells)

lemma lookup_modified_clone:
  "lookup (h @ (clone_cells L Tc Jc v U us')[i := z] @ W) (length h + 8) =
     Some (if 8 = i then z else clone_cells L Tc Jc v U us' ! 8)"
  "lookup (h @ (clone_cells L Tc Jc v U us')[i := z] @ W) (length h + 9 + length Tc) =
     Some (if 9 + length Tc = i then z else TableArray (addrs (L + 9) (length Tc)))"
  "lookup (h @ (clone_cells L Tc Jc v U us')[i := z] @ W) (length h + 10 + length Tc + length Jc) =
     Some (if 10 + length Tc + length Jc = i then z else JoinArray (addrs (L + 10 + length Tc) (length Jc)))"
  "lookup (h @ (clone_cells L Tc Jc v U us')[i := z] @ W) (length h + 11 + length Tc + length Jc) =
     Some (if 11 + length Tc + length Jc = i then z else FieldArray (fields_of v))"
  "lookup (h @ (clone_cells L Tc Jc v U us')[i := z] @ W) (length h + 12 + length Tc + length Jc) =
     Some (if 12 + length Tc + length Jc = i then z else ConditionArray (where_of v))"
  "lookup (h @ (clone_cells L Tc Jc v U us')[i := z] @ W) (length h + 13 + length Tc + length Jc) =
     Some (if 13 + length Tc + length Jc = i then z else ConditionArray (having_of v))"
  "lookup (h @ (clone_cells L Tc Jc v U us')[i := z] @ W) (length h + 14 + length Tc + length Jc) =
     Some (if 14 + length Tc + length Jc = i then z else OrderArray (orderBy_of v))"
  "lookup (h @ (clone_cells L Tc Jc v U us')[i := z] @ W) (length h + 15 + length Tc + length Jc) =
     Some (if 15 + length Tc + length Jc = i then z else StringArray (groupBy_of v))"
  "lookup (h @ (clone_cells L Tc Jc v U us')[i := z] @ W) (length h + 16 + length Tc + length Jc + length U) =
     Some (if 16 + length Tc + length Jc + length U = i then z else UnionArray us')"
  unfolding lookup_append_base
  by (simp_all add: lookup_update_append length_clone_cells nth_clone_cells)

lemma lookup_new_clone:
  "lookup (h @ (clone_cells L Tc Jc v U us')[i := z] @ W)
     (length h + 17 + length Tc + length Jc + length U) = lookup W 0"
  "lookup (h @ (clone_cells L Tc Jc v U us')[i := z] @ W)
     (length h + 17 + length Tc + length Jc + length U + j) = lookup W j"
  by (simp_all add: lookup_append length_clone_cells)

lemma cell_reads_Table_fuel:
  "cell_reads_Table B n c tv \<Longrightarrow> n \<le> m \<Longrightarrow> cell_reads_Table B m c tv"
  unfolding cell_reads_Table_def
  using read_SelectQuery_mono[OF prefix_order.refl, of n m B] by blast

lemma read_Table_fuel:
  "read_Table (read_SelectQuery n B) B t = Some tv \<Longrightarrow> n \<le> m \<Longrightarrow>
   read_Table (read_SelectQuery m B) B t = Some tv"
  using read_Table_mono[OF prefix_order.refl, of "read_SelectQuery n B" "read_SelectQuery m B" B t tv]
    read_SelectQuery_mono[OF prefix_order.refl, of n m B] by blast

lemma cell_reads_Join_fuel:
  "cell_reads_Join B n c jv \<Longrightarrow> n \<le> m \<Longrightarrow> cell_reads_Join B m c jv"
  unfolding cell_reads_Join_def using read_Table_fuel by blast

lemma unions_read_as_fuel:
  assumes "unions_read_as B L U n us uvs" "n \<le> m"
  shows "unions_read_as B L U m us uvs"
  unfolding unions_read_as_def
proof (intro allI impI)
  fix H assume H: "prefix B H" "region_at L U H"
  then have "those (map (read_Union (read_SelectQuery n H)) us) = Some uvs"
    using assms(1) by (simp add: unions_read_as_def)
  then show "those (map (read_Union (read_SelectQuery m H)) us) = Some uvs"
    unfolding those_map_conv
    using read_Union_mono[of "read_SelectQuery n H" "read_SelectQuery m H"]
      read_SelectQuery_mono[OF prefix_order.refl assms(2), of H]
    by (elim list_all2_mono) blast
qed

text \<open>The elements of a clone, read in a store that changed one cell outside them.\<close>

lemma elements_modified:
  assumes f: "list_all2 (cell_reads_Table h n) Tc (tables_of v)"
      "list_all2 (cell_reads_Join h n) Jc (joins_of v)"
      "unions_read_as h (length h + 16 + length Tc + length Jc) U n us' (unionQueries_of v)"
    and i: "i < 9 \<or> i = 9 + length Tc \<or>
      (10 + length Tc + length Jc \<le> i \<and> i < 16 + length Tc + length Jc) \<or>
      16 + length Tc + length Jc + length U \<le> i"
    and m: "n \<le> m"
    and H: "H = h @ (clone_cells (length h) Tc Jc v U us')[i := z] @ W"
  shows "those (map (read_Table (read_SelectQuery m H) H) (addrs (length h + 9) (length Tc))) =
      Some (tables_of v)"
    and "those (map (read_Join (read_SelectQuery m H) H) (addrs (length h + 10 + length Tc) (length Jc))) =
      Some (joins_of v)"
    and "those (map (read_Union (read_SelectQuery m H)) us') = Some (unionQueries_of v)"
proof -
  have p: "prefix h H" unfolding H by simp
  note rg = regions_modified[OF i, of h "length h" v us' z W, folded H]
  show "those (map (read_Table (read_SelectQuery m H) H) (addrs (length h + 9) (length Tc))) =
      Some (tables_of v)"
    using read_Tables_region[OF list_all2_mono[OF f(1) cell_reads_Table_fuel[OF _ m]] p rg(1)] .
  show "those (map (read_Join (read_SelectQuery m H) H) (addrs (length h + 10 + length Tc) (length Jc))) =
      Some (joins_of v)"
    using read_Joins_region[OF list_all2_mono[OF f(2) cell_reads_Join_fuel[OF _ m]] p rg(2)] .
  show "those (map (read_Union (read_SelectQuery m H)) us') = Some (unionQueries_of v)"
    using unions_read_as_fuel[OF f(3) m] p rg(3) by (simp add: unions_read_as_def)
qed

lemma clone_object_sel:
  "tables_ref (clone_object L t j u v) = L + 9 + t"
  "joins_ref (clone_object L t j u v) = L + 10 + t + j"
  "fields_ref (clone_object L t j u v) = L + 11 + t + j"
  "where_ref (clone_object L t j u v) = L + 12 + t + j"
  "having_ref (clone_object L t j u v) = L + 13 + t + j"
  "limit_field (clone_object L t j u v) = limit_of v"
  "offset_field (clone_object L t j u v) = offset_of v"
  "orderBy_ref (clone_object L t j u v) = L + 14 + t + j"
  "groupBy_ref (clone_object L t j u v) = L + 15 + t + j"
  "unionQueries_ref (clone_object L t j u v) = L + 16 + t + j + u"
  by (simp_all add: clone_object_def)

lemma nth_clone_object:
  "clone_cells L Tc Jc v U us' ! 8 =
     SelectQueryObject (clone_object L (length Tc) (length Jc) (length U) v)"
  by (simp add: nth_clone_cells clone_object_def)

lemma update_query_clone:
  "update_query (length h + 8) f (h @ clone_cells L Tc Jc v U us' @ W) =
     Some (h @ (clone_cells L Tc Jc v U us')
        [8 := SelectQueryObject (f (clone_object L (length Tc) (length Jc) (length U) v))] @ W)"
proof -
  have "lookup (clone_cells L Tc Jc v U us' @ W) 8 =
      Some (SelectQueryObject (clone_object L (length Tc) (length Jc) (length U) v))"
    by (simp add: lookup_append length_clone_cells nth_clone_object)
  from update_query_append[OF this, of h f] show ?thesis
    by (simp add: list_update_append length_clone_cells)
qed

lemma SelectBaseQuery_fields_reads:
  assumes "read_SelectQuery (Suc n) h q = Some v"
  shows "\<exists>X. SelectBaseQuery_fields (Suc n) h q fs = Some (length h + 8, h @ X) \<and>
    read_SelectQuery (Suc n) (h @ X) (length h + 8) = Some (with_fields fs v)"
proof -
  from assms obtain Tc Jc U us' where
    c: "SelectQuery_clone (Suc n) h q = Some (length h + 8, h @ clone_cells (length h) Tc Jc v U us')"
    and f: "list_all2 (cell_reads_Table h n) Tc (tables_of v)"
      "list_all2 (cell_reads_Join h n) Jc (joins_of v)"
      "unions_read_as h (length h + 16 + length Tc + length Jc) U n us' (unionQueries_of v)"
    by (rule SelectQuery_cloneE)
  let ?obj = "(clone_object (length h) (length Tc) (length Jc) (length U) v)
      \<lparr>fields_ref := length h + 17 + length Tc + length Jc + length U\<rparr>"
  let ?X = "(clone_cells (length h) Tc Jc v U us')[8 := SelectQueryObject ?obj] @ [FieldArray fs]"
  have b: "SelectBaseQuery_fields (Suc n) h q fs = Some (length h + 8, h @ ?X)"
    unfolding SelectBaseQuery_fields_def c
    by (simp add: alloc_def update_query_clone length_clone_cells add.assoc)
  note el = elements_modified[OF f _ order_refl refl, of 8 "SelectQueryObject ?obj" "[FieldArray fs]"]
  have "read_SelectQuery (Suc n) (h @ ?X) (length h + 8) = Some (with_fields fs v)"
    using read_SelectQuery_SucI[where H = "h @ ?X" and c = "length h + 8" and obj = ?obj and n = n
          and ts = "addrs (length h + 9) (length Tc)" and tvs = "tables_of v"
          and js = "addrs (length h + 10 + length Tc) (length Jc)" and jvs = "joins_of v"
          and fs = fs and ws = "where_of v" and hs = "having_of v" and obs = "orderBy_of v"
          and gbs = "groupBy_of v" and us = us' and uvs = "unionQueries_of v"]
    by (simp add: lookup_modified_clone lookup_new_clone lookup_Cons el clone_object_sel with_defs)
  with b show ?thesis by blast
qed

lemma SelectQuery_removeOrderBy_reads:
  assumes "read_SelectQuery (Suc n) h q = Some v"
  shows "\<exists>X. SelectQuery_removeOrderBy (Suc n) h q = Some (length h + 8, h @ X) \<and>
    read_SelectQuery (Suc n) (h @ X) (length h + 8) = Some (with_orderBy [] v)"
proof -
  from assms obtain Tc Jc U us' where
    c: "SelectQuery_clone (Suc n) h q = Some (length h + 8, h @ clone_cells (length h) Tc Jc v U us')"
    and f: "list_all2 (cell_reads_Table h n) Tc (tables_of v)"
      "list_all2 (cell_reads_Join h n) Jc (joins_of v)"
      "unions_read_as h (length h + 16 + length Tc + length Jc) U n us' (unionQueries_of v)"
    by (rule SelectQuery_cloneE)
  let ?obj = "(clone_object (length h) (length Tc) (length Jc) (length U) v)
      \<lparr>orderBy_ref := length h + 17 + length Tc + length Jc + length U\<rparr>"
  let ?X = "(clone_cells (length h) Tc Jc v U us')[8 := SelectQueryObject ?obj] @ [OrderArray []]"
  have b: "SelectQuery_removeOrderBy (Suc n) h q = Some (length h + 8, h @ ?X)"
    unfolding SelectQuery_removeOrderBy_def c
    by (simp add: alloc_def update_query_clone length_clone_cells add.assoc)
  note el = elements_modified[OF f _ order_refl refl, of 8 "SelectQueryObject ?obj" "[OrderArray []]"]
  have "read_SelectQuery (Suc n) (h @ ?X) (length h + 8) = Some (with_orderBy [] v)"
    using read_SelectQuery_SucI[where H = "h @ ?X" and c = "length h + 8" and obj = ?obj and n = n
          and ts = "addrs (length h + 9) (length Tc)" and tvs = "tables_of v"
          and js = "addrs (length h + 10 + length Tc) (length Jc)" and jvs = "joins_of v"
          and fs = "fields_of (with_orderBy [] v)" and ws = "where_of v" and hs = "having_of v"
          and obs = "orderBy_of (with_orderBy [] v)" and gbs = "groupBy_of (with_orderBy [] v)"
          and us = us' and uvs = "unionQueries_of v"]
    by (simp add: lookup_modified_clone lookup_new_clone lookup_Cons el clone_object_sel with_defs)
  with b show ?thesis by blast
qed

lemma SelectQuery_removeGroupBy_reads:
  assumes "read_SelectQuery (Suc n) h q = Some v"
  shows "\<exists>X. SelectQuery_removeGroupBy (Suc n) h q = Some (length h + 8, h @ X) \<and>
    read_SelectQuery (Suc n) (h @ X) (length h + 8) = Some (with_groupBy [] v)"
proof -
  from assms obtain Tc Jc U us' where
    c: "SelectQuery_clone (Suc n) h q = Some (length h + 8, h @ clone_cells (length h) Tc Jc v U us')"
    and f: "list_all2 (cell_reads_Table h n) Tc (tables_of v)"
      "list_all2 (cell_reads_Join h n) Jc (joins_of v)"
      "unions_read_as h (length h + 16 + length Tc + length Jc) U n us' (unionQueries_of v)"
    by (rule SelectQuery_cloneE)
  let ?obj = "(clone_object (length h) (length Tc) (length Jc) (length U) v)
      \<lparr>groupBy_ref := length h + 17 + length Tc + length Jc + length U\<rparr>"
  let ?X = "(clone_cells (length h) Tc Jc v U us')[8 := SelectQueryObject ?obj] @ [StringArray []]"
  have b: "SelectQuery_removeGroupBy (Suc n) h q = Some (length h + 8, h @ ?X)"
    unfolding SelectQuery_removeGroupBy_def c
    by (simp add: alloc_def update_query_clone length_clone_cells add.assoc)
  note el = elements_modified[OF f _ order_refl refl, of 8 "SelectQueryObject ?obj" "[StringArray []]"]
  have "read_SelectQuery (Suc n) (h @ ?X) (length h + 8) = Some (with_groupBy [] v)"
    using read_SelectQuery_SucI[where H = "h @ ?X" and c = "length h + 8" and obj = ?obj and n = n
          and ts = "addrs (length h + 9) (length Tc)" and tvs = "tables_of v"
          and js = "addrs (length h + 10 + length Tc) (length Jc)" and jvs = "joins_of v"
          and fs = "fields_of (with_groupBy [] v)" and ws = "where_of v" and hs = "having_of v"
          and obs = "orderBy_of (with_groupBy [] v)" and gbs = "groupBy_of (with_groupBy [] v)"
          and us = us' and uvs = "unionQueries_of v"]
    by (simp add: lookup_modified_clone lookup_new_clone lookup_Cons el clone_object_sel with_defs)
  with b show ?thesis by blast
qed

lemma region_at_clone_append:
  "region_at (length h) (clone_cells L Tc Jc v U us') (h @ clone_cells L Tc Jc v U us' @ W)"
  by (simp add: region_at_def)

lemma push_joins_clone:
  "push_joins (length h + 8) xs (h @ clone_cells (length h) Tc Jc v U us' @ W) =
     Some (h @ (clone_cells (length h) Tc Jc v U us')
        [10 + length Tc + length Jc :=
           JoinArray (addrs (length h + 10 + length Tc) (length Jc) @ xs)] @ W)"
  unfolding push_joins_def getQuery_def getJoinArray_def
  by (simp add: lookup_clone_cells[OF region_at_clone_append])
     (simp add: list_update_append length_clone_cells add.assoc)

lemma QueryBase_join_reads:
  assumes "read_SelectQuery (Suc n) h q = Some v"
    and "read_Table (read_SelectQuery n h) h t = Some tv"
  shows "\<exists>X. QueryBase_join (Suc n) h q t cnd ty = Some (length h + 8, h @ X) \<and>
    read_SelectQuery (Suc n) (h @ X) (length h + 8) =
      Some (with_joins (joins_of v @ [Join tv cnd (case ty of None \<Rightarrow> INNER | Some ty' \<Rightarrow> ty')]) v)"
proof -
  from assms(1) obtain Tc Jc U us' where
    c: "SelectQuery_clone (Suc n) h q = Some (length h + 8, h @ clone_cells (length h) Tc Jc v U us')"
    and f: "list_all2 (cell_reads_Table h n) Tc (tables_of v)"
      "list_all2 (cell_reads_Join h n) Jc (joins_of v)"
      "unions_read_as h (length h + 16 + length Tc + length Jc) U n us' (unionQueries_of v)"
    by (rule SelectQuery_cloneE)
  let ?ty = "case ty of None \<Rightarrow> INNER | Some ty' \<Rightarrow> ty'"
  let ?j = "length h + 17 + length Tc + length Jc + length U"
  let ?arr = "JoinArray (addrs (length h + 10 + length Tc) (length Jc) @ [?j])"
  let ?X = "(clone_cells (length h) Tc Jc v U us')[10 + length Tc + length Jc := ?arr] @
      [JoinObject t cnd ?ty]"
  let ?obj = "clone_object (length h) (length Tc) (length Jc) (length U) v"
  have b: "QueryBase_join (Suc n) h q t cnd ty = Some (length h + 8, h @ ?X)"
    unfolding QueryBase_join_def c
    by (simp add: new_Join_def alloc_def push_joins_clone length_clone_cells add.assoc)
  note el = elements_modified[OF f _ order_refl refl, of "10 + length Tc + length Jc" ?arr
      "[JoinObject t cnd ?ty]"]
  have p: "prefix h (h @ ?X)" by simp
  have nj: "read_Join (read_SelectQuery n (h @ ?X)) (h @ ?X) ?j = Some (Join tv cnd ?ty)"
    using read_Table_mono[OF p _ assms(2), of "read_SelectQuery n (h @ ?X)"]
      read_SelectQuery_mono[OF p order_refl]
    by (simp add: read_Join_def getJoin_def lookup_new_clone lookup_Cons)
  have js: "those (map (read_Join (read_SelectQuery n (h @ ?X)) (h @ ?X))
      (addrs (length h + 10 + length Tc) (length Jc) @ [?j])) = Some (joins_of v @ [Join tv cnd ?ty])"
    by (rule those_map_append) (simp_all add: el nj)
  have "read_SelectQuery (Suc n) (h @ ?X) (length h + 8) =
      Some (with_joins (joins_of v @ [Join tv cnd ?ty]) v)"
    using read_SelectQuery_SucI[where H = "h @ ?X" and c = "length h + 8" and obj = ?obj and n = n
          and ts = "addrs (length h + 9) (length Tc)" and tvs = "tables_of v"
          and js = "addrs (length h + 10 + length Tc) (length Jc) @ [?j]"
          and jvs = "joins_of v @ [Join tv cnd ?ty]"
          and fs = "fields_of v" and ws = "where_of v" and hs = "having_of v"
          and obs = "orderBy_of v" and gbs = "groupBy_of v"
          and us = us' and uvs = "unionQueries_of v"] js
    by (simp add: lookup_modified_clone lookup_new_clone lookup_Cons el clone_object_sel
        nth_clone_object with_defs)
  with b show ?thesis by blast
qed

lemma lookup_past0: "lookup (X @ W) (length X) = lookup W 0"
  by (simp add: lookup_append)

lemma QueryBase_from_name_reads:
  assumes "read_SelectQuery (Suc n) h q = Some v"
  shows "\<exists>X. QueryBase_from (Suc n) h q (Inl s) al = Some (length h + 8, h @ X) \<and>
    read_SelectQuery (Suc n) (h @ X) (length h + 8) = Some (with_tables [Table (Name s) al] v)"
proof -
  from assms obtain Tc Jc U us' where
    c: "SelectQuery_clone (Suc n) h q = Some (length h + 8, h @ clone_cells (length h) Tc Jc v U us')"
    and f: "list_all2 (cell_reads_Table h n) Tc (tables_of v)"
      "list_all2 (cell_reads_Join h n) Jc (joins_of v)"
      "unions_read_as h (length h + 16 + length Tc + length Jc) U n us' (unionQueries_of v)"
    by (rule SelectQuery_cloneE)
  let ?t = "length h + 17 + length Tc + length Jc + length U"
  let ?obj = "(clone_object (length h) (length Tc) (length Jc) (length U) v)
      \<lparr>tables_ref := ?t + 1\<rparr>"
  let ?W = "[TableObject (Inl s) al, TableArray [?t]]"
  let ?X = "(clone_cells (length h) Tc Jc v U us')[8 := SelectQueryObject ?obj] @ ?W"
  have b: "QueryBase_from (Suc n) h q (Inl s) al = Some (length h + 8, h @ ?X)"
    unfolding QueryBase_from_def c
    using update_query_clone[of h "\<lambda>obj. obj\<lparr>tables_ref := ?t + 1\<rparr>" "length h" Tc Jc v U us' ?W]
    by (simp add: new_Table_def alloc_def length_clone_cells add.assoc)
  note el = elements_modified[OF f _ order_refl refl, of 8 "SelectQueryObject ?obj" ?W]
  have la: "lookup (h @ ?X) (?t + 1) = Some (TableArray [?t])"
    unfolding lookup_new_clone by (simp add: lookup_Cons)
  have nt: "read_Table (read_SelectQuery n (h @ ?X)) (h @ ?X) ?t = Some (Table (Name s) al)"
    unfolding read_Table_def getTable_def lookup_new_clone by (simp add: lookup_Cons)
  have "read_SelectQuery (Suc n) (h @ ?X) (length h + 8) = Some (with_tables [Table (Name s) al] v)"
    using read_SelectQuery_SucI[where H = "h @ ?X" and c = "length h + 8" and obj = ?obj and n = n
          and ts = "[?t]" and tvs = "[Table (Name s) al]"
          and js = "addrs (length h + 10 + length Tc) (length Jc)" and jvs = "joins_of v"
          and fs = "fields_of v" and ws = "where_of v" and hs = "having_of v"
          and obs = "orderBy_of v" and gbs = "groupBy_of v"
          and us = us' and uvs = "unionQueries_of v"] nt la el
    by (simp add: lookup_modified_clone lookup_new_clone lookup_Cons clone_object_sel with_defs)
  with b show ?thesis by blast
qed

lemma QueryBase_from_query_reads:
  assumes "read_SelectQuery (Suc n) h q = Some v" and "read_SelectQuery (Suc n) h s = Some sv"
  shows "\<exists>X t src. QueryBase_from (Suc n) h q (Inr s) al = Some (length h + 8, h @ X) \<and>
    read_SelectQuery (Suc (Suc n)) (h @ X) (length h + 8) = Some (with_tables [Table (Sub sv) al] v) \<and>
    get_tables (h @ X) (length h + 8) = Some [t] \<and>
    getTable (h @ X) t = Some (Inr src, al) \<and> length h \<le> src \<and>
    read_SelectQuery (Suc n) (h @ X) src = Some sv"
proof -
  from assms(1) obtain Tc Jc U us' where
    c: "SelectQuery_clone (Suc n) h q = Some (length h + 8, h @ clone_cells (length h) Tc Jc v U us')"
    and f: "list_all2 (cell_reads_Table h n) Tc (tables_of v)"
      "list_all2 (cell_reads_Join h n) Jc (joins_of v)"
      "unions_read_as h (length h + 16 + length Tc + length Jc) U n us' (unionQueries_of v)"
    by (rule SelectQuery_cloneE)
  let ?X0 = "clone_cells (length h) Tc Jc v U us'"
  have p1: "prefix h (h @ ?X0)" by simp
  from SelectQuery_clone_cloned[OF p1 assms(2)] obtain X1 where
    c1: "SelectQuery_clone (Suc n) (h @ ?X0) s = Some (length (h @ ?X0) + 8, (h @ ?X0) @ X1)"
    and cl1: "cloned h (length (h @ ?X0)) n sv X1"
    by blast
  let ?L1 = "length h + 17 + length Tc + length Jc + length U"
  have l1: "length (h @ ?X0) = ?L1" by (simp add: length_clone_cells)
  let ?t = "?L1 + length X1"
  let ?obj = "(clone_object (length h) (length Tc) (length Jc) (length U) v)
      \<lparr>tables_ref := ?L1 + (length X1 + 1)\<rparr>"
  let ?W = "X1 @ [TableObject (Inr (?L1 + 8)) al, TableArray [?t]]"
  let ?X = "?X0[8 := SelectQueryObject ?obj] @ ?W"
  have b: "QueryBase_from (Suc n) h q (Inr s) al = Some (length h + 8, h @ ?X)"
    unfolding QueryBase_from_def c
    using update_query_clone[of h "\<lambda>obj. obj\<lparr>tables_ref := ?L1 + (length X1 + 1)\<rparr>"
        "length h" Tc Jc v U us' ?W]
    by (simp add: c1 new_Table_def alloc_def length_clone_cells add.assoc del: SelectQuery_clone.simps)
  note el = elements_modified[OF f _ le_SucI[OF order_refl] refl, of 8 "SelectQueryObject ?obj" ?W]
  have p: "prefix h (h @ ?X)" by simp
  have r1: "region_at ?L1 X1 (h @ ?X)"
    by (simp add: region_at_def length_clone_cells add.assoc)
  have src: "read_SelectQuery (Suc n) (h @ ?X) (?L1 + 8) = Some sv"
    using cloned_reads_as[OF cl1] p r1 unfolding l1 by (simp add: reads_as_def)
  have lt: "lookup (h @ ?X) ?t = Some (TableObject (Inr (?L1 + 8)) al)"
    unfolding lookup_new_clone lookup_past0 by (simp add: lookup_Cons)
  have la: "lookup (h @ ?X) (?L1 + (length X1 + 1)) = Some (TableArray [?t])"
    unfolding lookup_new_clone lookup_past by (simp add: lookup_Cons)
  have nt: "read_Table (read_SelectQuery (Suc n) (h @ ?X)) (h @ ?X) ?t = Some (Table (Sub sv) al)"
    using src lt by (simp add: read_Table_def getTable_def)
  have rd: "read_SelectQuery (Suc (Suc n)) (h @ ?X) (length h + 8) =
      Some (with_tables [Table (Sub sv) al] v)"
    using read_SelectQuery_SucI[where H = "h @ ?X" and c = "length h + 8" and obj = ?obj
          and n = "Suc n" and ts = "[?t]" and tvs = "[Table (Sub sv) al]"
          and js = "addrs (length h + 10 + length Tc) (length Jc)" and jvs = "joins_of v"
          and fs = "fields_of v" and ws = "where_of v" and hs = "having_of v"
          and obs = "orderBy_of v" and gbs = "groupBy_of v"
          and us = us' and uvs = "unionQueries_of v"] nt la el
    by (simp add: lookup_modified_clone lookup_new_clone lookup_Cons clone_object_sel with_defs)
  have gt: "get_tables (h @ ?X) (length h + 8) = Some [?t]"
    using la by (simp add: get_tables_def getQuery_def getTableArray_def lookup_modified_clone)
  have gT: "getTable (h @ ?X) ?t = Some (Inr (?L1 + 8), al)"
    using lt by (simp add: getTable_def)
  show ?thesis
    using b rd gt gT src by (intro exI[of _ ?X] exI[of _ ?t] exI[of _ "?L1 + 8"]) simp
qed

declare Table_fromJSON.simps [simp del] Join_fromJSON.simps [simp del]
  SelectQuery_fromJSON.simps [simp del]

lemma obind_Returns: "obind (Returns x) f = f x"
  by (simp add: obind_def)

lemma omap_map:
  "(\<And>x. x \<in> set xs \<Longrightarrow> f (h x) = Returns (k x)) \<Longrightarrow> omap f (map h xs) = Returns (map k xs)"
  by (induction xs) (simp_all add: obind_def)

lemma property_object:
  "k \<in> set node_keys \<Longrightarrow>
   property (JObject kvs) k = Returns (case map_of kvs k of Some v \<Rightarrow> v | None \<Rightarrow> JUndefined)"
  by simp

lemma keys_in [simp]:
  "''type'' \<in> set node_keys" "''source'' \<in> set node_keys" "''alias'' \<in> set node_keys"
  "''table'' \<in> set node_keys" "''condition'' \<in> set node_keys" "''joinType'' \<in> set node_keys"
  "''tables'' \<in> set node_keys" "''unionQueries'' \<in> set node_keys" "''joins'' \<in> set node_keys"
  "''fields'' \<in> set node_keys" "''where'' \<in> set node_keys" "''having'' \<in> set node_keys"
  "''limit'' \<in> set node_keys" "''offset'' \<in> set node_keys" "''orderBy'' \<in> set node_keys"
  "''groupBy'' \<in> set node_keys" "''query'' \<in> set node_keys" "''name'' \<in> set node_keys"
  "''field'' \<in> set node_keys" "''direction'' \<in> set node_keys"
  by (simp_all add: node_keys_def)

lemma Table_roundtrip: "Table_fromJSON cfj (Table_toJSON t) = Returns t"
proof (cases t)
  case (Table src al)
  show ?thesis
    unfolding Table
    by (subst Table_fromJSON.simps)
       (cases src; cases al;
        simp add: Table_toJSON_def TableSource_js_def optional_string_js_def obind_def)
qed

lemma as_JoinType_text: "as_JoinType (JString (JoinType_text ty)) = Returns ty"
  by (cases ty) (simp_all add: as_JoinType_def)

lemma as_UnionType_text: "as_UnionType (JString (UnionType_text ty)) = Returns ty"
  by (cases ty) (simp_all add: as_UnionType_def)

lemma as_Direction_text: "as_Direction (JString (Direction_text d)) = Returns d"
  by (cases d) (simp_all add: as_Direction_def)

lemma Join_roundtrip:
  assumes "\<And>c. cfj (ctj c) = Returns (g c)" "\<And>c. truthy (ctj c)"
  shows "Join_fromJSON cfj (Join_toJSON ctj j) = Returns (roundtrip_Join g j)"
proof (cases j)
  case (Join t c ty)
  show ?thesis
    unfolding Join
    by (subst Join_fromJSON.simps)
       (cases c; simp add: Join_toJSON_def obind_def Table_roundtrip as_JoinType_text assms)
qed

lemma SelectField_roundtrip: "as_SelectField (SelectField_js f) = Returns f"
  by (cases f; cases "field_alias f")
     (simp_all add: SelectField_js_def optional_string_js_def obind_def)

lemma Order_roundtrip: "as_Order (Order_js ord) = Returns ord"
  by (cases ord) (simp add: Order_js_def obind_def as_Direction_text)

lemma number_roundtrip: "as_optional_number (optional_number_js n) = Returns n"
  by (cases n) (simp_all add: optional_number_js_def)

lemma SelectQuery_roundtrip:
  assumes "\<And>c. cfj (ctj c) = Returns (g c)" "\<And>c. truthy (ctj c)"
  shows "SelectQuery_fromJSON cfj (SelectQuery_toJSON ctj q) = Returns (roundtrip_SelectQuery g q)"
  using assms
proof (induction ctj q rule: SelectQuery_toJSON.induct)
  case (1 ctj ts js fs ws hs lmt off obs gbs us)
  note cf = "1.prems"(1) and tr = "1.prems"(2)
  have t: "omap (Table_fromJSON cfj) (map Table_toJSON ts) = Returns (map (\<lambda>t. t) ts)"
    by (rule omap_map) (rule Table_roundtrip)
  have u: "omap (\<lambda>u. obind (property u ''type'') (\<lambda>ty.
              obind (property u ''query'') (\<lambda>q.
              obind (SelectQuery_fromJSON cfj q) (\<lambda>q'.
              obind (as_UnionType ty) (\<lambda>ty'.
              Returns (UnionQuery q' ty'))))))
          (map (\<lambda>u. JObject [(''type'', JString (UnionType_text (union_type u))),
                             (''query'', SelectQuery_toJSON ctj (query u))]) us) =
        Returns (map (\<lambda>u. UnionQuery (roundtrip_SelectQuery g (query u)) (union_type u)) us)"
  proof (rule omap_map)
    fix x assume "x \<in> set us"
    from "1.IH"[OF this cf tr]
    show "obind (property (JObject [(''type'', JString (UnionType_text (union_type x))),
                             (''query'', SelectQuery_toJSON ctj (query x))]) ''type'') (\<lambda>ty.
              obind (property (JObject [(''type'', JString (UnionType_text (union_type x))),
                             (''query'', SelectQuery_toJSON ctj (query x))]) ''query'') (\<lambda>q.
              obind (SelectQuery_fromJSON cfj q) (\<lambda>q'.
              obind (as_UnionType ty) (\<lambda>ty'.
              Returns (UnionQuery q' ty'))))) =
          Returns (UnionQuery (roundtrip_SelectQuery g (query x)) (union_type x))"
      by (simp add: obind_def as_UnionType_text)
  qed
  have j: "omap (Join_fromJSON cfj) (map (Join_toJSON ctj) js) = Returns (map (roundtrip_Join g) js)"
    by (rule omap_map) (rule Join_roundtrip[where cfj = cfj and ctj = ctj and g = g, OF cf tr])
  have w: "\<And>xs. omap cfj (map ctj xs) = Returns (map g xs)"
    by (rule omap_map) (rule cf)
  have f: "omap as_SelectField (map SelectField_js fs) = Returns (map (\<lambda>t. t) fs)"
    by (rule omap_map) (rule SelectField_roundtrip)
  have ob: "omap as_Order (map Order_js obs) = Returns (map (\<lambda>t. t) obs)"
    by (rule omap_map) (rule Order_roundtrip)
  have gb: "omap as_string (map JString gbs) = Returns (map (\<lambda>t. t) gbs)"
    by (rule omap_map) simp
  show ?case
    by (subst SelectQuery_fromJSON.simps)
       (simp add: obind_Returns falsy_default_def t u j w f ob gb number_roundtrip)
qed

lemma Join_toSQL_roundtrip:
  assumes "\<And>c. cts f (g c) = cts f c"
  shows "Join_toSQL num cts f (roundtrip_Join g j) = Join_toSQL num cts f j"
  by (cases j; cases "join_condition j") (simp_all add: assms)

lemma SelectQuery_toSQL_roundtrip:
  assumes "\<And>c. cts f (g c) = cts f c"
  shows "SelectQuery_toSQL num cts f (roundtrip_SelectQuery g q) = SelectQuery_toSQL num cts f q"
  using assms
proof (induction g q rule: roundtrip_SelectQuery.induct)
  case (1 g ts js fs ws hs lmt off obs gbs us)
  note gc = "1.prems"
  have j: "map (Join_toSQL num cts f) (map (roundtrip_Join g) js) = map (Join_toSQL num cts f) js"
    by (simp add: Join_toSQL_roundtrip[where cts = cts and f = f and g = g, OF gc])
  have w: "\<And>xs. map (cts f) (map g xs) = map (cts f) xs"
    by (simp add: gc)
  have u: "\<And>s0. foldl (\<lambda>sql unionQuery.
                  ''('' @ sql @ '') '' @ UnionType_text (union_type unionQuery) @
                  '' ('' @ SelectQuery_toSQL num cts f (query unionQuery) @ '')'') s0
             (map (\<lambda>u. UnionQuery (roundtrip_SelectQuery g (query u)) (union_type u)) us) =
           foldl (\<lambda>sql unionQuery.
                  ''('' @ sql @ '') '' @ UnionType_text (union_type unionQuery) @
                  '' ('' @ SelectQuery_toSQL num cts f (query unionQuery) @ '')'') s0 us"
    unfolding foldl_map
    by (rule foldl_cong) (simp_all add: "1.IH"[OF _ gc])
  show ?case
    unfolding roundtrip_SelectQuery.simps SelectQuery_toSQL.simps Let_def j w u
    by simp
qed

section \<open>Every builder call returns\<close>

lemma cloned_readable:
  assumes "\<exists>X. f = Some (length h + 8, h @ X) \<and> cloned h (length h) k v X"
  shows "\<exists>X. f = Some (length h + 8, h @ X) \<and>
    read_SelectQuery (Suc (Suc k)) (h @ X) (length h + 8) \<noteq> None"
proof -
  from assms obtain X where f: "f = Some (length h + 8, h @ X)" and c: "cloned h (length h) k v X"
    by blast
  from read_SelectQuery_mono[OF prefix_order.refl le_SucI[OF order_refl] cloned_read_self[OF c]] f
  show ?thesis by auto
qed

lemma reads_readable:
  assumes "\<exists>X. f = Some (length h + 8, h @ X) \<and>
    read_SelectQuery (Suc k) (h @ X) (length h + 8) = Some v"
  shows "\<exists>X. f = Some (length h + 8, h @ X) \<and>
    read_SelectQuery (Suc (Suc k)) (h @ X) (length h + 8) \<noteq> None"
proof -
  from assms obtain X where f: "f = Some (length h + 8, h @ X)"
    and r: "read_SelectQuery (Suc k) (h @ X) (length h + 8) = Some v"
    by blast
  from read_SelectQuery_mono[OF prefix_order.refl le_SucI[OF order_refl] r] f
  show ?thesis by auto
qed

lemma invoke_returns:
  assumes "read_SelectQuery n h this = Some v" and "call_ready n h m"
  shows "\<exists>X. invoke n h this m = Some (length h + 8, h @ X) \<and>
    read_SelectQuery (Suc n) (h @ X) (length h + 8) \<noteq> None"
proof -
  obtain k where n: "n = Suc k" using assms(1) by (cases n) simp_all
  note r = assms(1)[unfolded n]
  have jn: "\<exists>X. QueryBase_join (Suc k) h this t c ty = Some (length h + 8, h @ X) \<and>
      read_SelectQuery (Suc (Suc k)) (h @ X) (length h + 8) \<noteq> None"
    if "read_Table (read_SelectQuery k h) h t \<noteq> None" for t c ty
  proof -
    from that obtain tv where "read_Table (read_SelectQuery k h) h t = Some tv" by auto
    from QueryBase_join_reads[OF r this, of c ty] show ?thesis by (rule reads_readable)
  qed
  show ?thesis
  proof (cases m)
    case (CallFrom table al)
    show ?thesis
    proof (cases table)
      case (Inl s)
      from QueryBase_from_name_reads[OF r, of s al] show ?thesis
        unfolding CallFrom Inl n invoke.simps by (rule reads_readable)
    next
      case (Inr s)
      with assms(2) CallFrom n obtain sv where "read_SelectQuery (Suc k) h s = Some sv" by auto
      from QueryBase_from_query_reads[OF r this, of al] show ?thesis
        unfolding CallFrom Inr n invoke.simps by auto
    qed
  next
    case (CallJoin t c ty)
    with assms(2) n jn[of t c ty] show ?thesis by simp
  next
    case (CallInnerJoin t c)
    with assms(2) n jn[of t "Some c" "Some INNER"] show ?thesis
      by (simp add: QueryBase_innerJoin_def)
  next
    case (CallLeftJoin t c)
    with assms(2) n jn[of t "Some c" "Some LEFT"] show ?thesis
      by (simp add: QueryBase_leftJoin_def)
  next
    case (CallRightJoin t c)
    with assms(2) n jn[of t "Some c" "Some RIGHT"] show ?thesis
      by (simp add: QueryBase_rightJoin_def)
  next
    case (CallFullJoin t c)
    with assms(2) n jn[of t "Some c" "Some FULL"] show ?thesis
      by (simp add: QueryBase_fullJoin_def)
  next
    case (CallField nm al)
    from SelectBaseQuery_addFields_cloned[OF r, of "[SelectField nm al]"] show ?thesis
      unfolding CallField n invoke.simps SelectBaseQuery_field_def by (rule cloned_readable)
  next
    case (CallAddField nm al)
    from SelectBaseQuery_addFields_cloned[OF r, of "[SelectField nm al]"] show ?thesis
      unfolding CallAddField n invoke.simps SelectBaseQuery_addField_def by (rule cloned_readable)
  next
    case (CallAddFields fs)
    from SelectBaseQuery_addFields_cloned[OF r, of fs] show ?thesis
      unfolding CallAddFields n invoke.simps by (rule cloned_readable)
  next
    case CallRemoveFields
    from SelectBaseQuery_fields_reads[OF r, of "[]"] show ?thesis
      unfolding CallRemoveFields n invoke.simps SelectBaseQuery_removeFields_def
      by (rule reads_readable)
  next
    case (CallFields fs)
    from SelectBaseQuery_fields_reads[OF r, of fs] show ?thesis
      unfolding CallFields n invoke.simps by (rule reads_readable)
  next
    case (CallWhere c)
    from SelectQuery_where_cloned[OF r, of c] show ?thesis
      unfolding CallWhere n invoke.simps by (rule cloned_readable)
  next
    case (CallHaving c)
    from SelectQuery_having_cloned[OF r, of c] show ?thesis
      unfolding CallHaving n invoke.simps by (rule cloned_readable)
  next
    case CallClearLimit
    from SelectQuery_clearLimit_cloned[OF r] show ?thesis
      unfolding CallClearLimit n invoke.simps by (rule cloned_readable)
  next
    case (CallLimit x)
    from SelectQuery_limit_cloned[OF r, of x] show ?thesis
      unfolding CallLimit n invoke.simps by (rule cloned_readable)
  next
    case CallClearOffset
    from SelectQuery_clearOffset_cloned[OF r] show ?thesis
      unfolding CallClearOffset n invoke.simps by (rule cloned_readable)
  next
    case (CallOffset x)
    from SelectQuery_offset_cloned[OF r, of x] show ?thesis
      unfolding CallOffset n invoke.simps by (rule cloned_readable)
  next
    case (CallOrderBy f d)
    from SelectQuery_orderBy_cloned[OF r, of f d] show ?thesis
      unfolding CallOrderBy n invoke.simps by (rule cloned_readable)
  next
    case CallRemoveOrderBy
    from SelectQuery_removeOrderBy_reads[OF r] show ?thesis
      unfolding CallRemoveOrderBy n invoke.simps by (rule reads_readable)
  next
    case (CallGroupBy fs)
    from SelectQuery_groupBy_cloned[OF r, of fs] show ?thesis
      unfolding CallGroupBy n invoke.simps by (rule cloned_readable)
  next
    case CallRemoveGroupBy
    from SelectQuery_removeGroupBy_reads[OF r] show ?thesis
      unfolding CallRemoveGroupBy n invoke.simps by (rule reads_readable)
  next
    case (CallUnion b ty)
    with assms(2) n obtain bv where "read_SelectQuery k h b = Some bv" by auto
    from SelectQuery_union_cloned[OF r this, of ty] show ?thesis
      unfolding CallUnion n invoke.simps by (rule cloned_readable)
  qed
qed

lemma run_extends:
  "admissible h calls \<Longrightarrow>
     \<exists>qs X. run h calls = Some (qs, h @ X) \<and>
       list_all2 (\<lambda>(n, this, m) q. length h \<le> q \<and>
          read_SelectQuery (Suc n) (h @ X) q \<noteq> None) calls qs \<and>
       distinct qs"
proof (induction calls arbitrary: h)
  case Nil
  then show ?case by simp
next
  case (Cons c calls)
  obtain n this m where c: "c = (n, this, m)" by (cases c)
  from Cons.prems c obtain v where r: "read_SelectQuery n h this = Some v"
    and cr: "call_ready n h m" by auto
  from invoke_returns[OF r cr] obtain X where i: "invoke n h this m = Some (length h + 8, h @ X)"
    and rd: "read_SelectQuery (Suc n) (h @ X) (length h + 8) \<noteq> None"
    by blast
  with Cons.prems c have "admissible (h @ X) calls" by simp
  from Cons.IH[OF this] obtain qs Y where
    s: "run (h @ X) calls = Some (qs, (h @ X) @ Y)"
      "list_all2 (\<lambda>(n, this, m) q. length (h @ X) \<le> q \<and>
          read_SelectQuery (Suc n) ((h @ X) @ Y) q \<noteq> None) calls qs"
      "distinct qs" by blast
  have ru: "run h (c # calls) = Some ((length h + 8) # qs, h @ (X @ Y))"
    using i s(1) c by simp
  have "length X \<ge> 9"
  proof (rule ccontr)
    assume "\<not> 9 \<le> length X"
    then have "read_SelectQuery (Suc n) (h @ X) (length h + 8) = None"
      by (simp add: getQuery_def lookup_def)
    with rd show False by simp
  qed
  moreover have "\<forall>q \<in> set qs. length (h @ X) \<le> q"
    using s(2) by (induction rule: list_all2_induct) (auto simp del: read_SelectQuery.simps)
  ultimately have fresh: "length h + 8 \<notin> set qs" by auto
  obtain w where w: "read_SelectQuery (Suc n) (h @ X) (length h + 8) = Some w" using rd by auto
  have hd: "read_SelectQuery (Suc n) (h @ (X @ Y)) (length h + 8) \<noteq> None"
    using read_SelectQuery_mono[OF _ order_refl w, of "h @ (X @ Y)"] by simp
  let ?P = "\<lambda>(n, this, m) q. length h \<le> q \<and>
          read_SelectQuery (Suc n) (h @ (X @ Y)) q \<noteq> None"
  have tl: "list_all2 ?P calls qs"
    using s(2) by (rule list_all2_mono) (auto simp del: read_SelectQuery.simps)
  have "?P c (length h + 8)"
    unfolding c using hd by (simp del: read_SelectQuery.simps)
  then have al: "list_all2 ?P (c # calls) ((length h + 8) # qs)"
    using tl by (rule list.rel_intros(2))
  show ?case
  proof (intro exI conjI)
    show "run h (c # calls) = Some ((length h + 8) # qs, h @ (X @ Y))" by (rule ru)
    show "list_all2 ?P (c # calls) ((length h + 8) # qs)" by (rule al)
    show "distinct ((length h + 8) # qs)" using fresh s(3) by simp
  qed
qed

section \<open>The primary table of a query without tables\<close>

text \<open>
  Claim C4. Reading the primary table of a query whose table list is empty throws the
  error \<^verbatim>\<open>No table defined\<close>, whatever the other fields of the query hold; it returns
  no table. With a table in the list the getter returns the first one.
\<close>

theorem table_without_tables_throws:
  "QueryBase_table (SelectQuery [] js fs ws hs lmt off obs gbs us) =
     Throws (Error ''No table defined'') \<and>
   QueryBase_table (SelectQuery (t # ts) js fs ws hs lmt off obs gbs us) = Returns t"
  by (simp add: QueryBase_table_def)

section \<open>The order of the clauses\<close>

lemma join_separated: "join sep xs = separated sep xs"
  by (induction sep xs rule: join.induct) simp_all

lemma SelectQuery_toSQL_clauses:
  "SelectQuery_toSQL num cond flavor q =
     foldl (spec_union_wrap num cond flavor)
       (spec_select_clause flavor q @ spec_from_clause num cond flavor q @
        spec_join_clause num cond flavor q @ spec_where_clause cond flavor q @
        spec_group_by_clause flavor q @ spec_having_clause cond flavor q @
        spec_order_by_clause flavor q @
        (if truthy_number (limit_of q) then spec_limit_clause num q else '''') @
        (if truthy_number (offset_of q) then spec_offset_clause num q else ''''))
       (unionQueries_of q)"
proof (cases q)
  case (SelectQuery ts js fs ws hs lmt off obs gbs us)
  have w: "(\<lambda>sql u. ''('' @ sql @ '') '' @ UnionType_text (union_type u) @
     '' ('' @ SelectQuery_toSQL num cond flavor (query u) @ '')'') = spec_union_wrap num cond flavor"
    by (intro ext) (simp add: spec_union_wrap_def)
  have l: "truthy_number lmt \<Longrightarrow> (case lmt of None \<Rightarrow> '''' | Some k \<Rightarrow> '' LIMIT '' @ num k) =
      '' LIMIT '' @ num (the lmt)" for lmt
    by (cases lmt) (simp_all add: truthy_number_def)
  have o: "truthy_number off \<Longrightarrow> (case off of None \<Rightarrow> '''' | Some k \<Rightarrow> '' OFFSET '' @ num k) =
      '' OFFSET '' @ num (the off)" for off
    by (cases off) (simp_all add: truthy_number_def)
  show ?thesis
    unfolding SelectQuery SelectQuery_toSQL.simps Let_def w
    by (simp add: spec_select_clause_def spec_from_clause_def spec_join_clause_def
        spec_where_clause_def spec_group_by_clause_def spec_having_clause_def
        spec_order_by_clause_def spec_limit_clause_def spec_offset_clause_def join_separated l o)
qed

lemma SelectQuery_toSQL_statement:
  assumes "limit_of q = None \<or> truthy_number (limit_of q)"
    and "offset_of q = None \<or> truthy_number (offset_of q)"
  shows "SelectQuery_toSQL num cond flavor q =
     foldl (spec_union_wrap num cond flavor) (spec_statement num cond flavor q) (unionQueries_of q)"
proof -
  have l: "(if truthy_number (limit_of q) then spec_limit_clause num q else '''') = spec_limit_clause num q"
    using assms(1) by (auto simp: spec_limit_clause_def)
  have o: "(if truthy_number (offset_of q) then spec_offset_clause num q else '''') = spec_offset_clause num q"
    using assms(2) by (auto simp: spec_offset_clause_def)
  show ?thesis
    unfolding SelectQuery_toSQL_clauses[of num cond flavor q] l o spec_statement_def ..
qed

lemma SelectQuery_where_reads:
  assumes "read_SelectQuery n h q = Some v"
  shows "\<exists>X. SelectQuery_where n h q c = Some (length h + 8, h @ X) \<and>
    read_SelectQuery n (h @ X) (length h + 8) = Some (with_where (where_of v @ [c]) v)"
proof -
  obtain k where n: "n = Suc k" using assms by (cases n) simp_all
  from SelectQuery_where_cloned[OF assms[unfolded n], of c] cloned_read_self
  show ?thesis unfolding n by blast
qed

lemma SelectQuery_having_reads:
  assumes "read_SelectQuery n h q = Some v"
  shows "\<exists>X. SelectQuery_having n h q c = Some (length h + 8, h @ X) \<and>
    read_SelectQuery n (h @ X) (length h + 8) = Some (with_having (having_of v @ [c]) v)"
proof -
  obtain k where n: "n = Suc k" using assms by (cases n) simp_all
  from SelectQuery_having_cloned[OF assms[unfolded n], of c] cloned_read_self
  show ?thesis unfolding n by blast
qed

text \<open>
  Claim C6. For every query, every flavor, every \<open>cond\<close> and \<open>num\<close>, \<open>toSQL\<close> is the
  concatenation of the clauses of the specification in the order SELECT, FROM, JOIN,
  WHERE, GROUP BY, HAVING, ORDER BY, LIMIT, OFFSET, wrapped once for every union pair
  from left to right; a clause over an empty list is empty, and the clause of a limit or
  of an offset is empty when the value is absent or falsy (zero or \<^verbatim>\<open>NaN\<close>). So when the
  limit and the offset are absent or truthy, \<open>toSQL\<close> is the statement of the
  specification. The WHERE and the HAVING clause hold one rendered condition for every
  element of the list, in the order of the list, with \<^verbatim>\<open> AND \<close> between two neighbours,
  and \<open>where\<close> and \<open>having\<close> return a query whose list is the list of the receiver with
  the new condition appended at the end.
\<close>

theorem toSQL_clause_order:
  "SelectQuery_toSQL num cond flavor q =
     foldl (spec_union_wrap num cond flavor)
       (spec_select_clause flavor q @ spec_from_clause num cond flavor q @
        spec_join_clause num cond flavor q @ spec_where_clause cond flavor q @
        spec_group_by_clause flavor q @ spec_having_clause cond flavor q @
        spec_order_by_clause flavor q @
        (if truthy_number (limit_of q) then spec_limit_clause num q else '''') @
        (if truthy_number (offset_of q) then spec_offset_clause num q else ''''))
       (unionQueries_of q) \<and>
   ((limit_of q = None \<or> truthy_number (limit_of q)) \<and>
    (offset_of q = None \<or> truthy_number (offset_of q)) \<longrightarrow>
    SelectQuery_toSQL num cond flavor q =
      foldl (spec_union_wrap num cond flavor) (spec_statement num cond flavor q)
        (unionQueries_of q)) \<and>
   (read_SelectQuery n h this = Some v \<longrightarrow>
    (\<exists>q' h'. SelectQuery_where n h this c = Some (q', h') \<and>
       read_SelectQuery n h' q' = Some (with_where (where_of v @ [c]) v)) \<and>
    (\<exists>q' h'. SelectQuery_having n h this c = Some (q', h') \<and>
       read_SelectQuery n h' q' = Some (with_having (having_of v @ [c]) v)))"
  using SelectQuery_toSQL_clauses[of num cond flavor q]
    SelectQuery_toSQL_statement[of q num cond flavor]
    SelectQuery_where_reads[of n h this v c] SelectQuery_having_reads[of n h this v c]
  by blast

text \<open>
  The theorem at a query with every clause, two conditions in each of WHERE and HAVING,
  and at \<open>where\<close> and \<open>having\<close> on the query of \<^verbatim>\<open>Query.select()\<close>.
\<close>

theorem toSQL_clause_order_witness:
  "\<forall>num cond flavor (c1 :: 'a) c2 c3 c4.
     SelectQuery_toSQL num cond flavor
       (SelectQuery [Table (Name ''users'') None] []
          [SelectField ''id'' None, SelectField ''name'' None]
          [c1, c2] [c3, c4] (Some (Finite 10)) (Some (Finite 5))
          [Order ''salary'' DESC] [''dept'', ''team''] []) =
       ''SELECT '' @ escapeColumn flavor ''id'' @ '', '' @ escapeColumn flavor ''name'' @
       '' FROM '' @ escapeTable flavor ''users'' @
       '' WHERE '' @ cond flavor c1 @ '' AND '' @ cond flavor c2 @
       '' GROUP BY '' @ escapeColumn flavor ''dept'' @ '', '' @ escapeColumn flavor ''team'' @
       '' HAVING '' @ cond flavor c3 @ '' AND '' @ cond flavor c4 @
       '' ORDER BY '' @ escapeColumn flavor ''salary'' @ '' DESC'' @
       '' LIMIT '' @ num (Finite 10) @ '' OFFSET '' @ num (Finite 5) \<and>
     (\<exists>q' h'. SelectQuery_where (Suc 0) (snd (Query_select ([] :: 'a heap))) (fst (Query_select ([] :: 'a heap))) c1 = Some (q', h') \<and>
        read_SelectQuery (Suc 0) h' q' = Some (SelectQuery [] [] [] [c1] [] None None [] [] [])) \<and>
     (\<exists>q' h'. SelectQuery_having (Suc 0) (snd (Query_select ([] :: 'a heap))) (fst (Query_select ([] :: 'a heap))) c3 = Some (q', h') \<and>
        read_SelectQuery (Suc 0) h' q' = Some (SelectQuery [] [] [] [] [c3] None None [] [] []))"
proof (intro allI)
  fix num :: "number \<Rightarrow> string" and cond :: "ISQLFlavor \<Rightarrow> 'a \<Rightarrow> string" and flavor
    and c1 c2 c3 c4 :: 'a
  let ?q = "SelectQuery [Table (Name ''users'') None] []
          [SelectField ''id'' None, SelectField ''name'' None]
          [c1, c2] [c3, c4] (Some (Finite 10)) (Some (Finite 5))
          [Order ''salary'' DESC] [''dept'', ''team''] []"
  let ?e = "SelectQuery [] [] [] [] [] None None [] [] [] :: 'a SelectQuery"
  have r: "read_SelectQuery (Suc 0) (snd (Query_select ([] :: 'a heap))) (fst (Query_select ([] :: 'a heap))) = Some ?e"
    by (rule read_select)
  note t = toSQL_clause_order[of num cond flavor ?q "Suc 0" "snd (Query_select ([] :: 'a heap))"
      "fst (Query_select ([] :: 'a heap))" ?e c1]
  note t3 = toSQL_clause_order[of num cond flavor ?q "Suc 0" "snd (Query_select ([] :: 'a heap))"
      "fst (Query_select ([] :: 'a heap))" ?e c3]
  have a: "SelectQuery_toSQL num cond flavor ?q =
      foldl (spec_union_wrap num cond flavor) (spec_statement num cond flavor ?q) (unionQueries_of ?q)"
  proof -
    have "limit_of ?q = None \<or> truthy_number (limit_of ?q)"
      and "offset_of ?q = None \<or> truthy_number (offset_of ?q)"
      by (simp_all add: truthy_number_def)
    with t show ?thesis by blast
  qed
  have s: "spec_statement num cond flavor ?q =
       ''SELECT '' @ escapeColumn flavor ''id'' @ '', '' @ escapeColumn flavor ''name'' @
       '' FROM '' @ escapeTable flavor ''users'' @
       '' WHERE '' @ cond flavor c1 @ '' AND '' @ cond flavor c2 @
       '' GROUP BY '' @ escapeColumn flavor ''dept'' @ '', '' @ escapeColumn flavor ''team'' @
       '' HAVING '' @ cond flavor c3 @ '' AND '' @ cond flavor c4 @
       '' ORDER BY '' @ escapeColumn flavor ''salary'' @ '' DESC'' @
       '' LIMIT '' @ num (Finite 10) @ '' OFFSET '' @ num (Finite 5)"
    by (simp add: spec_statement_def spec_select_clause_def spec_from_clause_def
        spec_join_clause_def spec_where_clause_def spec_group_by_clause_def
        spec_having_clause_def spec_order_by_clause_def spec_limit_clause_def
        spec_offset_clause_def field_toSQL_def order_toSQL_def truthy_string_def
        isSelectQuery_def)
  have w: "\<exists>q' h'. SelectQuery_where (Suc 0) (snd (Query_select ([] :: 'a heap))) (fst (Query_select ([] :: 'a heap))) c1 = Some (q', h') \<and>
        read_SelectQuery (Suc 0) h' q' = Some (SelectQuery [] [] [] [c1] [] None None [] [] [])"
    using t r by (simp add: with_where_def del: read_SelectQuery.simps)
  have hv: "\<exists>q' h'. SelectQuery_having (Suc 0) (snd (Query_select ([] :: 'a heap))) (fst (Query_select ([] :: 'a heap))) c3 = Some (q', h') \<and>
        read_SelectQuery (Suc 0) h' q' = Some (SelectQuery [] [] [] [] [c3] None None [] [] [])"
    using t3 r by (simp add: with_having_def del: read_SelectQuery.simps)
  show "SelectQuery_toSQL num cond flavor ?q =
       ''SELECT '' @ escapeColumn flavor ''id'' @ '', '' @ escapeColumn flavor ''name'' @
       '' FROM '' @ escapeTable flavor ''users'' @
       '' WHERE '' @ cond flavor c1 @ '' AND '' @ cond flavor c2 @
       '' GROUP BY '' @ escapeColumn flavor ''dept'' @ '', '' @ escapeColumn flavor ''team'' @
       '' HAVING '' @ cond flavor c3 @ '' AND '' @ cond flavor c4 @
       '' ORDER BY '' @ escapeColumn flavor ''salary'' @ '' DESC'' @
       '' LIMIT '' @ num (Finite 10) @ '' OFFSET '' @ num (Finite 5) \<and>
     (\<exists>q' h'. SelectQuery_where (Suc 0) (snd (Query_select ([] :: 'a heap))) (fst (Query_select ([] :: 'a heap))) c1 = Some (q', h') \<and>
        read_SelectQuery (Suc 0) h' q' = Some (SelectQuery [] [] [] [c1] [] None None [] [] [])) \<and>
     (\<exists>q' h'. SelectQuery_having (Suc 0) (snd (Query_select ([] :: 'a heap))) (fst (Query_select ([] :: 'a heap))) c3 = Some (q', h') \<and>
        read_SelectQuery (Suc 0) h' q' = Some (SelectQuery [] [] [] [] [c3] None None [] [] []))"
    using a s w hv by (simp del: read_SelectQuery.simps)
qed

section \<open>The query of \<open>select\<close> and a first table\<close>

lemma Query_select_eq: "fst (Query_select h) = length h + 8" "prefix h (snd (Query_select h))"
  by (simp_all add: Query_select_def new_SelectQuery_eq)

lemma toSQL_at_read: "read_SelectQuery n h a = Some v \<Longrightarrow>
    toSQL_at n num cond flavor h a = Some (SelectQuery_toSQL num cond flavor v)"
  by (simp add: toSQL_at_def)

lemma Table_toSQL_eq:
  "Table_toSQL num cond flavor (Table (Sub q) al) =
     ''('' @ SelectQuery_toSQL num cond flavor q @ '') AS '' @
     escapeColumn flavor (if truthy_string al then the al else ''t'')"
  "Table_toSQL num cond flavor (Table (Name s) al) =
     escapeTable flavor s @
     (if truthy_string al then '' AS '' @ escapeColumn flavor (the al) else '''')"
  by (simp_all add: isSelectQuery_def truthy_string_def)

lemma select_from_name:
  assumes "h0 = snd (Query_select h)" "q0 = fst (Query_select h)"
  shows "\<exists>X. QueryBase_from (Suc n) h0 q0 (Inl s) al = Some (length h0 + 8, h0 @ X) \<and>
    read_SelectQuery (Suc n) (h0 @ X) (length h0 + 8) =
      Some (SelectQuery [Table (Name s) al] [] [] [] [] None None [] [] [])"
  using QueryBase_from_name_reads[OF read_select[of n h], of s al] unfolding assms
  by (simp add: with_tables_def del: read_SelectQuery.simps)

section \<open>The builder methods leave every query as it was\<close>

text \<open>
  Claim C3. Take any list of builder calls (\<open>from\<close>, \<open>join\<close> and its four variants, \<open>field\<close>,
  \<open>addField\<close>, \<open>addFields\<close>, \<open>fields\<close>, \<open>removeFields\<close>, \<open>where\<close>, \<open>having\<close>, \<open>groupBy\<close>,
  \<open>removeGroupBy\<close>, \<open>orderBy\<close>, \<open>removeOrderBy\<close>, \<open>limit\<close>, \<open>clearLimit\<close>, \<open>offset\<close>,
  \<open>clearOffset\<close>, \<open>union\<close>), each made on any query of the store in which it is made, so
  on the query that an earlier call returned or on a query that several calls share, and
  with arguments that are objects of their types. Then every call returns. The queries
  returned are objects that the store did not hold before the calls, no two of them the
  same, and each can be read after all the calls. The store is only extended: no cell
  that was there changes. Every query that could be read before the calls reads as the
  same value after them and renders the same SQL, whatever the flavor.
\<close>

theorem builders_leave_receiver_unchanged:
  assumes "admissible h calls"
  shows "\<exists>qs h'. run h calls = Some (qs, h') \<and> prefix h h' \<and>
    list_all2 (\<lambda>(n, this, m) q. length h \<le> q \<and> read_SelectQuery (Suc n) h' q \<noteq> None) calls qs \<and>
    distinct qs \<and>
    (\<forall>k p w. read_SelectQuery k h p = Some w \<longrightarrow>
       read_SelectQuery k h' p = Some w \<and>
       (\<forall>num cond flavor. toSQL_at k num cond flavor h' p = toSQL_at k num cond flavor h p))"
proof -
  from run_extends[OF assms] obtain qs X where
    r: "run h calls = Some (qs, h @ X)"
      "list_all2 (\<lambda>(n, this, m) q. length h \<le> q \<and>
          read_SelectQuery (Suc n) (h @ X) q \<noteq> None) calls qs"
      "distinct qs" by blast
  have p: "prefix h (h @ X)" by simp
  have "read_SelectQuery k (h @ X) p = Some w \<and>
       (\<forall>num cond flavor. toSQL_at k num cond flavor (h @ X) p = toSQL_at k num cond flavor h p)"
    if "read_SelectQuery k h p = Some w" for k p w
    using read_SelectQuery_mono[OF p order_refl that] that by (simp add: toSQL_at_def)
  with r p show ?thesis by blast
qed

text \<open>
  The theorem at the calls of \<open>example_calls\<close>: the shared base at 17 and the query of
  \<^verbatim>\<open>select()\<close> at 8 render after the five calls what they rendered before.
\<close>

theorem builders_leave_receiver_unchanged_witness:
  "admissible example_store example_calls \<and>
   (\<exists>h'. run example_store example_calls = Some ([36, 54, 72, 90, 127], h') \<and>
      (\<forall>num cond flavor.
         toSQL_at 1 num cond flavor example_store 17 =
           Some (''SELECT * FROM '' @ escapeTable flavor ''users'') \<and>
         toSQL_at 1 num cond flavor h' 17 =
           Some (''SELECT * FROM '' @ escapeTable flavor ''users'') \<and>
         toSQL_at 1 num cond flavor h' 8 = Some ''SELECT * ''))"
proof -
  let ?u = "SelectQuery [Table (Name ''users'') None] [] [] [] [] None None [] [] [] :: string SelectQuery"
  let ?e = "SelectQuery [] [] [] [] [] None None [] [] [] :: string SelectQuery"
  have adm: "admissible example_store example_calls" by code_simp
  have r17: "read_SelectQuery 1 example_store 17 = Some ?u" by code_simp
  have r8: "read_SelectQuery 1 example_store 8 = Some ?e" by code_simp
  from builders_leave_receiver_unchanged[OF adm] obtain qs h' where
    ru: "run example_store example_calls = Some (qs, h')"
    and fr: "\<And>k p w. read_SelectQuery k example_store p = Some w \<Longrightarrow>
       read_SelectQuery k h' p = Some w \<and>
       (\<forall>num cond flavor. toSQL_at k num cond flavor h' p =
          toSQL_at k num cond flavor example_store p)"
    by blast
  have "map_option fst (run example_store example_calls) = Some [36, 54, 72, 90, 127]"
    by code_simp
  with ru have qs: "qs = [36, 54, 72, 90, 127]" by simp
  have s17: "toSQL_at 1 num cond flavor example_store 17 =
      Some (''SELECT * FROM '' @ escapeTable flavor ''users'')" for num cond flavor
    unfolding toSQL_at_def r17 by (simp add: isSelectQuery_def truthy_string_def truthy_number_def)
  have s8: "toSQL_at 1 num cond flavor example_store 8 = Some ''SELECT * ''" for num cond flavor
    unfolding toSQL_at_def r8 by (simp add: truthy_number_def)
  show ?thesis
    using adm ru qs fr[OF r17] fr[OF r8] s17 s8 by auto
qed

section \<open>Rendering a query without tables\<close>

text \<open>
  Claim C10. The query of \<^verbatim>\<open>Query.select()\<close> renders as \<^verbatim>\<open>SELECT * \<close> (with the space at
  the end and no FROM) for every flavor, whatever the store it is made in: rendering
  returns this text, while the getter \<open>table\<close> throws \<^verbatim>\<open>No table defined\<close> on the same
  query. For every query with no table the part that \<open>QueryBase.toSQL\<close> renders is the
  empty text, and the getter throws.
\<close>

theorem select_renders_without_from:
  "toSQL_at (Suc n) num cond flavor (snd (Query_select h)) (fst (Query_select h)) =
     Some ''SELECT * '' \<and>
   map_option QueryBase_table
     (read_SelectQuery (Suc n) (snd (Query_select h)) (fst (Query_select h))) =
     Some (Throws (Error ''No table defined'')) \<and>
   QueryBase_toSQL num cond flavor (SelectQuery [] js fs ws hs lmt off obs gbs us) = '''' \<and>
   SelectBaseQuery_toSQL num cond flavor (SelectQuery [] js [] ws hs lmt off obs gbs us) =
     ''SELECT * '' \<and>
   SelectQuery_toSQL num cond flavor (SelectQuery [] [] [] [] [] None None [] [] []) =
     ''SELECT * '' \<and>
   QueryBase_table (SelectQuery [] js fs ws hs lmt off obs gbs us) =
     Throws (Error ''No table defined'')"
  unfolding toSQL_at_def read_select
  by (simp add: QueryBase_table_def truthy_number_def)

section \<open>The alias of a nested source\<close>

text \<open>
  Claim C9. A table whose source is a nested query renders the text of the query in
  parentheses, then \<^verbatim>\<open> AS \<close> and the escaped alias, which is \<^verbatim>\<open>t\<close> when no alias is
  given (or an empty one). A table with a name and no alias renders as the escaped name
  alone. So \<^verbatim>\<open>select().from(select().from(s))\<close> renders as
  \<^verbatim>\<open>SELECT * FROM (SELECT * FROM <s>) AS <t>\<close>, in every store.
\<close>

theorem nested_source_default_alias:
  "Table_toSQL num cond flavor (Table (Sub q) al) =
     ''('' @ SelectQuery_toSQL num cond flavor q @ '') AS '' @
     escapeColumn flavor (if truthy_string al then the al else ''t'') \<and>
   Table_toSQL num cond flavor (Table (Sub q) None) =
     ''('' @ SelectQuery_toSQL num cond flavor q @ '') AS '' @ escapeColumn flavor ''t'' \<and>
   Table_toSQL num cond flavor (Table (Name s) None) = escapeTable flavor s \<and>
   (case Query_select h of (outer, h1) \<Rightarrow>
    case Query_select h1 of (inner, h2) \<Rightarrow>
      do { (x, h3) \<leftarrow> QueryBase_from (Suc 0) h2 inner (Inl s) None;
           (r, h4) \<leftarrow> QueryBase_from (Suc 0) h3 outer (Inr x) None;
           toSQL_at (Suc (Suc 0)) num cond flavor h4 r }) =
     Some (''SELECT * FROM (SELECT * FROM '' @ escapeTable flavor s @ '') AS '' @
           escapeColumn flavor ''t'')"
proof -
  obtain outer h1 where s1: "Query_select h = (outer, h1)" by (cases "Query_select h")
  obtain inner h2 where s2: "Query_select h1 = (inner, h2)" by (cases "Query_select h1")
  let ?e = "SelectQuery [] [] [] [] [] None None [] [] [] :: 'a SelectQuery"
  have ro: "read_SelectQuery (Suc 0) h1 outer = Some ?e"
    using read_select[of 0 h] unfolding s1 by (simp del: read_SelectQuery.simps)
  have p12: "prefix h1 h2" using Query_select_eq(2)[of h1] by (simp add: s2)
  have ro2: "read_SelectQuery (Suc 0) h2 outer = Some ?e"
    using read_SelectQuery_mono[OF p12 order_refl ro] .
  have e: "h2 = snd (Query_select h1)" "inner = fst (Query_select h1)" by (simp_all add: s2)
  from select_from_name[OF e, of 0 s None] obtain X where
    f1: "QueryBase_from (Suc 0) h2 inner (Inl s) None = Some (length h2 + 8, h2 @ X)"
    and r1: "read_SelectQuery (Suc 0) (h2 @ X) (length h2 + 8) =
      Some (SelectQuery [Table (Name s) None] [] [] [] [] None None [] [] [])"
    by blast
  have ro3: "read_SelectQuery (Suc 0) (h2 @ X) outer = Some ?e"
    using read_SelectQuery_mono[OF _ order_refl ro2, of "h2 @ X"]
    by (simp del: read_SelectQuery.simps)
  from QueryBase_from_query_reads[OF ro3 r1, of None] obtain Y where
    f2: "QueryBase_from (Suc 0) (h2 @ X) outer (Inr (length h2 + 8)) None =
        Some (length (h2 @ X) + 8, (h2 @ X) @ Y)"
    and r2: "read_SelectQuery (Suc (Suc 0)) ((h2 @ X) @ Y) (length (h2 @ X) + 8) =
      Some (with_tables
        [Table (Sub (SelectQuery [Table (Name s) None] [] [] [] [] None None [] [] [])) None] ?e)"
    by blast
  have chain: "(case Query_select h of (outer, h1) \<Rightarrow>
    case Query_select h1 of (inner, h2) \<Rightarrow>
      do { (x, h3) \<leftarrow> QueryBase_from (Suc 0) h2 inner (Inl s) None;
           (r, h4) \<leftarrow> QueryBase_from (Suc 0) h3 outer (Inr x) None;
           toSQL_at (Suc (Suc 0)) num cond flavor h4 r }) =
     Some (''SELECT * FROM (SELECT * FROM '' @ escapeTable flavor s @ '') AS '' @
           escapeColumn flavor ''t'')"
    unfolding s1 s2 prod.case f1 bind.bind_lunit f2 toSQL_at_read[OF r2]
    by (simp add: with_tables_def isSelectQuery_def truthy_string_def truthy_number_def)
  have a: "Table_toSQL num cond flavor (Table (Sub q) al) =
     ''('' @ SelectQuery_toSQL num cond flavor q @ '') AS '' @
     escapeColumn flavor (if truthy_string al then the al else ''t'')"
    by (rule Table_toSQL_eq)
  have b: "Table_toSQL num cond flavor (Table (Sub q) None) =
     ''('' @ SelectQuery_toSQL num cond flavor q @ '') AS '' @ escapeColumn flavor ''t''"
    by (simp add: isSelectQuery_def truthy_string_def)
  have c: "Table_toSQL num cond flavor (Table (Name s) None) = escapeTable flavor s"
    by (simp add: isSelectQuery_def truthy_string_def)
  show ?thesis
    by (intro conjI) (rule a, rule b, rule c, rule chain)
qed

section \<open>A limit, an offset and a union on a value\<close>

lemma SelectQuery_limit_reads:
  assumes "read_SelectQuery n h q = Some v"
  shows "\<exists>X. SelectQuery_limit n h q k = Some (length h + 8, h @ X) \<and>
    read_SelectQuery n (h @ X) (length h + 8) = Some (with_limit (Some k) v)"
proof -
  obtain m where n: "n = Suc m" using assms by (cases n) simp_all
  from SelectQuery_limit_cloned[OF assms[unfolded n], of k] cloned_read_self
  show ?thesis unfolding n by blast
qed

lemma SelectQuery_offset_reads:
  assumes "read_SelectQuery n h q = Some v"
  shows "\<exists>X. SelectQuery_offset n h q k = Some (length h + 8, h @ X) \<and>
    read_SelectQuery n (h @ X) (length h + 8) = Some (with_offset (Some k) v)"
proof -
  obtain m where n: "n = Suc m" using assms by (cases n) simp_all
  from SelectQuery_offset_cloned[OF assms[unfolded n], of k] cloned_read_self
  show ?thesis unfolding n by blast
qed

lemma select_from_limit:
  "(case Query_select h of (q0, h0) \<Rightarrow>
      do { (q1, h1) \<leftarrow> QueryBase_from (Suc 0) h0 q0 (Inl s) None;
           (q2, h2) \<leftarrow> SelectQuery_limit (Suc 0) h1 q1 k;
           toSQL_at (Suc 0) num cond flavor h2 q2 }) =
     Some (SelectQuery_toSQL num cond flavor
       (SelectQuery [Table (Name s) None] [] [] [] [] (Some k) None [] [] []))"
proof -
  obtain q0 h0 where s0: "Query_select h = (q0, h0)" by (cases "Query_select h")
  have e: "h0 = snd (Query_select h)" "q0 = fst (Query_select h)" by (simp_all add: s0)
  from select_from_name[OF e, of 0 s None] obtain X where
    f1: "QueryBase_from (Suc 0) h0 q0 (Inl s) None = Some (length h0 + 8, h0 @ X)"
    and r1: "read_SelectQuery (Suc 0) (h0 @ X) (length h0 + 8) =
      Some (SelectQuery [Table (Name s) None] [] [] [] [] None None [] [] [])"
    by blast
  from SelectQuery_limit_reads[OF r1, of k] obtain Y where
    f2: "SelectQuery_limit (Suc 0) (h0 @ X) (length h0 + 8) k =
        Some (length (h0 @ X) + 8, (h0 @ X) @ Y)"
    and r2: "read_SelectQuery (Suc 0) ((h0 @ X) @ Y) (length (h0 @ X) + 8) =
      Some (with_limit (Some k) (SelectQuery [Table (Name s) None] [] [] [] [] None None [] [] []))"
    by blast
  show ?thesis
    unfolding s0 prod.case f1 bind.bind_lunit f2 toSQL_at_read[OF r2]
    by (simp add: with_limit_def)
qed

lemma select_from_offset:
  "(case Query_select h of (q0, h0) \<Rightarrow>
      do { (q1, h1) \<leftarrow> QueryBase_from (Suc 0) h0 q0 (Inl s) None;
           (q2, h2) \<leftarrow> SelectQuery_offset (Suc 0) h1 q1 k;
           toSQL_at (Suc 0) num cond flavor h2 q2 }) =
     Some (SelectQuery_toSQL num cond flavor
       (SelectQuery [Table (Name s) None] [] [] [] [] None (Some k) [] [] []))"
proof -
  obtain q0 h0 where s0: "Query_select h = (q0, h0)" by (cases "Query_select h")
  have e: "h0 = snd (Query_select h)" "q0 = fst (Query_select h)" by (simp_all add: s0)
  from select_from_name[OF e, of 0 s None] obtain X where
    f1: "QueryBase_from (Suc 0) h0 q0 (Inl s) None = Some (length h0 + 8, h0 @ X)"
    and r1: "read_SelectQuery (Suc 0) (h0 @ X) (length h0 + 8) =
      Some (SelectQuery [Table (Name s) None] [] [] [] [] None None [] [] [])"
    by blast
  from SelectQuery_offset_reads[OF r1, of k] obtain Y where
    f2: "SelectQuery_offset (Suc 0) (h0 @ X) (length h0 + 8) k =
        Some (length (h0 @ X) + 8, (h0 @ X) @ Y)"
    and r2: "read_SelectQuery (Suc 0) ((h0 @ X) @ Y) (length (h0 @ X) + 8) =
      Some (with_offset (Some k) (SelectQuery [Table (Name s) None] [] [] [] [] None None [] [] []))"
    by blast
  show ?thesis
    unfolding s0 prod.case f1 bind.bind_lunit f2 toSQL_at_read[OF r2]
    by (simp add: with_offset_def)
qed

lemma toSQL_falsy_bounds:
  "falsy k \<Longrightarrow> SelectQuery_toSQL num cond flavor (SelectQuery ts js fs ws hs (Some k) off obs gbs us) =
     SelectQuery_toSQL num cond flavor (SelectQuery ts js fs ws hs None off obs gbs us)"
  "falsy k \<Longrightarrow> SelectQuery_toSQL num cond flavor (SelectQuery ts js fs ws hs lmt (Some k) obs gbs us) =
     SelectQuery_toSQL num cond flavor (SelectQuery ts js fs ws hs lmt None obs gbs us)"
  by (simp_all add: truthy_number_def)

lemma toSQL_with_unions:
  "SelectQuery_toSQL num cond flavor (with_unionQueries us q) =
     foldl (spec_union_wrap num cond flavor)
       (SelectQuery_toSQL num cond flavor (with_unionQueries [] q)) us"
proof (cases q)
  case (SelectQuery ts js fs ws hs lmt off obs gbs us0)
  have w: "(\<lambda>sql u. ''('' @ sql @ '') '' @ UnionType_text (union_type u) @
     '' ('' @ SelectQuery_toSQL num cond flavor (query u) @ '')'') = spec_union_wrap num cond flavor"
    by (intro ext) (simp add: spec_union_wrap_def)
  show ?thesis
    unfolding SelectQuery with_unionQueries_def SelectQuery.sel SelectQuery_toSQL.simps Let_def w
    by simp
qed

lemma with_unionQueries_self: "with_unionQueries (unionQueries_of q) q = q"
  by (cases q) (simp add: with_unionQueries_def)

lemma toSQL_union_snoc:
  "SelectQuery_toSQL num cond flavor (with_unionQueries (us @ [u]) q) =
     ''('' @ SelectQuery_toSQL num cond flavor (with_unionQueries us q) @ '') '' @
     UnionType_text (union_type u) @
     '' ('' @ SelectQuery_toSQL num cond flavor (query u) @ '')''"
  unfolding toSQL_with_unions[of num cond flavor "us @ [u]"] toSQL_with_unions[of num cond flavor us]
  by (simp add: spec_union_wrap_def)

lemma SelectQuery_union_renders:
  assumes "read_SelectQuery n h a = Some av" and "read_SelectQuery n h b = Some bv"
  shows "\<exists>X. SelectQuery_union (Suc n) h a b ty = Some (length h + 8, h @ X) \<and>
    (\<forall>num cond flavor. toSQL_at (Suc n) num cond flavor (h @ X) (length h + 8) =
       Some (''('' @ SelectQuery_toSQL num cond flavor av @ '') '' @
             UnionType_text (case ty of None \<Rightarrow> UNION | Some t \<Rightarrow> t) @
             '' ('' @ SelectQuery_toSQL num cond flavor bv @ '')''))"
proof -
  have ra: "read_SelectQuery (Suc n) h a = Some av"
    using read_SelectQuery_mono[OF prefix_order.refl le_SucI[OF order_refl] assms(1)] .
  let ?t = "case ty of None \<Rightarrow> UNION | Some t \<Rightarrow> t"
  from SelectQuery_union_cloned[OF ra assms(2), of ty] obtain X where
    u: "SelectQuery_union (Suc n) h a b ty = Some (length h + 8, h @ X)"
    and c: "cloned h (length h) n
      (with_unionQueries (unionQueries_of av @ [UnionQuery bv ?t]) av) X"
    by blast
  note r = cloned_read_self[OF c]
  have "toSQL_at (Suc n) num cond flavor (h @ X) (length h + 8) =
       Some (''('' @ SelectQuery_toSQL num cond flavor av @ '') '' @ UnionType_text ?t @
             '' ('' @ SelectQuery_toSQL num cond flavor bv @ '')'')" for num cond flavor
    unfolding toSQL_at_read[OF r] toSQL_union_snoc with_unionQueries_self by simp
  with u show ?thesis by blast
qed

section \<open>A limit and an offset of zero\<close>

text \<open>
  Claim C1. The claim is that a limit or an offset of 0 still renders its clause. The
  code tests \<^verbatim>\<open>if (this._limit)\<close> and \<^verbatim>\<open>if (this._offset)\<close>, and 0 is falsy:
  \<^verbatim>\<open>select().from(s).limit(0)\<close> renders as \<^verbatim>\<open>SELECT * FROM <s>\<close> with no LIMIT clause, and
  \<^verbatim>\<open>offset(0)\<close> renders no OFFSET clause, in every store and for every flavor, while
  \<^verbatim>\<open>limit(5)\<close> renders \<^verbatim>\<open> LIMIT \<close> and the number. Every query with the limit 0 renders as
  the same query with no limit does, and the same for the offset.
\<close>

theorem limit_zero_renders_no_clause:
  "(case Query_select h of (q0, h0) \<Rightarrow>
      do { (q1, h1) \<leftarrow> QueryBase_from (Suc 0) h0 q0 (Inl s) None;
           (q2, h2) \<leftarrow> SelectQuery_limit (Suc 0) h1 q1 (Finite 0);
           toSQL_at (Suc 0) num cond flavor h2 q2 }) =
     Some (''SELECT * FROM '' @ escapeTable flavor s) \<and>
   (case Query_select h of (q0, h0) \<Rightarrow>
      do { (q1, h1) \<leftarrow> QueryBase_from (Suc 0) h0 q0 (Inl s) None;
           (q2, h2) \<leftarrow> SelectQuery_offset (Suc 0) h1 q1 (Finite 0);
           toSQL_at (Suc 0) num cond flavor h2 q2 }) =
     Some (''SELECT * FROM '' @ escapeTable flavor s) \<and>
   (case Query_select h of (q0, h0) \<Rightarrow>
      do { (q1, h1) \<leftarrow> QueryBase_from (Suc 0) h0 q0 (Inl s) None;
           (q2, h2) \<leftarrow> SelectQuery_limit (Suc 0) h1 q1 (Finite 5);
           toSQL_at (Suc 0) num cond flavor h2 q2 }) =
     Some (''SELECT * FROM '' @ escapeTable flavor s @ '' LIMIT '' @ num (Finite 5)) \<and>
   SelectQuery_toSQL num cond flavor (SelectQuery ts js fs ws hs (Some (Finite 0)) off obs gbs us) =
     SelectQuery_toSQL num cond flavor (SelectQuery ts js fs ws hs None off obs gbs us) \<and>
   SelectQuery_toSQL num cond flavor (SelectQuery ts js fs ws hs lmt (Some (Finite 0)) obs gbs us) =
     SelectQuery_toSQL num cond flavor (SelectQuery ts js fs ws hs lmt None obs gbs us)"
proof -
  have v: "SelectQuery_toSQL num cond flavor
       (SelectQuery [Table (Name s) None] [] [] [] [] (Some (Finite 0)) None [] [] []) =
     ''SELECT * FROM '' @ escapeTable flavor s"
    "SelectQuery_toSQL num cond flavor
       (SelectQuery [Table (Name s) None] [] [] [] [] None (Some (Finite 0)) [] [] []) =
     ''SELECT * FROM '' @ escapeTable flavor s"
    "SelectQuery_toSQL num cond flavor
       (SelectQuery [Table (Name s) None] [] [] [] [] (Some (Finite 5)) None [] [] []) =
     ''SELECT * FROM '' @ escapeTable flavor s @ '' LIMIT '' @ num (Finite 5)"
    by (simp_all add: truthy_number_def truthy_string_def isSelectQuery_def)
  show ?thesis
    unfolding select_from_limit select_from_offset v
    using toSQL_falsy_bounds[of "Finite 0" num cond flavor ts js fs ws hs] by simp
qed

section \<open>The text of a union\<close>

text \<open>
  Claim C7. For two queries \<open>a\<close> and \<open>b\<close> of a store, \<open>a.union(b, ty)\<close> returns a query that
  renders, for every flavor, as the text of \<open>a\<close> in parentheses, the word of the union
  (\<^verbatim>\<open>UNION\<close> when no type is given) and the text of \<open>b\<close> in parentheses; this holds
  also when \<open>a\<close> has unions already, its text then being the one with these unions. On
  values: the text of a query with the pairs \<open>us\<close> and one more pair is the text with the
  pairs \<open>us\<close> wrapped once more, and the text of a query is the text of the query without
  its pairs wrapped once for every pair, from left to right.
\<close>

theorem union_wraps:
  "(read_SelectQuery n h a = Some av \<and> read_SelectQuery n h b = Some bv \<longrightarrow>
     (\<exists>q' h'. SelectQuery_union (Suc n) h a b ty = Some (q', h') \<and>
        (\<forall>num cond flavor. toSQL_at (Suc n) num cond flavor h' q' =
           Some (''('' @ SelectQuery_toSQL num cond flavor av @ '') '' @
                 UnionType_text (case ty of None \<Rightarrow> UNION | Some t \<Rightarrow> t) @
                 '' ('' @ SelectQuery_toSQL num cond flavor bv @ '')'')))) \<and>
   SelectQuery_toSQL num cond flavor (with_unionQueries (us @ [u]) q) =
     ''('' @ SelectQuery_toSQL num cond flavor (with_unionQueries us q) @ '') '' @
     UnionType_text (union_type u) @
     '' ('' @ SelectQuery_toSQL num cond flavor (query u) @ '')'' \<and>
   SelectQuery_toSQL num cond flavor q =
     foldl (spec_union_wrap num cond flavor)
       (SelectQuery_toSQL num cond flavor (with_unionQueries [] q)) (unionQueries_of q)"
  using SelectQuery_union_renders[of n h a av b bv ty] toSQL_union_snoc[of num cond flavor us u q]
    toSQL_with_unions[of num cond flavor "unionQueries_of q" q]
  unfolding with_unionQueries_self
  by blast

text \<open>
  The theorem at the two queries of \<open>example_store\<close>:
  \<^verbatim>\<open>select().from("users").union(select())\<close>.
\<close>

theorem union_wraps_witness:
  "\<exists>q' h'. SelectQuery_union (Suc (Suc 0)) example_store 17 8 None = Some (q', h') \<and>
     (\<forall>num cond flavor. toSQL_at (Suc (Suc 0)) num cond flavor h' q' =
        Some (''(SELECT * FROM '' @ escapeTable flavor ''users'' @ '') UNION (SELECT * )''))"
proof -
  let ?u = "SelectQuery [Table (Name ''users'') None] [] [] [] [] None None [] [] [] :: string SelectQuery"
  let ?e = "SelectQuery [] [] [] [] [] None None [] [] [] :: string SelectQuery"
  have r17: "read_SelectQuery (Suc 0) example_store 17 = Some ?u" by code_simp
  have r8: "read_SelectQuery (Suc 0) example_store 8 = Some ?e" by code_simp
  have s: "SelectQuery_toSQL num cond flavor ?u = ''SELECT * FROM '' @ escapeTable flavor ''users''"
    "SelectQuery_toSQL num cond flavor ?e = ''SELECT * ''" for num cond flavor
    by (simp_all add: isSelectQuery_def truthy_string_def truthy_number_def)
  from union_wraps[of "Suc 0" example_store 17 ?u 8 ?e None] r17 r8
  obtain q' h' where
    u: "SelectQuery_union (Suc (Suc 0)) example_store 17 8 None = Some (q', h')"
    and t: "\<And>num cond flavor. toSQL_at (Suc (Suc 0)) num cond flavor h' q' =
           Some (''('' @ SelectQuery_toSQL num cond flavor ?u @ '') '' @
                 UnionType_text (case None of None \<Rightarrow> UNION | Some t \<Rightarrow> t) @
                 '' ('' @ SelectQuery_toSQL num cond flavor ?e @ '')'')"
    by blast
  show ?thesis
    using u t unfolding s by (intro exI[of _ q'] exI[of _ h']) simp
qed

end
